(* ===== verification/Prelude.thy ===== *)
theory Prelude
  imports Main "HOL-Library.Word"
begin

text \<open>
  Shared vocabulary of the development: bytes and byte buffers (the \<open>uint8_t*\<close>
  memory of \<^verbatim>\<open>src/src/VGA.cpp\<close>), bounded reads and writes on them (an access outside
  the buffer is undefined behaviour in C and is \<open>None\<close> here), the C \<open>for\<close> loop with a
  constant stride as a \<^theory_text>\<open>partial_function (option)\<close> (a zero stride would never
  stop, which is \<open>None\<close>), and the list lemmas the component theories share.
\<close>

unbundle bit_operations_syntax

type_synonym byte = "8 word"
type_synonym buffer = "byte list"

named_theorems buffer_simps \<open>facts about reads and writes of byte buffers\<close>

subsection \<open>Buffers\<close>

text \<open>\<open>splice_at m d ws\<close> is \<open>m\<close> with \<open>ws\<close> written from offset \<open>d\<close> on.\<close>

definition splice_at :: "'a list \<Rightarrow> nat \<Rightarrow> 'a list \<Rightarrow> 'a list" where
  "splice_at m d ws = take d m @ ws @ drop (d + length ws) m"

text \<open>Reading \<open>n\<close> bytes at offset \<open>p\<close> (a pointer walk or \<open>memcpy\<close> source).\<close>

definition read_bytes :: "buffer \<Rightarrow> nat \<Rightarrow> nat \<Rightarrow> byte list option" where
  "read_bytes m p n = (if p + n \<le> length m then Some (take n (drop p m)) else None)"

text \<open>Writing a run of bytes at offset \<open>d\<close> (a sequence of \<open>*(bbptr++) = v\<close> or a
  \<open>memcpy\<close> destination).\<close>

definition write_bytes :: "buffer \<Rightarrow> nat \<Rightarrow> byte list \<Rightarrow> buffer option" where
  "write_bytes m d ws = (if d + length ws \<le> length m then Some (splice_at m d ws) else None)"

text \<open>\<open>memcpy(m + dst, m + src, n)\<close> inside one buffer; overlapping ranges are undefined
  behaviour for \<open>memcpy\<close>.\<close>

definition copy_within :: "buffer \<Rightarrow> nat \<Rightarrow> nat \<Rightarrow> nat \<Rightarrow> buffer option" where
  "copy_within m dst src n =
     (if src + n \<le> dst \<or> dst + n \<le> src
      then Option.bind (read_bytes m src n) (write_bytes m dst)
      else None)"

subsection \<open>Loops\<close>

text \<open>\<open>for (x = x0; x < bound; x += step) body\<close>, the body a partial state transformer.\<close>

partial_function (option) for_loop ::
  "nat \<Rightarrow> nat \<Rightarrow> nat \<Rightarrow> ('s \<Rightarrow> 's option) \<Rightarrow> 's \<Rightarrow> 's option" where
  "for_loop step bound x body s =
     (if x < bound then Option.bind (body s) (\<lambda>s'. for_loop step bound (x + step) body s')
      else Some s)"

text \<open>The body run a given number of times: what a terminating \<open>for_loop\<close> does.\<close>

fun repeat_opt :: "nat \<Rightarrow> ('s \<Rightarrow> 's option) \<Rightarrow> 's \<Rightarrow> 's option" where
  "repeat_opt 0 f s = Some s"
| "repeat_opt (Suc n) f s = Option.bind (f s) (repeat_opt n f)"

text \<open>The number of rounds of \<open>for (x = x0; x < bound; x += step)\<close>.\<close>

definition rounds :: "nat \<Rightarrow> nat \<Rightarrow> nat \<Rightarrow> nat" where
  "rounds step bound x = (bound - x + step - 1) div step"

subsection \<open>Lemmas on buffers\<close>

lemma length_splice [buffer_simps]:
  "d + length ws \<le> length m \<Longrightarrow> length (splice_at m d ws) = length m"
  by (simp add: splice_at_def)

lemma splice_append [buffer_simps]:
  assumes "d + length ws1 + length ws2 \<le> length m"
  shows "splice_at (splice_at m d ws1) (d + length ws1) ws2 = splice_at m d (ws1 @ ws2)"
  using assms by (cases ws1) (auto simp: splice_at_def min_def ac_simps)

lemma splice_full [buffer_simps]: "length ws = length m \<Longrightarrow> splice_at m 0 ws = ws"
  by (simp add: splice_at_def)

lemma splice_prefix [buffer_simps]:
  "d + length ws \<le> length m \<Longrightarrow> take (d + length ws) (splice_at m d ws) = take d m @ ws"
  by (simp add: splice_at_def)

lemma read_bytes_Some [buffer_simps]:
  "p + n \<le> length m \<Longrightarrow> read_bytes m p n = Some (take n (drop p m))"
  by (simp add: read_bytes_def)

lemma write_bytes_Some [buffer_simps]:
  "d + length ws \<le> length m \<Longrightarrow> write_bytes m d ws = Some (splice_at m d ws)"
  by (simp add: write_bytes_def)

lemma read_bytes_splice [buffer_simps]:
  "d + length ws \<le> length m \<Longrightarrow> read_bytes (splice_at m d ws) d (length ws) = Some ws"
  by (simp add: read_bytes_def splice_at_def)

lemma copy_within_after [buffer_simps]:
  assumes "d + 2 * length ws \<le> length m"
  shows "copy_within (splice_at m d ws) (d + length ws) d (length ws) = Some (splice_at m d (ws @ ws))"
proof -
  have "d + length ws \<le> length m" using assms by simp
  then have "read_bytes (splice_at m d ws) d (length ws) = Some ws"
    by (rule read_bytes_splice)
  moreover have "write_bytes (splice_at m d ws) (d + length ws) ws = Some (splice_at m d (ws @ ws))"
    using assms by (simp add: write_bytes_def length_splice splice_append)
  ultimately show ?thesis by (simp add: copy_within_def)
qed

subsection \<open>Lemmas on loops\<close>

lemma repeat_opt_add:
  "repeat_opt (a + b) f s = Option.bind (repeat_opt a f s) (repeat_opt b f)"
  by (induction a arbitrary: s) (simp_all split: Option.bind_splits)

lemma repeat_opt_mult: "repeat_opt (a * b) f = repeat_opt a (repeat_opt b f)"
proof (induction a)
  case 0
  then show ?case by (simp add: fun_eq_iff)
next
  case (Suc a)
  show ?case by (rule ext) (simp add: repeat_opt_add Suc.IH)
qed

lemma for_loop_repeat:
  assumes "0 < step"
  shows "for_loop step bound x body s = repeat_opt (rounds step bound x) body s"
proof (induction "bound - x" arbitrary: x s rule: less_induct)
  case less
  show ?case
  proof (cases "x < bound")
    case True
    have r: "rounds step bound x = Suc (rounds step bound (x + step))"
    proof (cases "x + step < bound")
      case True
      have e: "bound - x + step - 1 = (bound - (x + step) + step - 1) + step"
        using True assms by linarith
      have s0: "step \<noteq> 0" using assms by simp
      have "rounds step bound x = (bound - (x + step) + step - 1) div step + 1"
        unfolding rounds_def e by (simp only: div_add_self2 [OF s0])
      then show ?thesis by (simp add: rounds_def)
    next
      case False
      have "(bound - x + step - 1) div step = 1"
        using False True assms by (intro div_nat_eqI) (simp_all add: mult_2_right)
      moreover have "(bound - (x + step) + step - 1) div step = 0"
        using False assms by simp
      ultimately show ?thesis by (simp add: rounds_def)
    qed
    have "bound - (x + step) < bound - x" using True assms by linarith
    then have IH: "\<And>s. for_loop step bound (x + step) body s
        = repeat_opt (rounds step bound (x + step)) body s"
      by (rule less)
    then have IH': "for_loop step bound (x + step) body
        = repeat_opt (rounds step bound (x + step)) body"
      by (rule ext)
    show ?thesis
      by (simp add: for_loop.simps [of step bound x] True r IH')
  next
    case False
    then have "rounds step bound x = 0" using assms by (simp add: rounds_def)
    with False show ?thesis by (simp add: for_loop.simps [of step bound x])
  qed
qed

lemma rounds_dvd:
  assumes "0 < step" and "step dvd bound"
  shows "rounds step bound 0 = bound div step"
proof -
  from assms(2) obtain k where k: "bound = step * k" by blast
  have "(step * k + step - 1) div step = k"
    using assms(1) by (intro div_nat_eqI) auto
  with k show ?thesis using assms(1) by (simp add: rounds_def)
qed

lemma rounds_one: "rounds 1 bound 0 = bound"
  by (simp add: rounds_def)

lemma for_loop_zero_stride_aux:
  "\<forall>step bound x body s r. for_loop step bound x body s = Some r \<longrightarrow> step = 0 \<longrightarrow> bound \<le> x"
proof (rule for_loop.fixp_induct)
  have "option.admissible (\<lambda>f. \<forall>a y. f a = Some y \<longrightarrow>
          (case a of ((((step, bound), x), body), s) \<Rightarrow> step = 0 \<longrightarrow> bound \<le> x))"
    by (rule option_admissible)
  then show "option.admissible (\<lambda>f. \<forall>step bound x body s r.
      curry (curry (curry (curry f))) step bound x body s = Some r \<longrightarrow> step = 0 \<longrightarrow> bound \<le> x)"
    by (simp only: curry_def split_paired_All prod.case)
next
  show "\<forall>step bound x body s r. (None :: 'a option) = Some r \<longrightarrow> step = 0 \<longrightarrow> bound \<le> x"
    by simp
next
  fix F :: "nat \<Rightarrow> nat \<Rightarrow> nat \<Rightarrow> ('a \<Rightarrow> 'a option) \<Rightarrow> 'a \<Rightarrow> 'a option"
  assume IH: "\<forall>step bound x body s r. F step bound x body s = Some r \<longrightarrow> step = 0 \<longrightarrow> bound \<le> x"
  show "\<forall>step bound x body s r. (if x < bound then Option.bind (body s) (F step bound (x + step) body)
          else Some s) = Some r \<longrightarrow> step = 0 \<longrightarrow> bound \<le> x"
    using IH by (fastforce split: Option.bind_splits)
qed

text \<open>With a zero stride and a true guard the loop never stops.\<close>

lemma for_loop_zero_stride: "x < bound \<Longrightarrow> for_loop 0 bound x body s = None"
  using for_loop_zero_stride_aux by (metis not_None_eq not_le)

subsection \<open>Lists of fixed-width chunks\<close>

lemma map_upt_shift: "map f [a..<a + n] = map (\<lambda>i. f (a + i)) [0..<n]"
  by (induction n) auto

lemma concat_map_width:
  assumes "\<And>x. length (g x) = w"
  shows "concat (map g xs) = map (\<lambda>i. g (xs ! (i div w)) ! (i mod w)) [0..<length xs * w]"
proof (induction xs)
  case Nil
  then show ?case by simp
next
  case (Cons x xs)
  let ?F = "\<lambda>ys i. g (ys ! (i div w)) ! (i mod w)"
  have split: "[0..<length (x # xs) * w] = [0..<w] @ [w..<w + length xs * w]"
    by (simp add: upt_add_eq_append [of 0 w])
  have head: "map (?F (x # xs)) [0..<w] = g x"
  proof (rule nth_equalityI)
    show "length (map (?F (x # xs)) [0..<w]) = length (g x)" using assms by simp
  next
    fix i assume "i < length (map (?F (x # xs)) [0..<w])"
    then show "map (?F (x # xs)) [0..<w] ! i = g x ! i" by simp
  qed
  have tail: "map (?F (x # xs)) [w..<w + length xs * w] = map (?F xs) [0..<length xs * w]"
  proof -
    have "0 < w \<or> xs = [] \<or> w = 0" by auto
    then show ?thesis
    proof (elim disjE)
      assume w: "0 < w"
      have "map (?F (x # xs)) [w..<w + length xs * w]
          = map (\<lambda>i. ?F (x # xs) (w + i)) [0..<length xs * w]"
        by (rule map_upt_shift)
      also have "\<dots> = map (?F xs) [0..<length xs * w]"
        using w by (simp add: div_add_self1)
      finally show ?thesis .
    qed simp_all
  qed
  show ?case by (simp only: list.map(2) concat.simps split map_append head tail Cons.IH)
qed

lemma length_concat_map_width:
  "(\<And>b. length (g b) = m) \<Longrightarrow> length (concat (map g xs)) = length xs * m"
  by (induction xs) auto

lemma take_drop_nth:
  "p + n \<le> length xs \<Longrightarrow> take n (drop p xs) = map (nth xs) [p..<p + n]"
  by (rule nth_equalityI) auto

lemma length_concat_map_const:
  "(\<And>y. y \<in> set ys \<Longrightarrow> length (f y) = w) \<Longrightarrow> length (concat (map f ys)) = length ys * w"
  by (induction ys) auto

lemma concat_map_upt_Suc:
  "concat (map f [0..<Suc c]) = f 0 @ concat (map (\<lambda>y. f (Suc y)) [0..<c])"
  by (induction c) auto

lemma for_rows: "for_loop 1 lines 0 row st = repeat_opt lines row st"
  using for_loop_repeat [of 1 lines 0 row st] by (simp only: rounds_one zero_less_one)

lemma grid_index_bound:
  assumes "a < h" and "b < w" shows "a * w + b < w * (h :: nat)"
proof -
  have "a * w + b < a * w + w" using assms(2) by simp
  also have "\<dots> = Suc a * w" by simp
  also have "\<dots> \<le> h * w" using assms(1) by (intro mult_le_mono1) simp
  finally show ?thesis by (simp add: mult.commute)
qed

lemma concat_line:
  assumes "\<And>y. length (f y) = w" and "j < n"
  shows "take w (drop (j * w) (concat (map f [L..<L + n]))) = f (L + j)"
  using assms(2)
proof (induction j arbitrary: L n)
  case 0
  then obtain m where "n = Suc m" by (cases n) auto
  then show ?case using assms(1) by (simp del: upt_Suc add: upt_conv_Cons)
next
  case (Suc j)
  then obtain m where n: "n = Suc m" and j: "j < m" by (cases n) auto
  have c: "concat (map f [L..<L + n]) = f L @ concat (map f [Suc L..<Suc L + m])"
    using n by (simp del: upt_Suc add: upt_conv_Cons)
  have d: "drop (Suc j * w) (f L @ concat (map f [Suc L..<Suc L + m]))
        = drop (j * w) (concat (map f [Suc L..<Suc L + m]))"
    using assms(1) by simp
  show ?case unfolding c d Suc.IH [OF j, of "Suc L"] by simp
qed

lemma rounds_not_dvd_gen:
  assumes "0 < s" and "\<not> s dvd n"
  shows "n < s * rounds s n 0"
proof -
  let ?x = "n + s - 1"
  have e: "s * (?x div s) + ?x mod s = ?x" by (rule mult_div_mod_eq)
  have "?x mod s < s" using assms(1) by simp
  then have ge: "n \<le> s * (?x div s)" using e assms(1) by linarith
  have "s * (?x div s) \<noteq> n" using assms(2) by (metis dvd_triv_left)
  with ge show ?thesis by (simp add: rounds_def)
qed

lemma half_below: "(x::nat) < 10 * y \<Longrightarrow> x div 2 < y * 5"
  by presburger

lemma less8_cases: "(n::nat) < 8 \<Longrightarrow> n = 0 \<or> n = 1 \<or> n = 2 \<or> n = 3 \<or> n = 4 \<or> n = 5 \<or> n = 6 \<or> n = 7"
  by arith

lemma and7_id: "(x::byte) < 8 \<Longrightarrow> x AND 0b111 = x"
proof -
  assume "x < 8"
  then have "x < 2 ^ 3" by simp
  then have "x AND mask 3 = x" by (rule less_mask_eq)
  moreover have "mask 3 = (0b111 :: byte)" by (simp add: mask_eq_exp_minus_1)
  ultimately show ?thesis by simp
qed

end
