(* ===== verification/Panel.thy ===== *)
theory Panel
  imports Prelude
begin

text \<open>
  The RGB panel configuration that \<open>VGA::init\<close> (\<^verbatim>\<open>src/src/VGA.cpp\<close>, lines 33--125)
  builds and hands to \<open>esp_lcd_new_rgb_panel\<close>: the default pin assignment (the
  \<open>EXAMPLE_PIN_NUM_*\<close> macros, lines 6--18), the data pins taken from the caller's
  \<open>pins\<close> array, the pixel clock and porch tables by resolution, and the fixed fields.
  The structure is \<open>memset\<close> to 0 before it is filled, so a field the code leaves
  alone is 0 (or \<open>false\<close>). Reading \<open>pins[i]\<close> past the end of the caller's array is
  undefined behaviour, \<open>None\<close> here.
\<close>

subsection \<open>Data\<close>

datatype lcd_clk_src = LCD_CLK_SRC_PLL240M

record panel_timing =
  pclk_hz :: nat
  h_res :: nat
  v_res :: nat
  hsync_back_porch :: nat
  hsync_front_porch :: nat
  hsync_pulse_width :: nat
  vsync_back_porch :: nat
  vsync_front_porch :: nat
  vsync_pulse_width :: nat
  pclk_active_neg :: bool
  hsync_idle_low :: bool
  vsync_idle_low :: bool

record rgb_panel_config =
  data_width :: nat
  psram_trans_align :: nat
  num_fbs :: nat
  clk_src :: lcd_clk_src
  bounce_buffer_size_px :: nat
  disp_gpio_num :: int
  pclk_gpio_num :: int
  vsync_gpio_num :: int
  hsync_gpio_num :: int
  de_gpio_num :: int
  data_gpio_nums :: "int list"
  timings :: panel_timing
  fb_in_psram :: bool
  double_fb :: bool
  no_fb :: bool

subsection \<open>Pins\<close>

text \<open>\<open>EXAMPLE_PIN_NUM_DATA0\<close> .. \<open>EXAMPLE_PIN_NUM_DATA7\<close>.\<close>

definition default_data_pins :: "int list" where
  "default_data_pins = [14, 13, 12, 11, 10, 39, 38, 45]"

text \<open>The eight data pins: the defaults when \<open>pins\<close> is \<open>NULL\<close>; otherwise
  \<open>pins[i]\<close> for the first \<open>bits\<close> lines and \<open>-1\<close> (unused) for the others. The loop
  reads \<open>pins[0]\<close> .. \<open>pins[min bits 8 - 1]\<close>.\<close>

definition data_gpio_config :: "int list option \<Rightarrow> nat \<Rightarrow> int list option" where
  "data_gpio_config pins bits =
     (case pins of
        None \<Rightarrow> Some default_data_pins
      | Some ps \<Rightarrow>
          if min bits 8 \<le> length ps then Some (map (\<lambda>i. if i < bits then ps ! i else -1) [0..<8])
          else None)"

subsection \<open>Timings\<close>

text \<open>The pixel clock chosen by resolution; any other resolution leaves it 0.\<close>

definition pixel_clock_hz :: "nat \<Rightarrow> nat \<Rightarrow> nat" where
  "pixel_clock_hz width height =
     (if width = 800 \<and> height = 600 then 40000000
      else if width = 640 \<and> height = 480 then 36000000
      else if width = 640 \<and> height = 400 then 25000000
      else if width = 640 \<and> height = 350 then 25000000
      else 0)"

text \<open>\<open>panel_config.timings\<close>: resolution, clock, the porch table of the four supported
  modes (zero for any other), and the polarity flags.\<close>

definition panel_timings :: "nat \<Rightarrow> nat \<Rightarrow> panel_timing" where
  "panel_timings width height =
     (let t = \<lparr>pclk_hz = pixel_clock_hz width height, h_res = width, v_res = height,
               hsync_back_porch = 0, hsync_front_porch = 0, hsync_pulse_width = 0,
               vsync_back_porch = 0, vsync_front_porch = 0, vsync_pulse_width = 0,
               pclk_active_neg = True, hsync_idle_low = False, vsync_idle_low = False\<rparr>
      in if width = 800 \<and> height = 600 then
           t\<lparr>hsync_back_porch := 88, hsync_front_porch := 40, hsync_pulse_width := 128,
             vsync_back_porch := 23, vsync_front_porch := 1, vsync_pulse_width := 4\<rparr>
         else if width = 640 \<and> height = 480 then
           t\<lparr>hsync_back_porch := 80, hsync_front_porch := 56, hsync_pulse_width := 56,
             vsync_back_porch := 25, vsync_front_porch := 1, vsync_pulse_width := 3\<rparr>
         else if width = 640 \<and> height = 400 then
           t\<lparr>hsync_back_porch := 48, hsync_front_porch := 16, hsync_pulse_width := 96,
             vsync_back_porch := 35, vsync_front_porch := 12, vsync_pulse_width := 2\<rparr>
         else if width = 640 \<and> height = 350 then
           t\<lparr>hsync_back_porch := 48, hsync_front_porch := 16, hsync_pulse_width := 96,
             vsync_back_porch := 60, vsync_front_porch := 37, vsync_pulse_width := 2\<rparr>
         else t)"

subsection \<open>The whole configuration\<close>

text \<open>\<open>panel_config\<close> as \<open>init\<close> fills it for a screen of \<open>width x height\<close>
  (\<open>_screenWidth\<close> and \<open>_screenHeight\<close> are set to these just before), bounce buffers of
  \<open>bounce_lines\<close> lines, \<open>bits\<close> colour bits and the caller's \<open>pins\<close>.\<close>

definition panel_config ::
  "nat \<Rightarrow> nat \<Rightarrow> nat \<Rightarrow> nat \<Rightarrow> int list option \<Rightarrow> rgb_panel_config option" where
  "panel_config width height bounce_lines bits pins =
     map_option (\<lambda>data.
       \<lparr>data_width = 8, psram_trans_align = 64, num_fbs = 0, clk_src = LCD_CLK_SRC_PLL240M,
        bounce_buffer_size_px = bounce_lines * width, disp_gpio_num = -1, pclk_gpio_num = 9,
        vsync_gpio_num = 3, hsync_gpio_num = 4, de_gpio_num = 0, data_gpio_nums = data,
        timings = panel_timings width height, fb_in_psram = False, double_fb = False,
        no_fb = True\<rparr>)
       (data_gpio_config pins bits)"

subsection \<open>Lemmas\<close>

lemma data_gpio_config_Some_iff:
  "data_gpio_config pins bits \<noteq> None \<longleftrightarrow> (\<forall>ps. pins = Some ps \<longrightarrow> min bits 8 \<le> length ps)"
  by (auto simp: data_gpio_config_def split: option.splits)

lemma panel_config_None_iff:
  "panel_config width height bl bits pins = None \<longleftrightarrow> data_gpio_config pins bits = None"
  by (simp add: panel_config_def)

lemma panel_config_default:
  "\<exists>cfg. panel_config width height bl bits None = Some cfg \<and>
     data_gpio_nums cfg = default_data_pins \<and> timings cfg = panel_timings width height \<and>
     bounce_buffer_size_px cfg = bl * width"
  by (simp add: panel_config_def data_gpio_config_def)

lemma panel_timings_unsupported:
  assumes "(width, height) \<notin> {(800, 600), (640, 480), (640, 400), (640, 350)}"
  shows "panel_timings width height =
     \<lparr>pclk_hz = 0, h_res = width, v_res = height,
      hsync_back_porch = 0, hsync_front_porch = 0, hsync_pulse_width = 0,
      vsync_back_porch = 0, vsync_front_porch = 0, vsync_pulse_width = 0,
      pclk_active_neg = True, hsync_idle_low = False, vsync_idle_low = False\<rparr>"
  using assms by (auto simp: panel_timings_def pixel_clock_hz_def Let_def)

end
