(* ===== verification/FrameStore.thy ===== *)
theory FrameStore
  imports Panel
begin

text \<open>
  The frame store: the fields of class \<open>VGA\<close> (\<^verbatim>\<open>src/src/VGA.h\<close>) as a record, the
  object as the constructor leaves it, \<open>VGA::init\<close> (\<^verbatim>\<open>src/src/VGA.cpp\<close>, lines 22--160)
  with its timing tables, buffer allocation and the \<open>memset\<close> of the first buffer, and
  \<open>VGA::getDrawBuffer\<close>. The two FreeRTOS binary semaphores are modelled by whether they
  hold their token. A frame buffer pointer is the index into \<open>frame_buffers\<close>, so that
  pointer identity (front versus back buffer) is index equality.
\<close>

subsection \<open>State\<close>

record vga =
  sem_vsync_end :: bool
  sem_gui_ready :: bool
  frame_buffers :: "buffer list"
  frame_buffer_index :: nat
  frame_width :: nat
  frame_height :: nat
  screen_width :: nat
  screen_height :: nat
  frame_scale :: nat
  color_bits :: nat
  bounce_buffer_lines :: nat
  panel_handle :: "rgb_panel_config option"
  h_border :: nat
  v_border :: nat
  last_bounce_buffer_pos :: nat
  frame_buffers_in_psram :: bool

text \<open>The member initialisers of the header; the two buffer pointers are not yet
  allocated (empty buffers) and the panel handle is \<open>NULL\<close>. The driver object behind
  \<open>_panel_handle\<close> is represented by the configuration it was created from.\<close>

definition vga_new :: vga where
  "vga_new =
     \<lparr>sem_vsync_end = False, sem_gui_ready = False, frame_buffers = [[], []],
      frame_buffer_index = 0, frame_width = 0, frame_height = 0, screen_width = 0,
      screen_height = 0, frame_scale = 2, color_bits = 8, bounce_buffer_lines = 0,
      panel_handle = None, h_border = 0, v_border = 0, last_bounce_buffer_pos = 0,
      frame_buffers_in_psram = False\<rparr>"

text \<open>The inline getters of the header.\<close>

definition get_frame_width :: "vga \<Rightarrow> nat" where
  "get_frame_width v = frame_width v"

definition get_frame_height :: "vga \<Rightarrow> nat" where
  "get_frame_height v = frame_height v"

definition get_color_bits :: "vga \<Rightarrow> nat" where
  "get_color_bits v = color_bits v"

subsection \<open>Buffers and initialisation\<close>

text \<open>Bytes of one logical frame: one per pixel, or two 3-bit pixels per byte.\<close>

definition fb_size :: "nat \<Rightarrow> nat \<Rightarrow> nat \<Rightarrow> nat" where
  "fb_size fw fh bits = (if bits = 3 then (fw * fh) div 2 else fw * fh)"

text \<open>\<open>memset(b, c, n)\<close>: writing past the allocation is undefined behaviour.\<close>

definition memset_buf :: "buffer \<Rightarrow> byte \<Rightarrow> nat \<Rightarrow> buffer option" where
  "memset_buf b c n = write_bytes b 0 (replicate n c)"

datatype init_error = DivisionByZero | PinsOutOfBounds | AllocFailed | MemsetOverflow

text \<open>
  \<open>init alloc v width height scale bits pins psram\<close>, the arguments of the definition in
  \<^verbatim>\<open>VGA.cpp\<close>. The allocator is a parameter: \<open>alloc psram i n\<close> is the content of the
  \<open>i\<close>-th block of \<open>n\<close> bytes (\<open>malloc\<close> or \<open>heap_caps_malloc\<close>, uninitialised), or
  \<open>None\<close> when the pool is exhausted and the \<open>assert\<close> aborts. The semaphore creation and
  the peripheral calls wrapped in \<open>ESP_ERROR_CHECK\<close> are assumed to succeed;
  \<open>esp_lcd_new_rgb_panel\<close> stores the configuration in \<open>_panel_handle\<close>. A zero scale is
  a C division by zero; a \<open>pins\<close> array shorter than the pins the loop reads is
  undefined behaviour. \<open>_frameBuffersInPsram\<close> is never set.
\<close>

definition init ::
  "(bool \<Rightarrow> nat \<Rightarrow> nat \<Rightarrow> (nat \<Rightarrow> byte) option) \<Rightarrow> vga \<Rightarrow> nat \<Rightarrow> nat \<Rightarrow> nat \<Rightarrow> nat \<Rightarrow>
     int list option \<Rightarrow> bool \<Rightarrow> init_error + vga" where
  "init alloc v width height scale bits pins use_psram =
     (if scale = 0 then Inl DivisionByZero
      else
        let v1 = v\<lparr>frame_scale := scale, frame_width := width div scale,
                   frame_height := height div scale, screen_width := width,
                   screen_height := height, color_bits := bits,
                   bounce_buffer_lines := height div 10,
                   sem_vsync_end := False, sem_gui_ready := False\<rparr>;
            n = fb_size (width div scale) (height div scale) bits
        in case panel_config width height (height div 10) bits pins of
             None \<Rightarrow> Inl PinsOutOfBounds
           | Some cfg \<Rightarrow>
               (case (alloc use_psram 0 n, alloc use_psram 1 n) of
                  (Some g0, Some g1) \<Rightarrow>
                    (case memset_buf (map g0 [0..<n]) 255 ((width div scale) * (height div scale)) of
                       None \<Rightarrow> Inl MemsetOverflow
                     | Some b0 \<Rightarrow>
                         Inr (v1\<lparr>frame_buffers := [b0, map g1 [0..<n]], panel_handle := Some cfg\<rparr>))
                | _ \<Rightarrow> Inl AllocFailed))"

text \<open>\<open>getDrawBuffer\<close>: the buffer that is not the front one (returned as its index).\<close>

definition get_draw_buffer :: "vga \<Rightarrow> nat" where
  "get_draw_buffer v = (if frame_buffer_index v = 0 then 1 else 0)"

definition front_buffer :: "vga \<Rightarrow> buffer" where
  "front_buffer v = frame_buffers v ! frame_buffer_index v"

subsection \<open>Well-formedness\<close>

text \<open>Two buffers of the configured size and a front index that names one of them.\<close>

definition vga_wf :: "vga \<Rightarrow> bool" where
  "vga_wf v \<longleftrightarrow>
     length (frame_buffers v) = 2 \<and> frame_buffer_index v < 2 \<and>
     list_all (\<lambda>b. length b = fb_size (frame_width v) (frame_height v) (color_bits v))
       (frame_buffers v)"

lemma fb_size_le: "fb_size fw fh bits \<le> fw * fh"
  by (simp add: fb_size_def)

lemma memset_buf_Some:
  "n \<le> length b \<Longrightarrow> memset_buf b c n = Some (replicate n c @ drop n b)"
  by (simp add: memset_buf_def write_bytes_def splice_at_def)

lemma memset_buf_None: "length b < n \<Longrightarrow> memset_buf b c n = None"
  by (simp add: memset_buf_def write_bytes_def)

lemma vga_wf_front:
  assumes "vga_wf v"
  shows "frame_buffer_index v < length (frame_buffers v)"
    and "length (front_buffer v) = fb_size (frame_width v) (frame_height v) (color_bits v)"
  using assms by (auto simp: vga_wf_def front_buffer_def list_all_length)

subsection \<open>Initialisation\<close>

lemma init_unfold:
  assumes "0 < scale"
    and "panel_config width height (height div 10) bits pins = Some cfg"
    and "alloc p 0 (fb_size (width div scale) (height div scale) bits) = Some g0"
    and "alloc p 1 (fb_size (width div scale) (height div scale) bits) = Some g1"
  shows "init alloc v width height scale bits pins p =
     (let n = fb_size (width div scale) (height div scale) bits in
      case memset_buf (map g0 [0..<n]) 255 ((width div scale) * (height div scale)) of
        None \<Rightarrow> Inl MemsetOverflow
      | Some b0 \<Rightarrow> Inr (v\<lparr>frame_scale := scale, frame_width := width div scale,
                   frame_height := height div scale, screen_width := width,
                   screen_height := height, color_bits := bits,
                   bounce_buffer_lines := height div 10,
                   sem_vsync_end := False, sem_gui_ready := False,
                   frame_buffers := [b0, map g1 [0..<n]], panel_handle := Some cfg\<rparr>))"
  using assms by (simp add: init_def Let_def)

lemma init_Inr:
  assumes "0 < scale" and "bits \<noteq> 3"
    and "panel_config width height (height div 10) bits pins = Some cfg"
    and "alloc p 0 ((width div scale) * (height div scale)) = Some g0"
    and "alloc p 1 ((width div scale) * (height div scale)) = Some g1"
  shows "init alloc v width height scale bits pins p =
     Inr (v\<lparr>frame_scale := scale, frame_width := width div scale,
            frame_height := height div scale, screen_width := width,
            screen_height := height, color_bits := bits,
            bounce_buffer_lines := height div 10,
            sem_vsync_end := False, sem_gui_ready := False,
            frame_buffers := [replicate ((width div scale) * (height div scale)) 255,
                              map g1 [0..<(width div scale) * (height div scale)]],
            panel_handle := Some cfg\<rparr>)"
proof -
  have n: "fb_size (width div scale) (height div scale) bits = (width div scale) * (height div scale)"
    using assms(2) by (simp add: fb_size_def)
  show ?thesis
    using init_unfold [where alloc = alloc and p = p and v = v, OF assms(1,3), unfolded n, OF assms(4,5)]
    by (simp add: Let_def memset_buf_Some)
qed

text \<open>C2. \<open>init\<close> in 3-bit mode: the first buffer is \<open>memset\<close> over \<open>fw * fh\<close> bytes but only
  \<open>fw * fh / 2\<close> were allocated, so every non-empty 3-bit frame overflows it.\<close>

theorem init_packed_overflow:
  assumes "0 < scale" and "scale \<le> width" and "scale \<le> height"
    and "panel_config width height (height div 10) 3 pins = Some cfg"
    and "\<And>i n. \<exists>g. alloc p i n = Some g"
  shows "init alloc v width height scale 3 pins p = Inl MemsetOverflow"
proof -
  let ?fw = "width div scale" and ?fh = "height div scale"
  let ?n = "fb_size ?fw ?fh 3"
  obtain g0 g1 where g0: "alloc p 0 ?n = Some g0" and g1: "alloc p 1 ?n = Some g1"
    using assms(5) by blast
  have "0 < ?fw" and "0 < ?fh" using assms(1-3) by (simp_all add: div_greater_zero_iff)
  then have "?n < ?fw * ?fh" by (simp add: fb_size_def)
  then have "memset_buf (map g0 [0..<?n]) 255 (?fw * ?fh) = None"
    by (simp add: memset_buf_None)
  then show ?thesis by (simp add: init_unfold [where alloc = alloc and p = p and v = v, OF assms(1,4) g0 g1] Let_def)
qed

theorem init_packed_overflow_witness:
  "0 < (2::nat) \<and> (2::nat) \<le> 640 \<and> (2::nat) \<le> 480 \<and>
   panel_config 640 480 (480 div 10) 3 None = Some (the (panel_config 640 480 48 3 None)) \<and>
   (\<forall>i n. \<exists>g. (\<lambda>(_::bool) (_::nat) (_::nat). Some (\<lambda>_::nat. 0::byte)) False i n = Some g) \<and>
   init (\<lambda>_ _ _. Some (\<lambda>_. 0)) vga_new 640 480 2 3 None False = Inl MemsetOverflow"
proof -
  have c: "panel_config 640 480 (480 div 10) 3 None = Some (the (panel_config 640 480 48 3 None))"
    by (simp add: panel_config_def data_gpio_config_def)
  have a: "\<And>i n. \<exists>g. (\<lambda>(_::bool) (_::nat) (_::nat). Some (\<lambda>_::nat. 0::byte)) False i n = Some g"
    by simp
  show ?thesis
    using c init_packed_overflow [where scale = 2 and width = 640 and height = 480 and v = vga_new,
        OF _ _ _ c a] by simp
qed

text \<open>C12. \<open>init\<close> of a freshly constructed object in any mode other than 3-bit, with valid
  pins and an allocator that never fails, succeeds: two buffers of \<open>fw * fh\<close> bytes, the
  front one filled with 255 by the \<open>memset\<close>, both semaphores empty, and the panel
  created with bounce buffers of \<open>height / 10\<close> lines.\<close>

theorem init_direct8_ok:
  assumes "0 < scale" and "bits \<noteq> 3" and "data_gpio_config pins bits \<noteq> None"
    and "\<And>i n. \<exists>g. alloc p i n = Some g"
  shows "\<exists>v' cfg. init alloc vga_new width height scale bits pins p = Inr v' \<and> vga_wf v' \<and>
           \<not> sem_gui_ready v' \<and> \<not> sem_vsync_end v' \<and>
           front_buffer v' = replicate ((width div scale) * (height div scale)) 255 \<and>
           panel_handle v' = Some cfg \<and> bounce_buffer_size_px cfg = (height div 10) * width"
proof -
  let ?n = "(width div scale) * (height div scale)"
  obtain g0 g1 where g0: "alloc p 0 ?n = Some g0" and g1: "alloc p 1 ?n = Some g1"
    using assms(4) by blast
  obtain cfg where cfg: "panel_config width height (height div 10) bits pins = Some cfg"
    using assms(3) by (auto simp: panel_config_def)
  have b: "bounce_buffer_size_px cfg = (height div 10) * width"
    using cfg by (auto simp: panel_config_def)
  show ?thesis
    using init_Inr [where alloc = alloc and p = p and v = vga_new and width = width and height = height
        and scale = scale, OF assms(1,2) cfg g0 g1] assms(2) b
    by (simp add: vga_wf_def front_buffer_def vga_new_def fb_size_def)
qed

text \<open>C14. \<open>getDrawBuffer\<close> returns the back buffer: an index of a buffer other than the
  front one.\<close>

theorem get_draw_buffer_back:
  assumes "frame_buffer_index v < 2"
  shows "get_draw_buffer v < 2 \<and> get_draw_buffer v \<noteq> frame_buffer_index v"
  using assms by (simp add: get_draw_buffer_def)

text \<open>C18. If either frame buffer cannot be allocated, \<open>init\<close> fails (the \<open>assert\<close> on the
  allocation) and the object is never configured.\<close>

theorem init_alloc_failure:
  assumes "0 < scale" and "data_gpio_config pins bits \<noteq> None"
    and "alloc p 0 (fb_size (width div scale) (height div scale) bits) = None \<or>
         alloc p 1 (fb_size (width div scale) (height div scale) bits) = None"
  shows "init alloc v width height scale bits pins p = Inl AllocFailed"
  using assms by (auto simp: init_def Let_def panel_config_def split: option.splits)

text \<open>C24. With a \<open>pins\<close> array, the loop over the eight data lines reads \<open>pins[i]\<close> for
  every line below \<open>bits\<close>: \<open>init\<close> reads past the caller's array (undefined behaviour)
  exactly when it holds fewer than \<open>min bits 8\<close> entries.\<close>

theorem init_pins_out_of_bounds:
  assumes "0 < scale"
  shows "init alloc v width height scale bits (Some ps) p = Inl PinsOutOfBounds \<longleftrightarrow>
         length ps < min bits 8"
  using assms
  by (auto simp: init_def Let_def panel_config_def data_gpio_config_def
           split: option.splits prod.splits)

text \<open>C25. A resolution outside the four timing tables is not rejected: \<open>init\<close> succeeds
  and creates the panel with a pixel clock of 0 and no sync pulses, where the spec
  (section 7) makes an unsupported geometry a fatal setup error.\<close>

theorem init_unsupported_resolution:
  assumes "0 < scale" and "bits \<noteq> 3" and "data_gpio_config pins bits \<noteq> None"
    and "\<And>i n. \<exists>g. alloc p i n = Some g"
    and "(width, height) \<notin> {(800, 600), (640, 480), (640, 400), (640, 350)}"
  shows "\<exists>v' cfg. init alloc v width height scale bits pins p = Inr v' \<and>
           panel_handle v' = Some cfg \<and> pclk_hz (timings cfg) = 0 \<and>
           hsync_pulse_width (timings cfg) = 0 \<and> vsync_pulse_width (timings cfg) = 0"
proof -
  let ?n = "(width div scale) * (height div scale)"
  obtain g0 g1 where g0: "alloc p 0 ?n = Some g0" and g1: "alloc p 1 ?n = Some g1"
    using assms(4) by blast
  obtain cfg where cfg: "panel_config width height (height div 10) bits pins = Some cfg"
    using assms(3) by (auto simp: panel_config_def)
  have "timings cfg = panel_timings width height" using cfg by (auto simp: panel_config_def)
  then have t: "pclk_hz (timings cfg) = 0 \<and> hsync_pulse_width (timings cfg) = 0 \<and>
      vsync_pulse_width (timings cfg) = 0"
    using panel_timings_unsupported [OF assms(5)] by simp
  show ?thesis
    using init_Inr [where alloc = alloc and p = p and v = v and width = width and height = height
        and scale = scale, OF assms(1,2) cfg g0 g1] t by simp
qed

end
