(* ===== verification/Converter.thy ===== *)
theory Converter
  imports FrameStore
begin

text \<open>
  The pixel converter: the data half of \<open>VGA::bounceEvent\<close> (\<^verbatim>\<open>src/src/VGA.cpp\<close>,
  lines 180--365), which fills a bounce buffer for the chunk of the physical pixel
  stream that starts at \<open>pos_px\<close> and is \<open>len_bytes\<close> long, from the front frame
  buffer. The four branches (scale 1 or 2, 8 or 3 colour bits) are modelled as the code
  runs them: the pointers \<open>pptr\<close> (into the frame buffer) and \<open>bbptr\<close> (into the bounce
  buffer) are a \<open>fill_state\<close>, each unrolled loop body is one \<open>expand_block\<close> that reads
  a run of source bytes and writes their expansion, the \<open>x\<close> and \<open>y\<close> loops are
  \<open>for_loop\<close>, and the scale-2 line doubling is the \<open>memcpy\<close> of \<open>replicate_line\<close>.
  Reads past the frame buffer, writes past the bounce buffer and overlapping \<open>memcpy\<close>
  are undefined behaviour and give \<open>None\<close>. The frame buffer and the bounce buffer are
  separate allocations, so reads and writes do not alias.

  The reference semantics \<open>physical_stream\<close> is the spec's contract (section 4.2):
  output byte \<open>k\<close> is the physical pixel at offset \<open>pos + k\<close>, nearest-neighbour
  upscaled and depth-expanded.
\<close>

unbundle bit_operations_syntax

subsection \<open>Depth expansion of one source byte\<close>

text \<open>3-bit, scale 1: \<open>pixelBits & 0b111\<close>, then \<open>pixelBits >>= 4\<close>, \<open>pixelBits & 0b111\<close>.\<close>

definition unpack_pair :: "byte \<Rightarrow> byte list" where
  "unpack_pair b = [b AND 0b111, drop_bit 4 b AND 0b111]"

text \<open>3-bit, scale 2: each of the two samples is written twice.\<close>

definition unpack_pair_dup :: "byte \<Rightarrow> byte list" where
  "unpack_pair_dup b =
     [b AND 0b111, b AND 0b111, drop_bit 4 b AND 0b111, drop_bit 4 b AND 0b111]"

text \<open>8-bit, scale 2: \<open>*(bbptr++) = *pptr; *(bbptr++) = *(pptr++);\<close>\<close>

definition dup_pixel :: "byte \<Rightarrow> byte list" where
  "dup_pixel b = [b, b]"

subsection \<open>Pointers and unrolled loop bodies\<close>

record fill_state =
  pptr :: nat
  bbptr :: nat
  bounce :: buffer

text \<open>Read \<open>k\<close> bytes at \<open>pptr\<close>, write the expansion of each at \<open>bbptr\<close>, advance both.\<close>

definition expand_block ::
  "buffer \<Rightarrow> nat \<Rightarrow> (byte \<Rightarrow> byte list) \<Rightarrow> fill_state \<Rightarrow> fill_state option" where
  "expand_block fb k g st =
     Option.bind (read_bytes fb (pptr st) k) (\<lambda>src.
       let out = concat (map g src) in
       Option.bind (write_bytes (bounce st) (bbptr st) out) (\<lambda>bb'.
         Some \<lparr>pptr = pptr st + k, bbptr = bbptr st + length out, bounce = bb'\<rparr>))"

text \<open>The body of \<open>for (x = 0; x < fw; x += 10)\<close> in the 3-bit scale-1 branch:
  five source bytes, ten output bytes.\<close>

definition block_1x3 :: "buffer \<Rightarrow> fill_state \<Rightarrow> fill_state option" where
  "block_1x3 fb = expand_block fb 5 unpack_pair"

text \<open>The body of \<open>for (x = 0; x < fw; x += 40)\<close> in the 8-bit scale-2 branch:
  forty source bytes, eighty output bytes.\<close>

definition block_2x8 :: "buffer \<Rightarrow> fill_state \<Rightarrow> fill_state option" where
  "block_2x8 fb = expand_block fb 40 dup_pixel"

text \<open>The body of \<open>for (x = 0; x < fw; x += 10)\<close> in the 3-bit scale-2 branch:
  five source bytes, twenty output bytes.\<close>

definition block_2x3 :: "buffer \<Rightarrow> fill_state \<Rightarrow> fill_state option" where
  "block_2x3 fb = expand_block fb 5 unpack_pair_dup"

text \<open>\<open>memcpy(bbptr, lineptr, screenWidth); bbptr += screenWidth;\<close>\<close>

definition replicate_line :: "nat \<Rightarrow> nat \<Rightarrow> fill_state \<Rightarrow> fill_state option" where
  "replicate_line sw lineptr st =
     Option.bind (copy_within (bounce st) (bbptr st) lineptr sw) (\<lambda>bb'.
       Some (st\<lparr>bbptr := bbptr st + sw, bounce := bb'\<rparr>))"

subsection \<open>One logical line\<close>

definition row_1x3 :: "nat \<Rightarrow> buffer \<Rightarrow> fill_state \<Rightarrow> fill_state option" where
  "row_1x3 fw fb st = for_loop 10 fw 0 (block_1x3 fb) st"

definition row_2x8 :: "nat \<Rightarrow> nat \<Rightarrow> buffer \<Rightarrow> fill_state \<Rightarrow> fill_state option" where
  "row_2x8 fw sw fb st =
     Option.bind (for_loop 40 fw 0 (block_2x8 fb) st) (replicate_line sw (bbptr st))"

definition row_2x3 :: "nat \<Rightarrow> nat \<Rightarrow> buffer \<Rightarrow> fill_state \<Rightarrow> fill_state option" where
  "row_2x3 fw sw fb st =
     Option.bind (for_loop 10 fw 0 (block_2x3 fb) st) (replicate_line sw (bbptr st))"

subsection \<open>The conversion\<close>

text \<open>
  \<open>bounce_fill v pos_px len_bytes bb\<close> is the bounce buffer after the conversion part of
  \<open>bounceEvent\<close>, \<open>bb\<close> its content before. \<open>div\<close>, \<open>pixelsPerByte\<close>, the source
  offset, \<open>pixelsToCopy\<close> and \<open>lines\<close> are computed before the branches, as in the code
  (a zero divisor there is a C division by zero); an unsupported combination of scale
  and colour bits writes nothing.
\<close>

definition bounce_fill :: "vga \<Rightarrow> nat \<Rightarrow> nat \<Rightarrow> buffer \<Rightarrow> buffer option" where
  "bounce_fill v pos_px len_bytes bb =
     (let scale = frame_scale v; dv = scale * scale;
          ppb = (if color_bits v = 3 then 2 else 1 :: nat);
          fw = frame_width v; sw = screen_width v
      in if dv = 0 \<or> fw = 0 \<or> length (frame_buffers v) \<le> frame_buffer_index v then None
         else
           let fb = frame_buffers v ! frame_buffer_index v;
               p0 = pos_px div (dv * ppb);
               lines = (len_bytes div dv) div fw;
               st0 = \<lparr>pptr = p0, bbptr = 0, bounce = bb\<rparr>
           in if scale = 1 \<and> color_bits v = 8 then
                Option.bind (read_bytes fb p0 len_bytes) (write_bytes bb 0)
              else if scale = 1 \<and> color_bits v = 3 then
                map_option bounce (for_loop 1 lines 0 (row_1x3 fw fb) st0)
              else if scale = 2 \<and> color_bits v = 8 then
                map_option bounce (for_loop 1 lines 0 (row_2x8 fw sw fb) st0)
              else if scale = 2 \<and> color_bits v = 3 then
                map_option bounce (for_loop 1 lines 0 (row_2x3 fw sw fb) st0)
              else Some bb)"

subsection \<open>Reference semantics\<close>

text \<open>The logical sample with flat index \<open>i = y * fw + x\<close>: the byte itself, or the low
  (even \<open>i\<close>) or high (odd \<open>i\<close>) 3-bit field of byte \<open>i div 2\<close>. For an even \<open>fw\<close>,
  the parity of \<open>i\<close> is the parity of the logical column.\<close>

definition sample :: "nat \<Rightarrow> buffer \<Rightarrow> nat \<Rightarrow> byte" where
  "sample bits fb i =
     (if bits = 3 then
        (if even i then fb ! (i div 2) AND 0b111 else drop_bit 4 (fb ! (i div 2)) AND 0b111)
      else fb ! i)"

definition physical_pixel :: "vga \<Rightarrow> buffer \<Rightarrow> nat \<Rightarrow> nat \<Rightarrow> byte" where
  "physical_pixel v fb r c =
     sample (color_bits v) fb ((r div frame_scale v) * frame_width v + c div frame_scale v)"

definition physical_line :: "vga \<Rightarrow> buffer \<Rightarrow> nat \<Rightarrow> byte list" where
  "physical_line v fb r = map (physical_pixel v fb r) [0..<screen_width v]"

definition physical_stream :: "vga \<Rightarrow> buffer \<Rightarrow> nat \<Rightarrow> nat \<Rightarrow> byte list" where
  "physical_stream v fb pos len =
     map (\<lambda>q. physical_pixel v fb (q div screen_width v) (q mod screen_width v)) [pos..<pos + len]"

subsection \<open>Supported geometries and requests\<close>

text \<open>The four implemented modes, the screen an exact multiple of the frame, and a
  logical width that the unrolled loops divide (10 source pixels per round in 3-bit
  mode, 40 in the 8-bit scale-2 mode).\<close>

definition geometry_ok :: "vga \<Rightarrow> bool" where
  "geometry_ok v \<longleftrightarrow>
     (frame_scale v = 1 \<or> frame_scale v = 2) \<and> (color_bits v = 3 \<or> color_bits v = 8) \<and>
     0 < frame_width v \<and> screen_width v = frame_scale v * frame_width v \<and>
     (color_bits v = 3 \<longrightarrow> 10 dvd frame_width v) \<and>
     (frame_scale v = 2 \<and> color_bits v = 8 \<longrightarrow> 40 dvd frame_width v)"

text \<open>A request of \<open>n\<close> whole physical lines from line \<open>L\<close>, aligned to the scale and
  inside the frame.\<close>

definition request_ok :: "vga \<Rightarrow> nat \<Rightarrow> nat \<Rightarrow> bool" where
  "request_ok v L n \<longleftrightarrow>
     frame_scale v dvd L \<and> frame_scale v dvd n \<and> L + n \<le> frame_scale v * frame_height v"

subsection \<open>The producer's packing\<close>

text \<open>The spec's \<open>Packed3x2\<close> encoding (section 3), which the drawing task uses to write a
  3-bit frame: the even pixel in bits 0--2, the odd one in bits 4--6, bits 3 and 7 zero.\<close>

definition pack_pair :: "byte \<Rightarrow> byte \<Rightarrow> byte" where
  "pack_pair lo hi = (lo AND 0b111) OR push_bit 4 (hi AND 0b111)"

definition pack_frame :: "byte list \<Rightarrow> buffer" where
  "pack_frame px = map (\<lambda>k. pack_pair (px ! (2 * k)) (px ! (2 * k + 1))) [0..<length px div 2]"

subsection \<open>Lemmas: the unrolled loops\<close>

lemma expand_block_Some:
  assumes w: "\<And>b. length (g b) = m"
    and "pptr st + k \<le> length fb" and "bbptr st + k * m \<le> length (bounce st)"
  shows "expand_block fb k g st =
     Some \<lparr>pptr = pptr st + k, bbptr = bbptr st + k * m,
           bounce = splice_at (bounce st) (bbptr st) (concat (map g (take k (drop (pptr st) fb))))\<rparr>"
proof -
  have len: "length (concat (map g (take k (drop (pptr st) fb)))) = k * m"
    using assms(2) by (simp add: length_concat_map_width [OF w])
  show ?thesis
    using assms(2,3) by (simp add: expand_block_def read_bytes_Some write_bytes_Some len)
qed

lemma repeat_expand_block:
  assumes w: "\<And>b. length (g b) = m"
    and "pptr st + c * k \<le> length fb" and "bbptr st + c * k * m \<le> length (bounce st)"
  shows "repeat_opt c (expand_block fb k g) st =
     Some \<lparr>pptr = pptr st + c * k, bbptr = bbptr st + c * k * m,
           bounce = splice_at (bounce st) (bbptr st) (concat (map g (take (c * k) (drop (pptr st) fb))))\<rparr>"
  using assms(2,3)
proof (induction c arbitrary: st)
  case 0
  then show ?case by (simp add: splice_at_def)
next
  case (Suc c)
  let ?A = "concat (map g (take k (drop (pptr st) fb)))"
  let ?st1 = "\<lparr>pptr = pptr st + k, bbptr = bbptr st + k * m,
               bounce = splice_at (bounce st) (bbptr st) ?A\<rparr>"
  have lenA: "length ?A = k * m"
    using Suc.prems(1) by (simp add: length_concat_map_width [OF w])
  have step: "expand_block fb k g st = Some ?st1"
    using Suc.prems by (intro expand_block_Some [OF w]) (simp_all add: algebra_simps)
  have lenb: "length (bounce ?st1) = length (bounce st)"
    using Suc.prems(2) lenA by (simp, intro length_splice) (simp add: algebra_simps)
  have IH: "repeat_opt c (expand_block fb k g) ?st1 =
     Some \<lparr>pptr = pptr st + k + c * k, bbptr = bbptr st + k * m + c * k * m,
           bounce = splice_at (bounce ?st1) (bbptr st + k * m)
             (concat (map g (take (c * k) (drop (pptr st + k) fb))))\<rparr>"
    using Suc.IH [of ?st1] Suc.prems lenb by (simp add: algebra_simps)
  let ?B = "concat (map g (take (c * k) (drop (pptr st + k) fb)))"
  have lenB: "length ?B = c * k * m"
    using Suc.prems(1) by (simp add: length_concat_map_width [OF w])
  have cat: "?A @ ?B = concat (map g (take (Suc c * k) (drop (pptr st) fb)))"
    by (simp add: take_add drop_drop add.commute)
  have spl: "splice_at (bounce ?st1) (bbptr st + k * m) ?B = splice_at (bounce st) (bbptr st) (?A @ ?B)"
    using splice_append [of "bbptr st" ?A ?B "bounce st"] Suc.prems(2) lenA lenB
    by (simp add: algebra_simps)
  show ?case
    using step IH spl cat by (simp add: algebra_simps)
qed
lemma physical_stream_scale1:
  assumes "frame_scale v = 1" and "screen_width v = frame_width v"
  shows "physical_stream v fb pos len = map (sample (color_bits v) fb) [pos..<pos + len]"
  using assms by (simp add: physical_stream_def physical_pixel_def)

lemma unpack_pair_stream:
  assumes "off + h \<le> length fb"
  shows "concat (map unpack_pair (take h (drop off fb))) = map (sample 3 fb) [2 * off..<2 * off + 2 * h]"
proof -
  let ?xs = "take h (drop off fb)"
  have "concat (map unpack_pair ?xs) = map (\<lambda>i. unpack_pair (?xs ! (i div 2)) ! (i mod 2)) [0..<h * 2]"
    using assms by (simp add: concat_map_width [of unpack_pair 2] unpack_pair_def)
  also have "\<dots> = map (\<lambda>i. sample 3 fb (2 * off + i)) [0..<2 * h]"
  proof (rule map_cong)
    fix i assume "i \<in> set [0..<2 * h]"
    then have i: "i < 2 * h" by simp
    show "unpack_pair (?xs ! (i div 2)) ! (i mod 2) = sample 3 fb (2 * off + i)"
    proof (cases "even i")
      case True
      then show ?thesis using i assms by (simp add: unpack_pair_def sample_def add.commute)
    next
      case False
      then have "i mod 2 = 1" by presburger
      then show ?thesis using False i assms by (simp add: unpack_pair_def sample_def add.commute)
    qed
  qed (simp add: mult.commute)
  also have "\<dots> = map (sample 3 fb) [2 * off..<2 * off + 2 * h]"
    by (simp add: map_upt_shift)
  finally show ?thesis .
qed

lemma row_1x3_repeat:
  "10 dvd fw \<Longrightarrow> row_1x3 fw fb = repeat_opt (fw div 10) (block_1x3 fb)"
  by (rule ext) (simp add: row_1x3_def for_loop_repeat rounds_dvd)

lemma bounce_fill_1x3:
  assumes wf: "vga_wf v" and m: "frame_scale v = 1" "color_bits v = 3"
    and sw: "screen_width v = frame_width v" and a: "frame_width v = 10 * a" and "0 < a"
    and req: "L + n \<le> frame_height v" and bb: "length bb = n * frame_width v"
  shows "bounce_fill v (L * frame_width v) (n * frame_width v) bb =
           Some (physical_stream v (front_buffer v) (L * frame_width v) (n * frame_width v))"
proof -
  let ?fb = "front_buffer v"
  let ?st0 = "\<lparr>pptr = 5 * L * a, bbptr = 0, bounce = bb\<rparr>"
  have lenfb: "length ?fb = 5 * a * frame_height v"
    using vga_wf_front(2) [OF wf] m a by (simp add: fb_size_def)
  have bound: "5 * L * a + 5 * n * a \<le> 5 * a * frame_height v"
  proof -
    have "5 * a * (L + n) \<le> 5 * a * frame_height v" using req by (rule mult_le_mono2)
    then show ?thesis by (simp add: algebra_simps)
  qed
  have rows: "repeat_opt n (row_1x3 (frame_width v) ?fb) ?st0
      = repeat_opt (n * a) (expand_block ?fb 5 unpack_pair) ?st0"
    using a by (simp add: row_1x3_repeat repeat_opt_mult block_1x3_def)
  have run: "repeat_opt (n * a) (expand_block ?fb 5 unpack_pair) ?st0 =
     Some \<lparr>pptr = 5 * L * a + n * a * 5, bbptr = n * a * 5 * 2,
           bounce = splice_at bb 0 (concat (map unpack_pair (take (n * a * 5) (drop (5 * L * a) ?fb))))\<rparr>"
    using repeat_expand_block [of unpack_pair 2 ?st0 "n * a" 5 ?fb] bound lenfb bb a
    by (simp add: unpack_pair_def algebra_simps)
  have out: "concat (map unpack_pair (take (n * a * 5) (drop (5 * L * a) ?fb)))
      = map (sample 3 ?fb) [L * frame_width v..<L * frame_width v + n * frame_width v]"
  proof -
    have "concat (map unpack_pair (take (n * a * 5) (drop (5 * L * a) ?fb)))
        = map (sample 3 ?fb) [2 * (5 * L * a)..<2 * (5 * L * a) + 2 * (n * a * 5)]"
      using bound lenfb by (intro unpack_pair_stream) (simp add: algebra_simps)
    then show ?thesis using a by (simp add: algebra_simps)
  qed
  have lenout: "length (concat (map unpack_pair (take (n * a * 5) (drop (5 * L * a) ?fb)))) = length bb"
    using out bb by simp
  have p0: "L * frame_width v div 2 = 5 * L * a" using a by simp
  have ln: "n * frame_width v div frame_width v = n" using a \<open>0 < a\<close> by simp
  have unf: "bounce_fill v (L * frame_width v) (n * frame_width v) bb
      = map_option bounce (for_loop 1 n 0 (row_1x3 (frame_width v) ?fb) ?st0)"
    using m a \<open>0 < a\<close> vga_wf_front(1) [OF wf]
    by (simp add: bounce_fill_def Let_def front_buffer_def p0 ln mult.assoc)
  show ?thesis
    using sw m unfolding unf for_rows rows run option.map splice_full [OF lenout] unfolding out
    by (simp add: physical_stream_scale1)
qed

subsection \<open>Lemmas: scale-2 rows and the reference stream\<close>

lemma row_double:
  assumes w: "\<And>b. length (g b) = m" and sw: "r * k * m = sw"
    and row: "\<And>st. row st = Option.bind (repeat_opt r (expand_block fb k g) st) (replicate_line sw (bbptr st))"
    and "pptr st + r * k \<le> length fb" and "bbptr st + 2 * sw \<le> length (bounce st)"
  shows "row st = Some \<lparr>pptr = pptr st + r * k, bbptr = bbptr st + 2 * sw,
     bounce = splice_at (bounce st) (bbptr st)
       (concat (map g (take (r * k) (drop (pptr st) fb))) @ concat (map g (take (r * k) (drop (pptr st) fb))))\<rparr>"
proof -
  let ?R = "concat (map g (take (r * k) (drop (pptr st) fb)))"
  have lenR: "length ?R = sw"
    using assms(4) sw by (simp add: length_concat_map_width [OF w])
  have run: "repeat_opt r (expand_block fb k g) st =
     Some \<lparr>pptr = pptr st + r * k, bbptr = bbptr st + sw, bounce = splice_at (bounce st) (bbptr st) ?R\<rparr>"
    using repeat_expand_block [OF w, of st r k fb] assms(4,5) sw by simp
  have cp: "copy_within (splice_at (bounce st) (bbptr st) ?R) (bbptr st + sw) (bbptr st) sw
      = Some (splice_at (bounce st) (bbptr st) (?R @ ?R))"
    using copy_within_after [of "bbptr st" ?R "bounce st"] assms(5) lenR by simp
  show ?thesis
    by (simp add: row run replicate_line_def cp)
qed

lemma rows_double:
  assumes w: "\<And>b. length (g b) = m" and sw: "r * k * m = sw"
    and row: "\<And>st. row st = Option.bind (repeat_opt r (expand_block fb k g) st) (replicate_line sw (bbptr st))"
    and "pptr st + c * (r * k) \<le> length fb" and "bbptr st + c * (2 * sw) \<le> length (bounce st)"
  shows "repeat_opt c row st = Some \<lparr>pptr = pptr st + c * (r * k), bbptr = bbptr st + c * (2 * sw),
     bounce = splice_at (bounce st) (bbptr st)
       (concat (map (\<lambda>y. concat (map g (take (r * k) (drop (pptr st + y * (r * k)) fb)))
                       @ concat (map g (take (r * k) (drop (pptr st + y * (r * k)) fb)))) [0..<c]))\<rparr>"
  using assms(4,5)
proof (induction c arbitrary: st)
  case 0
  then show ?case by (simp add: splice_at_def)
next
  case (Suc c)
  let ?q = "r * k"
  let ?R = "\<lambda>p. concat (map g (take ?q (drop p fb)))"
  let ?st1 = "\<lparr>pptr = pptr st + ?q, bbptr = bbptr st + 2 * sw,
     bounce = splice_at (bounce st) (bbptr st) (?R (pptr st) @ ?R (pptr st))\<rparr>"
  have lenR: "\<And>p. p + ?q \<le> length fb \<Longrightarrow> length (?R p) = sw"
    using sw by (simp add: length_concat_map_width [OF w])
  have step: "row st = Some ?st1"
    using row_double [OF w sw row, of st] Suc.prems by simp
  have len1: "length (bounce ?st1) = length (bounce st)"
    using Suc.prems lenR [of "pptr st"] by (simp, intro length_splice) simp
  let ?Rest = "concat (map (\<lambda>y. ?R (pptr st + ?q + y * ?q) @ ?R (pptr st + ?q + y * ?q)) [0..<c])"
  have IH: "repeat_opt c row ?st1 = Some \<lparr>pptr = pptr st + ?q + c * ?q,
      bbptr = bbptr st + 2 * sw + c * (2 * sw),
      bounce = splice_at (bounce ?st1) (bbptr st + 2 * sw) ?Rest\<rparr>"
    using Suc.IH [of ?st1] Suc.prems len1 by (simp add: algebra_simps)
  have lenRest: "length ?Rest = c * (2 * sw)"
  proof -
    have "\<And>y. y < c \<Longrightarrow> length (?R (pptr st + ?q + y * ?q)) = sw"
    proof -
      fix y assume "y < c"
      then have "Suc y * ?q \<le> c * ?q" by (intro mult_le_mono1) simp
      then have "pptr st + ?q + y * ?q + ?q \<le> pptr st + Suc c * ?q"
        by (simp add: algebra_simps)
      with Suc.prems(1) show "length (?R (pptr st + ?q + y * ?q)) = sw"
        by (intro lenR) simp
    qed
    then have "\<And>y. y \<in> set [0..<c] \<Longrightarrow> length (?R (pptr st + ?q + y * ?q) @ ?R (pptr st + ?q + y * ?q)) = 2 * sw"
      by simp
    then show ?thesis
      by (subst length_concat_map_const [where w = "2 * sw"]) simp_all
  qed
  have e: "bbptr st + length (?R (pptr st) @ ?R (pptr st)) = bbptr st + 2 * sw"
    using lenR [of "pptr st"] Suc.prems by simp
  have bnd: "bbptr st + length (?R (pptr st) @ ?R (pptr st)) + length ?Rest \<le> length (bounce st)"
    using e lenRest Suc.prems by (simp add: algebra_simps)
  have spl: "splice_at (splice_at (bounce st) (bbptr st) (?R (pptr st) @ ?R (pptr st))) (bbptr st + 2 * sw) ?Rest
      = splice_at (bounce st) (bbptr st) ((?R (pptr st) @ ?R (pptr st)) @ ?Rest)"
    using splice_append [OF bnd] unfolding e .
  show ?case
    using step IH spl by (simp del: upt_Suc add: concat_map_upt_Suc algebra_simps)
qed
lemma stream_lines:
  assumes "0 < screen_width v"
  shows "physical_stream v fb (L * screen_width v) (n * screen_width v)
       = concat (map (physical_line v fb) [L..<L + n])"
proof (induction n)
  case 0
  then show ?case by (simp add: physical_stream_def)
next
  case (Suc n)
  let ?w = "screen_width v"
  let ?P = "\<lambda>q. physical_pixel v fb (q div ?w) (q mod ?w)"
  have split: "[L * ?w..<L * ?w + Suc n * ?w] = [L * ?w..<L * ?w + n * ?w] @ [(L + n) * ?w..<(L + n) * ?w + ?w]"
    using upt_add_eq_append [of "L * ?w" "L * ?w + n * ?w" ?w] by (simp add: algebra_simps)
  have last: "map ?P [(L + n) * ?w..<(L + n) * ?w + ?w] = physical_line v fb (L + n)"
  proof -
    have "map ?P [(L + n) * ?w..<(L + n) * ?w + ?w] = map (\<lambda>i. ?P ((L + n) * ?w + i)) [0..<?w]"
      by (rule map_upt_shift)
    also have "\<dots> = physical_line v fb (L + n)"
      using assms by (simp add: physical_line_def)
    finally show ?thesis .
  qed
  have "physical_stream v fb (L * ?w) (Suc n * ?w)
      = map ?P [L * ?w..<L * ?w + n * ?w] @ map ?P [(L + n) * ?w..<(L + n) * ?w + ?w]"
    by (simp only: physical_stream_def split map_append)
  then show ?case
    using Suc.IH by (simp add: physical_stream_def last)
qed

lemma lines_pairs:
  "concat (map f [2 * j..<2 * j + 2 * c]) = concat (map (\<lambda>y. f (2 * (j + y)) @ f (2 * (j + y) + 1)) [0..<c])"
proof (induction c)
  case 0
  then show ?case by simp
next
  case (Suc c)
  have "[2 * j..<2 * j + 2 * Suc c] = [2 * j..<2 * j + 2 * c] @ [2 * (j + c), 2 * (j + c) + 1]"
    by (simp add: upt_add_eq_append [symmetric] algebra_simps numeral_2_eq_2)
  with Suc.IH show ?case by simp
qed

lemma physical_line_scale2:
  assumes "frame_scale v = 2" and "screen_width v = 2 * frame_width v"
  shows "physical_line v fb r
       = map (\<lambda>c. sample (color_bits v) fb ((r div 2) * frame_width v + c div 2)) [0..<2 * frame_width v]"
  using assms by (simp add: physical_line_def physical_pixel_def)

lemma dup_row:
  assumes "off + h \<le> length fb"
  shows "concat (map dup_pixel (take h (drop off fb))) = map (\<lambda>c. sample 8 fb (off + c div 2)) [0..<2 * h]"
proof -
  have "concat (map dup_pixel (take h (drop off fb)))
      = map (\<lambda>c. dup_pixel (take h (drop off fb) ! (c div 2)) ! (c mod 2)) [0..<h * 2]"
    using assms by (simp add: concat_map_width [of dup_pixel 2] dup_pixel_def)
  also have "\<dots> = map (\<lambda>c. sample 8 fb (off + c div 2)) [0..<2 * h]"
  proof (rule map_cong)
    fix c assume "c \<in> set [0..<2 * h]"
    then have "c < 2 * h" by simp
    moreover have "c mod 2 = 0 \<or> c mod 2 = 1" by arith
    ultimately show "dup_pixel (take h (drop off fb) ! (c div 2)) ! (c mod 2) = sample 8 fb (off + c div 2)"
      using assms by (auto simp: dup_pixel_def sample_def)
  qed (simp add: mult.commute)
  finally show ?thesis .
qed

lemma unpack_dup_row:
  assumes "off + h \<le> length fb"
  shows "concat (map unpack_pair_dup (take h (drop off fb)))
       = map (\<lambda>c. sample 3 fb (2 * off + c div 2)) [0..<4 * h]"
proof -
  have "concat (map unpack_pair_dup (take h (drop off fb)))
      = map (\<lambda>c. unpack_pair_dup (take h (drop off fb) ! (c div 4)) ! (c mod 4)) [0..<h * 4]"
    using assms by (simp add: concat_map_width [of unpack_pair_dup 4] unpack_pair_dup_def)
  also have "\<dots> = map (\<lambda>c. sample 3 fb (2 * off + c div 2)) [0..<4 * h]"
  proof (rule map_cong)
    fix c assume "c \<in> set [0..<4 * h]"
    then have c: "c div 4 < h" by simp
    have q: "(2 * off + c div 2) div 2 = off + c div 4" by (simp add: div_mult2_eq [symmetric])
    have "c mod 4 = 0 \<or> c mod 4 = 1 \<or> c mod 4 = 2 \<or> c mod 4 = 3" by arith
    moreover have "c mod 4 < 2 \<longleftrightarrow> even (c div 2)" by presburger
    ultimately show "unpack_pair_dup (take h (drop off fb) ! (c div 4)) ! (c mod 4) = sample 3 fb (2 * off + c div 2)"
      using assms c q by (auto simp: unpack_pair_dup_def sample_def)
  qed (simp add: mult.commute)
  finally show ?thesis .
qed

lemma scale2_assembly:
  assumes s: "frame_scale v = 2" and sw: "screen_width v = 2 * frame_width v" and "0 < frame_width v"
    and R: "\<And>y. y < c \<Longrightarrow> R y = map (\<lambda>col. sample (color_bits v) fb ((j + y) * frame_width v + col div 2))
                                   [0..<2 * frame_width v]"
  shows "concat (map (\<lambda>y. R y @ R y) [0..<c])
       = physical_stream v fb (2 * j * screen_width v) (2 * c * screen_width v)"
proof -
  have "physical_stream v fb (2 * j * screen_width v) (2 * c * screen_width v)
      = concat (map (physical_line v fb) [2 * j..<2 * j + 2 * c])"
    using stream_lines [of v fb "2 * j" "2 * c"] sw \<open>0 < frame_width v\<close> by simp
  also have "\<dots> = concat (map (\<lambda>y. physical_line v fb (2 * (j + y)) @ physical_line v fb (2 * (j + y) + 1)) [0..<c])"
    by (rule lines_pairs)
  also have "\<dots> = concat (map (\<lambda>y. R y @ R y) [0..<c])"
  proof (rule arg_cong [where f = concat], rule map_cong)
    fix y assume "y \<in> set [0..<c]"
    then have "y < c" by simp
    then show "physical_line v fb (2 * (j + y)) @ physical_line v fb (2 * (j + y) + 1) = R y @ R y"
      using R [of y] physical_line_scale2 [OF s sw] by simp
  qed simp
  finally show ?thesis by simp
qed

lemma row_2x8_repeat:
  "fw = 40 * a \<Longrightarrow>
   row_2x8 fw sw fb st
     = Option.bind (repeat_opt a (expand_block fb 40 dup_pixel) st) (replicate_line sw (bbptr st))"
  by (simp add: row_2x8_def for_loop_repeat rounds_dvd block_2x8_def)

lemma bounce_fill_2x8:
  assumes wf: "vga_wf v" and m: "frame_scale v = 2" "color_bits v = 8"
    and sw: "screen_width v = 2 * frame_width v" and a: "frame_width v = 40 * a" and "0 < a"
    and req: "j + c \<le> frame_height v" and bb: "length bb = 2 * c * screen_width v"
  shows "bounce_fill v (2 * j * screen_width v) (2 * c * screen_width v) bb =
           Some (physical_stream v (front_buffer v) (2 * j * screen_width v) (2 * c * screen_width v))"
proof -
  let ?fw = "frame_width v" and ?sw = "screen_width v" and ?fb = "front_buffer v"
  let ?st0 = "\<lparr>pptr = j * ?fw, bbptr = 0, bounce = bb\<rparr>"
  let ?R = "\<lambda>y. concat (map dup_pixel (take (a * 40) (drop (j * ?fw + y * (a * 40)) ?fb)))"
  have lenfb: "length ?fb = ?fw * frame_height v"
    using vga_wf_front(2) [OF wf] m by (simp add: fb_size_def)
  have bound: "j * ?fw + c * (a * 40) \<le> length ?fb"
  proof -
    have "?fw * (j + c) \<le> ?fw * frame_height v" using req by (rule mult_le_mono2)
    then show ?thesis using lenfb a by (simp add: algebra_simps)
  qed
  have run: "repeat_opt c (row_2x8 ?fw ?sw ?fb) ?st0 = Some \<lparr>pptr = j * ?fw + c * (a * 40),
      bbptr = c * (2 * ?sw), bounce = splice_at bb 0 (concat (map (\<lambda>y. ?R y @ ?R y) [0..<c]))\<rparr>"
    using rows_double [where g = dup_pixel and m = 2 and r = a and k = 40 and sw = ?sw
        and row = "row_2x8 ?fw ?sw ?fb" and fb = ?fb and st = ?st0 and c = c]
      row_2x8_repeat [OF a] bound bb sw a by (simp add: dup_pixel_def algebra_simps)
  have out: "concat (map (\<lambda>y. ?R y @ ?R y) [0..<c]) = physical_stream v ?fb (2 * j * ?sw) (2 * c * ?sw)"
  proof (rule scale2_assembly [OF m(1) sw])
    show "0 < ?fw" using a \<open>0 < a\<close> by simp
  next
    fix y assume "y < c"
    then have "Suc y * ?fw \<le> c * ?fw" by (intro mult_le_mono1) simp
    then have "j * ?fw + y * (a * 40) + a * 40 \<le> length ?fb" using bound a by (simp add: algebra_simps)
    then have "?R y = map (\<lambda>col. sample 8 ?fb (j * ?fw + y * (a * 40) + col div 2)) [0..<2 * (a * 40)]"
      by (intro dup_row)
    then show "?R y = map (\<lambda>col. sample (color_bits v) ?fb ((j + y) * ?fw + col div 2)) [0..<2 * ?fw]"
      using m a by (simp add: algebra_simps)
  qed
  have lenout: "length (concat (map (\<lambda>y. ?R y @ ?R y) [0..<c])) = length bb"
    using out bb by (simp add: physical_stream_def)
  have p0: "2 * j * ?sw div (2 * 2 * 1) = j * ?fw" using sw by simp
  have ln: "2 * c * ?sw div (2 * 2) div ?fw = c" using sw a \<open>0 < a\<close> by simp
  have unf: "bounce_fill v (2 * j * ?sw) (2 * c * ?sw) bb
      = map_option bounce (for_loop 1 c 0 (row_2x8 ?fw ?sw ?fb) ?st0)"
    using m a \<open>0 < a\<close> vga_wf_front(1) [OF wf] p0 ln
    by (simp add: bounce_fill_def Let_def front_buffer_def)
  show ?thesis
    unfolding unf for_rows run option.map fill_state.select_convs splice_full [OF lenout]
    unfolding out ..
qed

lemma row_2x3_repeat:
  "fw = 10 * a \<Longrightarrow>
   row_2x3 fw sw fb st
     = Option.bind (repeat_opt a (expand_block fb 5 unpack_pair_dup) st) (replicate_line sw (bbptr st))"
  by (simp add: row_2x3_def for_loop_repeat rounds_dvd block_2x3_def)

lemma bounce_fill_2x3:
  assumes wf: "vga_wf v" and m: "frame_scale v = 2" "color_bits v = 3"
    and sw: "screen_width v = 2 * frame_width v" and a: "frame_width v = 10 * a" and "0 < a"
    and req: "j + c \<le> frame_height v" and bb: "length bb = 2 * c * screen_width v"
  shows "bounce_fill v (2 * j * screen_width v) (2 * c * screen_width v) bb =
           Some (physical_stream v (front_buffer v) (2 * j * screen_width v) (2 * c * screen_width v))"
proof -
  let ?fw = "frame_width v" and ?sw = "screen_width v" and ?fb = "front_buffer v"
  let ?st0 = "\<lparr>pptr = j * (5 * a), bbptr = 0, bounce = bb\<rparr>"
  let ?R = "\<lambda>y. concat (map unpack_pair_dup (take (a * 5) (drop (j * (5 * a) + y * (a * 5)) ?fb)))"
  have lenfb: "length ?fb = 5 * a * frame_height v"
    using vga_wf_front(2) [OF wf] m a by (simp add: fb_size_def)
  have bound: "j * (5 * a) + c * (a * 5) \<le> length ?fb"
  proof -
    have "5 * a * (j + c) \<le> 5 * a * frame_height v" using req by (rule mult_le_mono2)
    then show ?thesis using lenfb by (simp add: algebra_simps)
  qed
  have run: "repeat_opt c (row_2x3 ?fw ?sw ?fb) ?st0 = Some \<lparr>pptr = j * (5 * a) + c * (a * 5),
      bbptr = c * (2 * ?sw), bounce = splice_at bb 0 (concat (map (\<lambda>y. ?R y @ ?R y) [0..<c]))\<rparr>"
    using rows_double [where g = unpack_pair_dup and m = 4 and r = a and k = 5 and sw = ?sw
        and row = "row_2x3 ?fw ?sw ?fb" and fb = ?fb and st = ?st0 and c = c]
      row_2x3_repeat [OF a] bound bb sw a by (simp add: unpack_pair_dup_def algebra_simps)
  have out: "concat (map (\<lambda>y. ?R y @ ?R y) [0..<c]) = physical_stream v ?fb (2 * j * ?sw) (2 * c * ?sw)"
  proof (rule scale2_assembly [OF m(1) sw])
    show "0 < ?fw" using a \<open>0 < a\<close> by simp
  next
    fix y assume "y < c"
    then have "Suc y * (5 * a) \<le> c * (5 * a)" by (intro mult_le_mono1) simp
    then have "j * (5 * a) + y * (a * 5) + a * 5 \<le> length ?fb" using bound by (simp add: algebra_simps)
    then have "?R y = map (\<lambda>col. sample 3 ?fb (2 * (j * (5 * a) + y * (a * 5)) + col div 2)) [0..<4 * (a * 5)]"
      by (intro unpack_dup_row)
    then show "?R y = map (\<lambda>col. sample (color_bits v) ?fb ((j + y) * ?fw + col div 2)) [0..<2 * ?fw]"
      using m a by (simp add: algebra_simps)
  qed
  have lenout: "length (concat (map (\<lambda>y. ?R y @ ?R y) [0..<c])) = length bb"
    using out bb by (simp add: physical_stream_def)
  have p0: "2 * j * ?sw div (2 * 2 * 2) = j * (5 * a)" using sw a by simp
  have ln: "2 * c * ?sw div (2 * 2) div ?fw = c" using sw a \<open>0 < a\<close> by simp
  have unf: "bounce_fill v (2 * j * ?sw) (2 * c * ?sw) bb
      = map_option bounce (for_loop 1 c 0 (row_2x3 ?fw ?sw ?fb) ?st0)"
    using m a \<open>0 < a\<close> vga_wf_front(1) [OF wf] p0 ln
    by (simp add: bounce_fill_def Let_def front_buffer_def)
  show ?thesis
    unfolding unf for_rows run option.map fill_state.select_convs splice_full [OF lenout]
    unfolding out ..
qed

lemma bounce_fill_1x8:
  assumes wf: "vga_wf v" and m: "frame_scale v = 1" "color_bits v = 8"
    and sw: "screen_width v = frame_width v" and "0 < frame_width v"
    and req: "L + n \<le> frame_height v" and bb: "length bb = n * frame_width v"
  shows "bounce_fill v (L * frame_width v) (n * frame_width v) bb =
           Some (physical_stream v (front_buffer v) (L * frame_width v) (n * frame_width v))"
proof -
  let ?fw = "frame_width v" and ?fb = "front_buffer v"
  have lenfb: "length ?fb = ?fw * frame_height v"
    using vga_wf_front(2) [OF wf] m by (simp add: fb_size_def)
  have bound: "L * ?fw + n * ?fw \<le> length ?fb"
  proof -
    have "?fw * (L + n) \<le> ?fw * frame_height v" using req by (rule mult_le_mono2)
    then show ?thesis using lenfb by (simp add: algebra_simps)
  qed
  have unf: "bounce_fill v (L * ?fw) (n * ?fw) bb
      = Option.bind (read_bytes ?fb (L * ?fw) (n * ?fw)) (write_bytes bb 0)"
    using m \<open>0 < ?fw\<close> vga_wf_front(1) [OF wf] by (simp add: bounce_fill_def Let_def front_buffer_def)
  show ?thesis
    using bound bb m sw
    by (simp add: unf read_bytes_Some write_bytes_Some splice_full take_drop_nth
                  physical_stream_scale1 sample_def)
qed

subsection \<open>The conversion meets its contract\<close>

lemma bounce_fill_reference:
  assumes wf: "vga_wf v" and g: "geometry_ok v" and r: "request_ok v L n"
    and bb: "length bb = n * screen_width v"
  shows "bounce_fill v (L * screen_width v) (n * screen_width v) bb
       = Some (physical_stream v (front_buffer v) (L * screen_width v) (n * screen_width v))"
proof -
  have fw: "0 < frame_width v" using g by (simp add: geometry_ok_def)
  consider "frame_scale v = 1" | "frame_scale v = 2" using g by (auto simp: geometry_ok_def)
  then show ?thesis
  proof cases
    case 1
    then have sw: "screen_width v = frame_width v" and req: "L + n \<le> frame_height v"
      using g r by (simp_all add: geometry_ok_def request_ok_def)
    consider "color_bits v = 3" | "color_bits v = 8" using g by (auto simp: geometry_ok_def)
    then show ?thesis
    proof cases
      case 3: 1
      then obtain a where a: "frame_width v = 10 * a" using g by (auto simp: geometry_ok_def)
      with fw have "0 < a" by simp
      show ?thesis using bounce_fill_1x3 [OF wf 1 3 sw a \<open>0 < a\<close> req] bb sw by simp
    next
      case 8: 2
      show ?thesis using bounce_fill_1x8 [OF wf 1 8 sw fw req] bb sw by simp
    qed
  next
    case 2
    then have sw: "screen_width v = 2 * frame_width v" using g by (simp add: geometry_ok_def)
    from r 2 have eL: "even L" and en: "even n" and le: "L + n \<le> 2 * frame_height v"
      by (simp_all add: request_ok_def)
    from eL obtain j where L: "L = 2 * j" by (elim evenE)
    from en obtain c where n: "n = 2 * c" by (elim evenE)
    from le L n have req: "j + c \<le> frame_height v" by simp
    have bb': "length bb = 2 * c * screen_width v" using bb n by simp
    consider "color_bits v = 3" | "color_bits v = 8" using g by (auto simp: geometry_ok_def)
    then show ?thesis
    proof cases
      case 3: 1
      then obtain a where a: "frame_width v = 10 * a" using g by (auto simp: geometry_ok_def)
      with fw have "0 < a" by simp
      show ?thesis using bounce_fill_2x3 [OF wf 2 3 sw a \<open>0 < a\<close> req bb'] L n by simp
    next
      case 8: 2
      then obtain a where a: "frame_width v = 40 * a" using g 2 by (auto simp: geometry_ok_def)
      with fw have "0 < a" by simp
      show ?thesis using bounce_fill_2x8 [OF wf 2 8 sw a \<open>0 < a\<close> req bb'] L n by simp
    qed
  qed
qed


lemma physical_index_bound:
  assumes "geometry_ok v" and "q < screen_width v * (frame_scale v * frame_height v)"
  shows "(q div screen_width v div frame_scale v) * frame_width v
           + (q mod screen_width v) div frame_scale v < frame_width v * frame_height v"
proof -
  let ?s = "frame_scale v" and ?w = "screen_width v"
  have s: "0 < ?s" and w: "?w = ?s * frame_width v" and fw: "0 < frame_width v"
    using assms(1) by (auto simp: geometry_ok_def)
  then have "0 < ?w" by simp
  then have "q div ?w < ?s * frame_height v" using assms(2) by (simp add: div_less_iff_less_mult mult.commute)
  then have r: "q div ?w div ?s < frame_height v" using s by (simp add: div_less_iff_less_mult mult.commute)
  have "q mod ?w < ?s * frame_width v" using \<open>0 < ?w\<close> w by simp
  then have c: "q mod ?w div ?s < frame_width v" using s by (simp add: div_less_iff_less_mult mult.commute)
  show ?thesis using grid_index_bound [OF r c] .
qed

lemma physical_stream_uniform:
  assumes "geometry_ok v" and "color_bits v = 8"
    and "pos + len \<le> screen_width v * (frame_scale v * frame_height v)"
  shows "physical_stream v (replicate (frame_width v * frame_height v) x) pos len = replicate len x"
proof -
  have "physical_pixel v (replicate (frame_width v * frame_height v) x)
          (q div screen_width v) (q mod screen_width v) = x"
    if "q \<in> set [pos..<pos + len]" for q
    using that assms physical_index_bound [OF assms(1), of q]
    by (simp add: physical_pixel_def sample_def)
  then have "map (\<lambda>q. physical_pixel v (replicate (frame_width v * frame_height v) x)
          (q div screen_width v) (q mod screen_width v)) [pos..<pos + len]
        = map (\<lambda>_. x) [pos..<pos + len]"
    by (rule map_cong [OF refl])
  then show ?thesis by (simp add: physical_stream_def map_replicate_const)
qed

lemma stream_line:
  assumes "0 < screen_width v" and "j < n"
  shows "take (screen_width v) (drop (j * screen_width v)
           (physical_stream v fb (L * screen_width v) (n * screen_width v)))
       = physical_line v fb (L + j)"
  using assms by (simp add: stream_lines concat_line physical_line_def)

lemma bounce_fill_2x8_at:
  assumes wf: "vga_wf v" and m: "frame_scale v = 2" "color_bits v = 8"
    and sw: "screen_width v = 2 * frame_width v" and a: "frame_width v = 40 * a" and "0 < a"
    and p0: "pos div 4 = p" and ln: "len div 4 div frame_width v = c"
    and fits: "p + c * frame_width v \<le> length (front_buffer v)"
    and bb: "c * (2 * screen_width v) \<le> length bb"
  shows "bounce_fill v pos len bb = Some (splice_at bb 0
     (concat (map (\<lambda>y. concat (map dup_pixel (take (frame_width v) (drop (p + y * frame_width v) (front_buffer v))))
                     @ concat (map dup_pixel (take (frame_width v) (drop (p + y * frame_width v) (front_buffer v)))))
             [0..<c])))"
proof -
  let ?fw = "frame_width v" and ?sw = "screen_width v" and ?fb = "front_buffer v"
  let ?st0 = "\<lparr>pptr = p, bbptr = 0, bounce = bb\<rparr>"
  have run: "repeat_opt c (row_2x8 ?fw ?sw ?fb) ?st0 = Some \<lparr>pptr = p + c * (a * 40),
      bbptr = c * (2 * ?sw), bounce = splice_at bb 0
        (concat (map (\<lambda>y. concat (map dup_pixel (take (a * 40) (drop (p + y * (a * 40)) ?fb)))
                     @ concat (map dup_pixel (take (a * 40) (drop (p + y * (a * 40)) ?fb)))) [0..<c]))\<rparr>"
    using rows_double [where g = dup_pixel and m = 2 and r = a and k = 40 and sw = ?sw
        and row = "row_2x8 ?fw ?sw ?fb" and fb = ?fb and st = ?st0 and c = c]
      row_2x8_repeat [OF a] fits bb sw a by (simp add: dup_pixel_def algebra_simps)
  have unf: "bounce_fill v pos len bb = map_option bounce (for_loop 1 c 0 (row_2x8 ?fw ?sw ?fb) ?st0)"
    using m a \<open>0 < a\<close> vga_wf_front(1) [OF wf] p0 ln
    by (simp add: bounce_fill_def Let_def front_buffer_def)
  show ?thesis
    unfolding unf for_rows run using a by (simp add: mult.commute)
qed

lemma expand_block_advance:
  "expand_block fb k g st = Some st' \<Longrightarrow> pptr st' = pptr st + k \<and> pptr st + k \<le> length fb"
  by (auto simp: expand_block_def read_bytes_def Let_def split: Option.bind_splits if_splits)

lemma repeat_advance:
  fixes f :: "fill_state \<Rightarrow> fill_state option"
  assumes adv: "\<And>st st'. f st = Some st' \<Longrightarrow> pptr st' = pptr st + k \<and> pptr st + k \<le> len"
    and "repeat_opt c f st = Some st'"
  shows "pptr st' = pptr st + c * k \<and> (0 < c \<longrightarrow> pptr st + c * k \<le> len)"
  using assms(2)
proof (induction c arbitrary: st)
  case 0
  then show ?case by simp
next
  case (Suc c)
  then obtain st1 where s1: "f st = Some st1" and r: "repeat_opt c f st1 = Some st'"
    by (auto split: Option.bind_splits)
  have a: "pptr st1 = pptr st + k" "pptr st + k \<le> len" using adv [OF s1] by auto
  show ?case using Suc.IH [OF r] a by (cases c) (auto simp: algebra_simps)
qed

lemma repeat_advance_None:
  fixes f :: "fill_state \<Rightarrow> fill_state option"
  assumes "\<And>st st'. f st = Some st' \<Longrightarrow> pptr st' = pptr st + k \<and> pptr st + k \<le> len"
    and "0 < c" and "len < pptr st + c * k"
  shows "repeat_opt c f st = None"
  using repeat_advance [OF assms(1)] assms(2,3) by (cases "repeat_opt c f st") fastforce+

lemma replicate_line_pptr: "replicate_line sw p st = Some st' \<Longrightarrow> pptr st' = pptr st"
  by (auto simp: replicate_line_def split: Option.bind_splits)

lemma doubled_row_advance:
  assumes "0 < r"
    and row: "\<And>st. row st = Option.bind (repeat_opt r (expand_block fb k g) st) (replicate_line sw (bbptr st))"
    and "row st = Some st'"
  shows "pptr st' = pptr st + r * k \<and> pptr st + r * k \<le> length fb"
proof -
  from assms(3) obtain st1 where r1: "repeat_opt r (expand_block fb k g) st = Some st1"
    and rl: "replicate_line sw (bbptr st) st1 = Some st'"
    by (auto simp: row split: Option.bind_splits)
  show ?thesis
    using repeat_advance [where f = "expand_block fb k g", OF expand_block_advance r1]
      replicate_line_pptr [OF rl] assms(1) by (simp add: mult.commute)
qed


lemma unpack_pack: "unpack_pair (pack_pair lo hi) = [lo AND 0b111, hi AND 0b111]"
  unfolding unpack_pair_def pack_pair_def
  apply (simp, intro conjI; rule bit_word_eqI)
   apply (auto simp: bit_simps dest!: less8_cases)
  done

lemma sample3_lt8: "sample 3 fb i < 8"
proof -
  have "\<And>x :: byte. x AND 0b111 < 8"
  proof -
    fix x :: byte
    have "unat (x AND 0b111) \<le> unat (0b111 :: byte)"
      by (rule word_and_le1 [THEN word_le_nat_alt [THEN iffD1]])
    then show "x AND 0b111 < 8" by (simp add: word_less_nat_alt)
  qed
  then show ?thesis by (simp add: sample_def)
qed

lemma pack_frame_Cons2: "pack_frame (a # b # xs) = pack_pair a b # pack_frame xs"
  by (simp add: pack_frame_def map_upt_Suc del: upt_Suc)

lemma unpack_pack_frame:
  "even (length px) \<Longrightarrow> concat (map unpack_pair (pack_frame px)) = map (\<lambda>x. x AND 0b111) px"
proof (induction px rule: induct_list012)
  case 1
  then show ?case by (simp add: pack_frame_def)
next
  case (2 x)
  then show ?case by simp
next
  case (3 a b xs)
  then show ?case by (simp add: pack_frame_Cons2 unpack_pack)
qed

text \<open>C1. Correctness of \<open>bounceEvent\<close>'s conversion on the requests it supports. The
  conditions are these (\<open>geometry_ok\<close>, \<open>request_ok\<close>):
  \<^item> a scale of 1 or 2 and 8 or 3 colour bits;
  \<^item> a frame width that is a multiple of the unrolled block: 10 pixels in 3-bit mode and
    40 pixels at scale 2 in 8-bit mode;
  \<^item> a request of \<open>n\<close> whole physical lines from line \<open>L\<close> inside the frame, where \<open>L\<close> and
    \<open>n\<close> are multiples of the scale (so even at scale 2);
  \<^item> a bounce buffer of the request's size.
  Under these conditions the conversion returns, with no undefined behaviour, exactly the
  bytes of the reference stream: byte \<open>k\<close> is the upscaled, depth-expanded physical pixel
  at offset \<open>pos_px + k\<close>. Other line-aligned requests are not covered, because the code
  gets them wrong. At scale 2 a single line converts nothing (C10), and a chunk that starts
  at an odd line is converted from the wrong place (C16).\<close>

theorem bounce_fill_correct:
  assumes "vga_wf v" and "geometry_ok v" and "request_ok v L n"
    and "length bb = n * screen_width v"
  shows "bounce_fill v (L * screen_width v) (n * screen_width v) bb
       = Some (physical_stream v (front_buffer v) (L * screen_width v) (n * screen_width v))"
  using assms by (rule bounce_fill_reference)


text \<open>C10. At scale 2, a request of a single physical line (\<open>byteLength = screenWidth\<close>)
  converts nothing: the line count \<open>byteLength / (scale * scale) / frameWidth\<close> is 0, so the
  bounce buffer keeps its previous content, whatever the colour mode and the offset.\<close>

theorem scale2_single_line_noop:
  assumes "frame_scale v = 2" and "0 < frame_width v" and "screen_width v = 2 * frame_width v"
    and "frame_buffer_index v < length (frame_buffers v)"
  shows "bounce_fill v pos (screen_width v) bb = Some bb"
proof -
  have "2 * frame_width v div 4 < frame_width v" using assms(2) by (simp add: div_less_iff_less_mult)
  then have z: "screen_width v div 4 div frame_width v = 0"
    using assms(1,3) by simp
  have e: "for_loop (Suc 0) 0 0 body st = Some st" for body and st :: fill_state
    by (simp add: for_loop.simps)
  show ?thesis using assms(1,2,4) by (simp add: bounce_fill_def Let_def z e)
qed
text \<open>C11. Scale-2 vertical replication: in the output of a valid request, each odd
  physical line of a pair is byte-for-byte the even line before it.\<close>

theorem scale2_vertical_replication:
  assumes "vga_wf v" and "geometry_ok v" and "request_ok v L n"
    and "length bb = n * screen_width v" and "frame_scale v = 2"
    and "bounce_fill v (L * screen_width v) (n * screen_width v) bb = Some out"
    and "Suc (2 * i) < n"
  shows "take (screen_width v) (drop (Suc (2 * i) * screen_width v) out)
       = take (screen_width v) (drop (2 * i * screen_width v) out)"
proof -
  have out: "out = physical_stream v (front_buffer v) (L * screen_width v) (n * screen_width v)"
    using bounce_fill_reference [OF assms(1-4)] assms(6) by simp
  have w: "0 < screen_width v" using assms(2) by (auto simp: geometry_ok_def)
  have "even L" using assms(3,5) by (simp add: request_ok_def)
  then have "(L + Suc (2 * i)) div 2 = (L + 2 * i) div 2" by auto
  then have "physical_line v (front_buffer v) (L + Suc (2 * i)) = physical_line v (front_buffer v) (L + 2 * i)"
    using assms(5) by (simp add: physical_line_def physical_pixel_def)
  moreover have "take (screen_width v) (drop (Suc (2 * i) * screen_width v) out)
      = physical_line v (front_buffer v) (L + Suc (2 * i))"
    unfolding out by (rule stream_line [OF w assms(7)])
  moreover have "take (screen_width v) (drop (2 * i * screen_width v) out)
      = physical_line v (front_buffer v) (L + 2 * i)"
    unfolding out using assms(7) by (intro stream_line [OF w]) simp
  ultimately show ?thesis by simp
qed

text \<open>C13. A scale or colour depth outside \<open>{1, 2} x {8, 3}\<close> is not rejected by
  \<open>bounceEvent\<close>: every request leaves the bounce buffer as it was (and \<open>init\<close> accepts
  such a mode, see C12).\<close>

theorem unsupported_mode_passthrough:
  assumes "\<not> ((frame_scale v = 1 \<or> frame_scale v = 2) \<and> (color_bits v = 3 \<or> color_bits v = 8))"
    and "0 < frame_scale v" and "0 < frame_width v"
    and "frame_buffer_index v < length (frame_buffers v)"
  shows "bounce_fill v pos len bb = Some bb"
  using assms by (auto simp: bounce_fill_def Let_def)

text \<open>C15. The conversion of a valid request does not depend on what the bounce buffer
  held before: it always returns the same bytes, exactly as many as requested.\<close>

theorem bounce_fill_fresh:
  assumes "vga_wf v" and "geometry_ok v" and "request_ok v L n"
    and "length bb = n * screen_width v" and "length bb' = length bb"
  shows "\<exists>out. bounce_fill v (L * screen_width v) (n * screen_width v) bb = Some out \<and>
           bounce_fill v (L * screen_width v) (n * screen_width v) bb' = Some out \<and>
           length out = n * screen_width v"
  using bounce_fill_reference [OF assms(1-4)] bounce_fill_reference [OF assms(1-3)] assms(4,5)
  by (simp add: physical_stream_def)

text \<open>C16. At scale 2 in 8-bit mode, a request of an odd number of lines that starts at an
  odd physical line (as the chunks of 35 lines that \<open>init\<close> configures for 640x350 do) is
  converted wrongly: its first line is read from the middle of a logical row, half a row
  further than the reference, and its last line is not written at all (it keeps what the
  bounce buffer held).\<close>

theorem odd_line_chunk_2x8:
  assumes wf: "vga_wf v" and m: "frame_scale v = 2" "color_bits v = 8"
    and g: "geometry_ok v" and L: "odd L" and n: "odd n" and "1 < n"
    and req: "L + n \<le> 2 * frame_height v" and bb: "length bb = n * screen_width v"
  shows "\<exists>out. bounce_fill v (L * screen_width v) (n * screen_width v) bb = Some out \<and>
     take (screen_width v) out
       = concat (map dup_pixel (take (frame_width v)
           (drop ((L div 2) * frame_width v + frame_width v div 2) (front_buffer v)))) \<and>
     drop ((n - 1) * screen_width v) out = drop ((n - 1) * screen_width v) bb"
proof -
  let ?fw = "frame_width v" and ?sw = "screen_width v" and ?fb = "front_buffer v"
  obtain a where a: "?fw = 40 * a" using g m by (auto simp: geometry_ok_def)
  have sw: "?sw = 2 * ?fw" using g m by (simp add: geometry_ok_def)
  have "0 < a" using g a by (auto simp: geometry_ok_def)
  obtain l where l: "L = 2 * l + 1" using L by (metis oddE)
  obtain c where c: "n = 2 * c + 1" using n by (metis oddE)
  have h: "?fw = 2 * (20 * a)" using a by simp
  have p0: "L * ?sw div 4 = l * ?fw + ?fw div 2"
    using l sw h by (simp add: algebra_simps)
  have ln: "n * ?sw div 4 div ?fw = c"
  proof -
    have "n * ?sw div 4 = c * ?fw + 20 * a" using c sw h by (simp add: algebra_simps)
    moreover have "20 * a < ?fw" using a \<open>0 < a\<close> by simp
    ultimately show ?thesis using \<open>0 < a\<close> a by (simp add: div_add_self1 div_less)
  qed
  have lenfb: "length ?fb = ?fw * frame_height v"
    using vga_wf_front(2) [OF wf] m by (simp add: fb_size_def)
  have fits: "(l * ?fw + ?fw div 2) + c * ?fw \<le> length ?fb"
  proof -
    have "l + c + 1 \<le> frame_height v" using req l c by simp
    then have "?fw * (l + c + 1) \<le> ?fw * frame_height v" by (rule mult_le_mono2)
    then show ?thesis using lenfb h by (simp add: algebra_simps)
  qed
  have bbc: "c * (2 * ?sw) \<le> length bb" using bb c by simp
  let ?R = "\<lambda>y. concat (map dup_pixel (take ?fw (drop (l * ?fw + ?fw div 2 + y * ?fw) ?fb)))"
  let ?X = "concat (map (\<lambda>y. ?R y @ ?R y) [0..<c])"
  have fill: "bounce_fill v (L * ?sw) (n * ?sw) bb = Some (splice_at bb 0 ?X)"
    by (rule bounce_fill_2x8_at [OF wf m sw a \<open>0 < a\<close> p0 ln fits bbc])
  have lenR: "length (?R y) = ?sw" if "y < c" for y
  proof -
    have "Suc y * ?fw \<le> c * ?fw" using that by (intro mult_le_mono1) simp
    then have "l * ?fw + ?fw div 2 + y * ?fw + ?fw \<le> length ?fb" using fits by (simp add: algebra_simps)
    then show ?thesis using sw by (simp add: length_concat_map_width [where m = 2] dup_pixel_def)
  qed
  have lenX: "length ?X = c * (2 * ?sw)"
    using lenR by (subst length_concat_map_const [where w = "2 * ?sw"]) auto
  have out: "splice_at bb 0 ?X = ?X @ drop (c * (2 * ?sw)) bb"
    using lenX by (simp add: splice_at_def)
  have c0: "0 < c" using c \<open>1 < n\<close> by simp
  have "take ?sw ?X = ?R 0"
  proof -
    obtain d where "c = Suc d" using c0 by (cases c) auto
    then have "?X = (?R 0 @ ?R 0) @ concat (map (\<lambda>y. ?R y @ ?R y) [1..<c])"
      by (simp add: upt_conv_Cons del: upt_Suc)
    then show ?thesis using lenR [OF c0] by simp
  qed
  moreover have "?sw \<le> length ?X" using lenX c0 by (cases c) simp_all
  ultimately have tk: "take ?sw (?X @ drop (c * (2 * ?sw)) bb) = ?R 0" by simp
  have dr: "drop (c * (2 * ?sw)) (?X @ drop (c * (2 * ?sw)) bb) = drop (c * (2 * ?sw)) bb"
    using lenX by simp
  have lL: "L div 2 = l" using l by simp
  have nm: "(n - 1) * ?sw = c * (2 * ?sw)" using c by simp
  show ?thesis unfolding lL nm using fill out tk dr by auto
qed

text \<open>C17. The unrolled 3-bit loop converts ten pixels per round, so at scale 1 with a frame
  width that is not a multiple of 10 a request for the whole frame reads past the end of
  the front buffer: the conversion has undefined behaviour.\<close>

theorem unroll_overrun_1x3:
  assumes wf: "vga_wf v" and m: "frame_scale v = 1" "color_bits v = 3"
    and fw: "0 < frame_width v" and nd: "\<not> 10 dvd frame_width v" and fh: "0 < frame_height v"
  shows "bounce_fill v 0 (frame_height v * frame_width v) bb = None"
proof -
  let ?fw = "frame_width v" and ?fh = "frame_height v" and ?fb = "front_buffer v"
  let ?r = "rounds 10 ?fw 0"
  have row: "row_1x3 ?fw ?fb = repeat_opt ?r (block_1x3 ?fb)"
    by (rule ext) (simp add: row_1x3_def for_loop_repeat)
  have lenfb: "length ?fb = ?fw * ?fh div 2"
    using vga_wf_front(2) [OF wf] m by (simp add: fb_size_def)
  have "?fw * ?fh < 10 * ?r * ?fh" using mult_less_mono1 [OF rounds_not_dvd_gen [OF _ nd] fh] by simp
  then have "?fw * ?fh < 10 * (?fh * ?r)" by (simp add: algebra_simps)
  then have "?fw * ?fh div 2 < ?fh * ?r * 5" by (rule half_below)
  then have over: "length ?fb < 0 + ?fh * ?r * 5" using lenfb by simp
  have r0: "0 < ?fh * ?r" using rounds_not_dvd_gen [OF _ nd] fh by (cases ?r) simp_all
  have "repeat_opt (?fh * ?r) (block_1x3 ?fb) \<lparr>pptr = 0, bbptr = 0, bounce = bb\<rparr> = None"
    unfolding block_1x3_def
  proof (rule repeat_advance_None [OF expand_block_advance r0])
    show "length ?fb < pptr \<lparr>pptr = 0, bbptr = 0, bounce = bb\<rparr> + ?fh * ?r * 5"
      unfolding fill_state.select_convs using over .
  qed
  then have none: "repeat_opt ?fh (row_1x3 ?fw ?fb) \<lparr>pptr = 0, bbptr = 0, bounce = bb\<rparr> = None"
    by (simp add: row repeat_opt_mult)
  have unf: "bounce_fill v 0 (?fh * ?fw) bb
      = map_option bounce (for_loop 1 ?fh 0 (row_1x3 ?fw ?fb) \<lparr>pptr = 0, bbptr = 0, bounce = bb\<rparr>)"
    using m fw vga_wf_front(1) [OF wf] by (simp add: bounce_fill_def Let_def front_buffer_def)
  show ?thesis unfolding unf for_rows none by simp
qed

text \<open>C21. Round trip of the spec's 3-bit encoding through the code's decoder: a logical
  image of 3-bit pixels, packed two per byte with the spec's \<open>Packed3x2\<close>, is unpacked by
  \<open>unpack_pair\<close> (the masks and shift of \<open>bounceEvent\<close>'s 3-bit loops) back into exactly
  the same pixels, in order.\<close>

theorem packed_frame_roundtrip:
  assumes "even (length px)" and "list_all (\<lambda>x. x < 8) px"
  shows "concat (map unpack_pair (pack_frame px)) = px"
proof -
  have "map (\<lambda>x. x AND 0b111) px = px"
    using assms(2) by (intro map_idI) (simp add: list_all_iff and7_id)
  then show ?thesis using unpack_pack_frame [OF assms(1)] by simp
qed


text \<open>C23. In 3-bit mode every byte the conversion writes for a valid request is a 3-bit
  colour (below 8): the upper bits are zero, as the spec requires.\<close>

theorem packed_output_range:
  assumes "vga_wf v" and "geometry_ok v" and "request_ok v L n"
    and "length bb = n * screen_width v" and "color_bits v = 3"
    and "bounce_fill v (L * screen_width v) (n * screen_width v) bb = Some out"
  shows "list_all (\<lambda>x. x < 8) out"
proof -
  have "out = physical_stream v (front_buffer v) (L * screen_width v) (n * screen_width v)"
    using bounce_fill_reference [OF assms(1-4)] assms(6) by simp
  then show ?thesis using assms(5)
    by (simp add: physical_stream_def physical_pixel_def list_all_iff sample3_lt8)
qed

text \<open>C29. The same overrun in both scale-2 branches: the 8-bit loop converts 40 pixels and
  the 3-bit loop 10 pixels per round, so with a frame width that is not a multiple of the
  block a request for the whole screen reads past the end of the front buffer.\<close>

theorem unroll_overrun_scale2:
  assumes wf: "vga_wf v" and m: "frame_scale v = 2"
    and nd: "color_bits v = 8 \<and> \<not> 40 dvd frame_width v \<or> color_bits v = 3 \<and> \<not> 10 dvd frame_width v"
    and fw: "0 < frame_width v" and fh: "0 < frame_height v"
  shows "bounce_fill v 0 (4 * frame_height v * frame_width v) bb = None"
proof -
  let ?fw = "frame_width v" and ?fh = "frame_height v" and ?fb = "front_buffer v"
  let ?sw = "screen_width v"
  let ?st0 = "\<lparr>pptr = 0, bbptr = 0, bounce = bb\<rparr>"
  have lines: "4 * ?fh * ?fw div (2 * 2) div ?fw = ?fh" using fw by simp
  have lenfb: "length ?fb = fb_size ?fw ?fh (color_bits v)" using vga_wf_front(2) [OF wf] .
  have unf: "bounce_fill v 0 (4 * ?fh * ?fw) bb =
     (if color_bits v = 8 then map_option bounce (repeat_opt ?fh (row_2x8 ?fw ?sw ?fb) ?st0)
      else map_option bounce (repeat_opt ?fh (row_2x3 ?fw ?sw ?fb) ?st0))"
    using m fw nd vga_wf_front(1) [OF wf] lines
    by (auto simp: bounce_fill_def Let_def front_buffer_def for_loop_repeat rounds_def)
  show ?thesis
  proof (cases "color_bits v = 8")
    case True
    let ?r = "rounds 40 ?fw 0"
    have lt: "?fw < 40 * ?r" using True nd by (intro rounds_not_dvd_gen) auto
    then have r0: "0 < ?r" by (cases ?r) simp_all
    have rowe: "\<And>st. row_2x8 ?fw ?sw ?fb st =
        Option.bind (repeat_opt ?r (expand_block ?fb 40 dup_pixel) st) (replicate_line ?sw (bbptr st))"
      by (simp add: row_2x8_def for_loop_repeat block_2x8_def)
    have adv: "\<And>st st'. row_2x8 ?fw ?sw ?fb st = Some st' \<Longrightarrow>
        pptr st' = pptr st + ?r * 40 \<and> pptr st + ?r * 40 \<le> length ?fb"
      by (rule doubled_row_advance [OF r0 rowe])
    have "?fw * ?fh < 40 * ?r * ?fh" using mult_less_mono1 [OF lt fh] .
    then have over: "length ?fb < pptr ?st0 + ?fh * (?r * 40)"
      using lenfb True by (simp add: fb_size_def algebra_simps)
    show ?thesis using unf True repeat_advance_None [OF adv fh over] by simp
  next
    case False
    then have b3: "color_bits v = 3" and nd3: "\<not> 10 dvd ?fw" using nd by auto
    let ?r = "rounds 10 ?fw 0"
    have lt: "?fw < 10 * ?r" using nd3 by (intro rounds_not_dvd_gen) auto
    then have r0: "0 < ?r" by (cases ?r) simp_all
    have rowe: "\<And>st. row_2x3 ?fw ?sw ?fb st =
        Option.bind (repeat_opt ?r (expand_block ?fb 5 unpack_pair_dup) st) (replicate_line ?sw (bbptr st))"
      by (simp add: row_2x3_def for_loop_repeat block_2x3_def)
    have adv: "\<And>st st'. row_2x3 ?fw ?sw ?fb st = Some st' \<Longrightarrow>
        pptr st' = pptr st + ?r * 5 \<and> pptr st + ?r * 5 \<le> length ?fb"
      by (rule doubled_row_advance [OF r0 rowe])
    have "?fw * ?fh < 10 * ?r * ?fh" using mult_less_mono1 [OF lt fh] .
    then have "?fw * ?fh < 10 * (?fh * ?r)" by (simp add: algebra_simps)
    then have "?fw * ?fh div 2 < ?fh * ?r * 5" by (rule half_below)
    then have over: "length ?fb < pptr ?st0 + ?fh * (?r * 5)"
      using lenfb b3 by (simp add: fb_size_def algebra_simps)
    show ?thesis using unf False repeat_advance_None [OF adv fh over] by simp
  qed
qed

end
