(* ===== verification/Sync.thy ===== *)
theory Sync
  imports FrameStore
begin

text \<open>
  The scanout synchroniser: \<open>VGA::vsyncWait\<close> (\<^verbatim>\<open>src/src/VGA.cpp\<close>, lines 162--166),
  run by the drawing task, and the tail of \<open>VGA::bounceEvent\<close> (lines 367--376), run by
  the RGB panel's interrupt after each chunk. They meet in two FreeRTOS binary
  semaphores: \<open>_sem_gui_ready\<close> (given by the producer, taken by the interrupt) and
  \<open>_sem_vsync_end\<close> (given by the interrupt, taken by the producer). A binary semaphore
  is whether its token is present; a give on a full one fails and leaves it full, a
  take succeeds only when the token is there. The blocking \<open>xSemaphoreTake\<close> is a step
  the producer can make only when the token is present.

  The handshake is an \<^theory_text>\<open>inductive\<close> step relation over the device state and the
  producer's position (drawing, or blocked in \<open>vsyncWait\<close>); the interrupt may run
  at any chunk position between producer steps. \<open>signalled_front\<close> is a ghost field:
  the front index when the producer last entered \<open>vsyncWait\<close>.
\<close>

subsection \<open>Binary semaphores\<close>

definition sem_give :: "bool \<Rightarrow> bool" where
  "sem_give s = True"

text \<open>\<open>xSemaphoreTake\<close> and \<open>xSemaphoreTakeFromISR\<close>: whether it succeeded, and the
  semaphore after.\<close>

definition sem_take :: "bool \<Rightarrow> bool \<times> bool" where
  "sem_take s = (if s then (True, False) else (False, s))"

subsection \<open>Operations\<close>

text \<open>\<open>vsyncWait\<close>, first statement: \<open>xSemaphoreGive(_sem_gui_ready)\<close>.\<close>

definition vsync_wait_give :: "vga \<Rightarrow> vga" where
  "vsync_wait_give v = v\<lparr>sem_gui_ready := sem_give (sem_gui_ready v)\<rparr>"

text \<open>\<open>vsyncWait\<close>, second statement: \<open>xSemaphoreTake(_sem_vsync_end, portMAX_DELAY)\<close>;
  \<open>None\<close> while it blocks.\<close>

definition vsync_wait_take :: "vga \<Rightarrow> vga option" where
  "vsync_wait_take v =
     (case sem_take (sem_vsync_end v) of
        (True, s') \<Rightarrow> Some (v\<lparr>sem_vsync_end := s'\<rparr>)
      | (False, _) \<Rightarrow> None)"

text \<open>The end of \<open>bounceEvent\<close>: once the chunk starts in the last
  \<open>_bounceBufferLines\<close> lines, take the ready token if the producer gave it, flip the
  front index and release the producer.\<close>

definition swap_threshold :: "vga \<Rightarrow> nat" where
  "swap_threshold v = screen_width v * (screen_height v - bounce_buffer_lines v)"

definition boundary_hook :: "vga \<Rightarrow> nat \<Rightarrow> vga" where
  "boundary_hook v pos_px =
     (if swap_threshold v \<le> pos_px then
        (case sem_take (sem_gui_ready v) of
           (True, gr) \<Rightarrow>
             v\<lparr>sem_gui_ready := gr,
               frame_buffer_index := (if frame_buffer_index v = 0 then 1 else 0),
               sem_vsync_end := sem_give (sem_vsync_end v)\<rparr>
         | (False, _) \<Rightarrow> v)
      else v)"

subsection \<open>The handshake as a step relation\<close>

datatype producer = Drawing | Waiting

record sync_state =
  dev :: vga
  prod :: producer
  signalled_front :: nat

definition sync_init :: "vga \<Rightarrow> sync_state" where
  "sync_init v = \<lparr>dev = v, prod = Drawing, signalled_front = frame_buffer_index v\<rparr>"

inductive sync_step :: "sync_state \<Rightarrow> sync_state \<Rightarrow> bool" where
  signal: "prod s = Drawing \<Longrightarrow>
     sync_step s (s\<lparr>dev := vsync_wait_give (dev s), prod := Waiting,
                    signalled_front := frame_buffer_index (dev s)\<rparr>)"
| resume: "prod s = Waiting \<Longrightarrow> vsync_wait_take (dev s) = Some v' \<Longrightarrow>
     sync_step s (s\<lparr>dev := v', prod := Drawing\<rparr>)"
| chunk: "sync_step s (s\<lparr>dev := boundary_hook (dev s) pos\<rparr>)"

inductive_cases sync_step_cases: "sync_step s t"

text \<open>The device as \<open>init\<close> leaves it: both semaphores empty, buffer 0 in front.\<close>

definition sync_start :: "vga \<Rightarrow> bool" where
  "sync_start v \<longleftrightarrow> \<not> sem_gui_ready v \<and> \<not> sem_vsync_end v \<and> frame_buffer_index v < 2"

inductive sync_reach :: "sync_state \<Rightarrow> bool" where
  start: "sync_start v \<Longrightarrow> sync_reach (sync_init v)"
| step: "sync_reach s \<Longrightarrow> sync_step s t \<Longrightarrow> sync_reach t"

text \<open>What the two semaphores say about the producer: while it draws neither holds a
  token; while it waits exactly one does, the ready token before the swap and the
  release token after it, and the front index has flipped exactly when the release token
  is there.\<close>

definition sync_inv :: "sync_state \<Rightarrow> bool" where
  "sync_inv s \<longleftrightarrow>
     frame_buffer_index (dev s) < 2 \<and>
     (case prod s of
        Drawing \<Rightarrow> \<not> sem_gui_ready (dev s) \<and> \<not> sem_vsync_end (dev s)
      | Waiting \<Rightarrow> sem_gui_ready (dev s) \<noteq> sem_vsync_end (dev s) \<and>
                   signalled_front s < 2 \<and>
                   (frame_buffer_index (dev s) = signalled_front s \<longleftrightarrow> sem_gui_ready (dev s)))"

subsection \<open>Properties\<close>

lemma boundary_hook_idle: "\<not> sem_gui_ready v \<Longrightarrow> boundary_hook v pos = v"
  by (simp add: boundary_hook_def sem_take_def)

lemma boundary_hook_before: "pos < swap_threshold v \<Longrightarrow> boundary_hook v pos = v"
  by (simp add: boundary_hook_def)

lemma boundary_hook_fire:
  "swap_threshold v \<le> pos \<Longrightarrow> sem_gui_ready v \<Longrightarrow>
   boundary_hook v pos = v\<lparr>sem_gui_ready := False,
     frame_buffer_index := (if frame_buffer_index v = 0 then 1 else 0), sem_vsync_end := True\<rparr>"
  by (simp add: boundary_hook_def sem_take_def sem_give_def)

lemma boundary_hook_buffers [simp]: "frame_buffers (boundary_hook v pos) = frame_buffers v"
  by (simp add: boundary_hook_def sem_take_def split: prod.splits bool.splits)

text \<open>C3. At a chunk that starts in the last \<open>_bounceBufferLines\<close> lines, if the producer
  has signalled, the front index flips (to the other of the two buffers), the ready token
  is consumed and the release token given; otherwise the boundary hook changes nothing.\<close>

theorem boundary_swap:
  assumes "frame_buffer_index v < 2"
  shows "(swap_threshold v \<le> pos \<and> sem_gui_ready v \<longrightarrow>
            frame_buffer_index (boundary_hook v pos) = 1 - frame_buffer_index v \<and>
            \<not> sem_gui_ready (boundary_hook v pos) \<and> sem_vsync_end (boundary_hook v pos)) \<and>
         (\<not> (swap_threshold v \<le> pos \<and> sem_gui_ready v) \<longrightarrow> boundary_hook v pos = v)"
  using assms by (auto simp: boundary_hook_fire boundary_hook_idle boundary_hook_before)

lemma vsync_wait_take_Some:
  "vsync_wait_take v = Some v' \<longleftrightarrow> sem_vsync_end v \<and> v' = v\<lparr>sem_vsync_end := False\<rparr>"
  by (auto simp: vsync_wait_take_def sem_take_def)

lemma sync_step_inv:
  assumes "sync_step s t" and "sync_inv s"
  shows "sync_inv t"
  using assms
proof (induction rule: sync_step.induct)
  case (signal s)
  then show ?case by (simp add: sync_inv_def vsync_wait_give_def sem_give_def)
next
  case (resume s v')
  then show ?case by (auto simp: sync_inv_def vsync_wait_take_Some)
next
  case (chunk s pos)
  show ?case
  proof (cases "swap_threshold (dev s) \<le> pos \<and> sem_gui_ready (dev s)")
    case True
    then show ?thesis using chunk.prems
      by (auto simp: sync_inv_def boundary_hook_fire split: producer.splits)
  next
    case False
    then have "boundary_hook (dev s) pos = dev s"
      by (auto simp: boundary_hook_idle boundary_hook_before)
    with chunk.prems show ?thesis by simp
  qed
qed

lemma sync_reach_invariant: "sync_reach s \<Longrightarrow> sync_inv s"
proof (induction rule: sync_reach.induct)
  case (start v)
  then show ?case by (simp add: sync_inv_def sync_init_def sync_start_def)
next
  case (step s t)
  then show ?case by (blast intro: sync_step_inv)
qed

text \<open>C4. In every state reachable by interleaving producer steps and interrupt chunks,
  the front index names a buffer and the semaphores agree with the producer's position:
  empty while it draws, exactly one token while it waits, the release token exactly when
  the front has flipped since it signalled.\<close>

theorem sync_reach_inv:
  assumes "sync_reach s"
  shows "sync_inv s"
  using assms by (rule sync_reach_invariant)

text \<open>C5. While the producer is drawing, no step moves the front buffer: the buffer that
  \<open>getDrawBuffer\<close> returned stays the back buffer until the producer signals.\<close>

theorem front_stable_while_drawing:
  assumes "sync_reach s" and "prod s = Drawing" and "sync_step s t"
  shows "frame_buffer_index (dev t) = frame_buffer_index (dev s)"
proof -
  have "\<not> sem_gui_ready (dev s)"
    using sync_reach_invariant [OF assms(1)] assms(2) by (simp add: sync_inv_def)
  with assms(2,3) show ?thesis
    by (auto elim: sync_step_cases simp: vsync_wait_give_def boundary_hook_idle)
qed

text \<open>C6. \<open>vsyncWait\<close> returns only after exactly one swap: when the producer resumes,
  the front index is the other buffer than the one in front when it signalled.\<close>

theorem wait_returns_after_one_swap:
  assumes "sync_reach s" and "prod s = Waiting" and "sync_step s t" and "prod t = Drawing"
  shows "frame_buffer_index (dev t) = 1 - signalled_front s"
proof -
  have inv: "sync_inv s" by (rule sync_reach_invariant [OF assms(1)])
  from assms(2-4) obtain v' where take: "vsync_wait_take (dev s) = Some v'" and t: "t = s\<lparr>dev := v', prod := Drawing\<rparr>"
    by (auto elim!: sync_step_cases)
  from take have "sem_vsync_end (dev s)" and v': "v' = (dev s)\<lparr>sem_vsync_end := False\<rparr>"
    by (simp_all add: vsync_wait_take_Some)
  with inv assms(2) show ?thesis using t by (auto simp: sync_inv_def)
qed

text \<open>C7. A waiting producer is released by the next chunk that reaches the swap
  threshold: after that chunk its blocked take can complete.\<close>

theorem producer_released:
  assumes "sync_reach s" and "prod s = Waiting" and "swap_threshold (dev s) \<le> pos"
  shows "\<exists>t. sync_step (s\<lparr>dev := boundary_hook (dev s) pos\<rparr>) t \<and> prod t = Drawing"
proof -
  have inv: "sync_inv s" by (rule sync_reach_invariant [OF assms(1)])
  have "sem_vsync_end (boundary_hook (dev s) pos)"
  proof (cases "sem_gui_ready (dev s)")
    case True
    then show ?thesis using assms(3) by (simp add: boundary_hook_fire)
  next
    case False
    with inv assms(2) have "sem_vsync_end (dev s)" by (simp add: sync_inv_def)
    with False show ?thesis by (simp add: boundary_hook_idle)
  qed
  then have "vsync_wait_take (boundary_hook (dev s) pos)
      = Some ((boundary_hook (dev s) pos)\<lparr>sem_vsync_end := False\<rparr>)"
    by (simp add: vsync_wait_take_Some)
  then have "sync_step (s\<lparr>dev := boundary_hook (dev s) pos\<rparr>)
      (s\<lparr>dev := boundary_hook (dev s) pos\<rparr>\<lparr>dev := (boundary_hook (dev s) pos)\<lparr>sem_vsync_end := False\<rparr>,
         prod := Drawing\<rparr>)"
    using assms(2) by (intro sync_step.resume) simp_all
  then show ?thesis by fastforce
qed

end
