(* ===== verification/Scanout.thy ===== *)
theory Scanout
  imports Converter Sync
begin

text \<open>
  The whole system: \<open>VGA::bounceEvent\<close> (\<^verbatim>\<open>src/src/VGA.cpp\<close>, lines 180--379) as the
  conversion of \<^theory_text>\<open>Converter\<close> followed by the swap of \<^theory_text>\<open>Sync\<close>; the ESP-IDF
  RGB panel driver, which is not part of the repository and is modelled from the spec
  (section 2): it asks for consecutive chunks of \<open>_bounceBufferLines\<close> physical lines
  (the \<open>bounce_buffer_size_px\<close> that \<open>init\<close> configures) and wraps to the first line
  after the last chunk of a frame; and the drawing task, which writes pixels through the
  pointer \<open>getDrawBuffer\<close> returned and calls \<open>vsyncWait\<close>.

  The system state adds two ghost fields to the device and handshake: the next chunk
  position and the bytes sent to the screen so far in the current frame.
\<close>

subsection \<open>The interrupt handler and the scanout engine\<close>

text \<open>\<open>bounceEvent\<close>: fill the bounce buffer, then the boundary swap.\<close>

definition bounce_event :: "vga \<Rightarrow> nat \<Rightarrow> nat \<Rightarrow> buffer \<Rightarrow> (vga \<times> buffer) option" where
  "bounce_event v pos_px len_bytes bb =
     Option.bind (bounce_fill v pos_px len_bytes bb) (\<lambda>bb'. Some (boundary_hook v pos_px, bb'))"

text \<open>\<open>vsyncEvent\<close> (lines 176--178), the driver's end-of-frame callback: it changes
  nothing and returns \<open>true\<close>.\<close>

definition vsync_event :: "vga \<Rightarrow> vga \<times> bool" where
  "vsync_event v = (v, True)"

text \<open>Pixels per chunk (one byte per pixel on the 8-bit bus) and per frame.\<close>

definition chunk_px :: "vga \<Rightarrow> nat" where
  "chunk_px v = bounce_buffer_lines v * screen_width v"

definition frame_px :: "vga \<Rightarrow> nat" where
  "frame_px v = screen_height v * screen_width v"

text \<open>The engine's next request: the following chunk, or the top of the next frame.\<close>

definition next_pos :: "vga \<Rightarrow> nat \<Rightarrow> nat" where
  "next_pos v pos = (if frame_px v \<le> pos + chunk_px v then 0 else pos + chunk_px v)"

subsection \<open>The producer's drawing\<close>

text \<open>\<open>p[i] = x\<close> through a pointer \<open>p\<close> to frame buffer \<open>b\<close> that \<open>getDrawBuffer\<close>
  returned.\<close>

definition draw_pixel :: "vga \<Rightarrow> nat \<Rightarrow> nat \<Rightarrow> byte \<Rightarrow> vga" where
  "draw_pixel v b i x = v\<lparr>frame_buffers := (frame_buffers v)[b := (frame_buffers v ! b)[i := x]]\<rparr>"

subsection \<open>The system\<close>

record sys =
  hs :: sync_state
  scan :: nat
  bbuf :: buffer
  shown :: "byte list"
  held :: "nat option"

abbreviation sdev :: "sys \<Rightarrow> vga" where
  "sdev s \<equiv> dev (hs s)"

text \<open>One step: the drawing task fetches \<open>getDrawBuffer()\<close> (\<open>held\<close> is the pointer it
  holds), writes a pixel through the pointer it holds, or enters or leaves
  \<open>vsyncWait\<close> (after which, as the spec's interface demands, the old pointer is not used
  again); or the driver signals the end of a frame (\<open>vsyncEvent\<close>); or the interrupt
  serves the engine's next chunk.\<close>

inductive sys_step :: "sys \<Rightarrow> sys \<Rightarrow> bool" where
  fetch: "prod (hs s) = Drawing \<Longrightarrow> sys_step s (s\<lparr>held := Some (get_draw_buffer (sdev s))\<rparr>)"
| draw: "held s = Some b \<Longrightarrow> i < length (frame_buffers (sdev s) ! b) \<Longrightarrow>
     sys_step s (s\<lparr>hs := (hs s)\<lparr>dev := draw_pixel (sdev s) b i x\<rparr>\<rparr>)"
| producer: "sync_step (hs s) t \<Longrightarrow> prod t \<noteq> prod (hs s) \<Longrightarrow> sys_step s (s\<lparr>hs := t, held := None\<rparr>)"
| vsync: "sys_step s (s\<lparr>hs := (hs s)\<lparr>dev := fst (vsync_event (sdev s))\<rparr>\<rparr>)"
| isr: "bounce_event (sdev s) (scan s) (chunk_px (sdev s)) (bbuf s) = Some (v', out) \<Longrightarrow>
     sys_step s (s\<lparr>hs := (hs s)\<lparr>dev := v'\<rparr>, scan := next_pos (sdev s) (scan s), bbuf := out,
                   shown := (if next_pos (sdev s) (scan s) = 0 then [] else shown s @ out)\<rparr>)"

text \<open>The configurations the engine can run: a supported mode, chunks of whole
  scale-aligned lines that tile the screen, and a screen made of whole logical lines.\<close>

definition scan_ok :: "vga \<Rightarrow> bool" where
  "scan_ok v \<longleftrightarrow>
     geometry_ok v \<and> 0 < bounce_buffer_lines v \<and> 0 < frame_height v \<and>
     frame_scale v dvd bounce_buffer_lines v \<and> bounce_buffer_lines v dvd screen_height v \<and>
     screen_height v = frame_scale v * frame_height v"

definition sys_init :: "vga \<Rightarrow> buffer \<Rightarrow> sys" where
  "sys_init v bb = \<lparr>hs = sync_init v, scan = 0, bbuf = bb, shown = [], held = None\<rparr>"

inductive sys_reach :: "sys \<Rightarrow> bool" where
  start: "sync_start v \<Longrightarrow> vga_wf v \<Longrightarrow> scan_ok v \<Longrightarrow> length bb = chunk_px v \<Longrightarrow>
     sys_reach (sys_init v bb)"
| step: "sys_reach s \<Longrightarrow> sys_step s t \<Longrightarrow> sys_reach t"


text \<open>The fields no operation changes after \<open>init\<close>.\<close>

definition geometry :: "vga \<Rightarrow> nat \<times> nat \<times> nat \<times> nat \<times> nat \<times> nat \<times> nat" where
  "geometry v = (frame_width v, frame_height v, screen_width v, screen_height v,
                 frame_scale v, color_bits v, bounce_buffer_lines v)"

text \<open>The system invariant: the handshake invariant, well-formed buffers, a runnable
  configuration, a bounce buffer of one chunk, a chunk-aligned scan position inside the
  frame, a held pointer only while drawing and only to the back buffer, and the bytes
  shown so far in this frame are the reference stream of the current front buffer.\<close>

definition sys_inv :: "sys \<Rightarrow> bool" where
  "sys_inv s \<longleftrightarrow>
     sync_inv (hs s) \<and> vga_wf (sdev s) \<and> scan_ok (sdev s) \<and>
     length (bbuf s) = chunk_px (sdev s) \<and> chunk_px (sdev s) dvd scan s \<and> scan s < frame_px (sdev s) \<and>
     (case held s of None \<Rightarrow> True | Some b \<Rightarrow> prod (hs s) = Drawing \<and> b = get_draw_buffer (sdev s)) \<and>
     shown s = physical_stream (sdev s) (front_buffer (sdev s)) 0 (scan s)"

subsection \<open>The system invariant\<close>

lemma geometry_eqD:
  assumes "geometry w = geometry v"
  shows "frame_width w = frame_width v" "frame_height w = frame_height v"
    "screen_width w = screen_width v" "screen_height w = screen_height v"
    "frame_scale w = frame_scale v" "color_bits w = color_bits v"
    "bounce_buffer_lines w = bounce_buffer_lines v"
  using assms by (simp_all add: geometry_def)

lemma geometry_same:
  assumes "geometry w = geometry v"
  shows "physical_stream w = physical_stream v" "scan_ok w = scan_ok v" "chunk_px w = chunk_px v"
    "frame_px w = frame_px v" "next_pos w = next_pos v"
  using geometry_eqD [OF assms]
  by (simp_all add: fun_eq_iff physical_stream_def physical_pixel_def scan_ok_def geometry_ok_def
                    chunk_px_def frame_px_def next_pos_def)

lemma geometry_boundary_hook [simp]: "geometry (boundary_hook v p) = geometry v"
  by (simp add: boundary_hook_def geometry_def sem_take_def split: prod.splits bool.splits)

lemma geometry_draw_pixel [simp]: "geometry (draw_pixel v b i x) = geometry v"
  by (simp add: draw_pixel_def geometry_def)

lemma sync_step_dev:
  assumes "sync_step s t" and "prod t \<noteq> prod s"
  shows "geometry (dev t) = geometry (dev s)" and "frame_buffers (dev t) = frame_buffers (dev s)"
    and "frame_buffer_index (dev t) = frame_buffer_index (dev s)"
  using assms
  by (auto elim!: sync_step_cases simp: geometry_def vsync_wait_give_def vsync_wait_take_Some)

lemma vga_wf_draw_pixel:
  assumes "vga_wf v" and "b < 2"
  shows "vga_wf (draw_pixel v b i x)"
  using assms by (auto simp: vga_wf_def draw_pixel_def list_all_length nth_list_update)

lemma front_draw_pixel:
  assumes "b \<noteq> frame_buffer_index v"
  shows "front_buffer (draw_pixel v b i x) = front_buffer v"
  using assms by (simp add: front_buffer_def draw_pixel_def)

lemma vga_wf_boundary_hook:
  assumes "vga_wf v" shows "vga_wf (boundary_hook v p)"
  using assms by (simp add: boundary_hook_def vga_wf_def sem_take_def split: prod.splits bool.splits)

lemma chunk_fits:
  assumes "(b::nat) dvd h" and "k * b < h"
  shows "k * b + b \<le> h"
proof -
  from assms(1) obtain q where h: "h = b * q" by blast
  with assms(2) have "k < q" by (cases "b = 0") auto
  then have "Suc k * b \<le> q * b" by (intro mult_le_mono1) simp
  with h show ?thesis by (simp add: algebra_simps)
qed

text \<open>The boundary fires exactly at the last chunk of a frame.\<close>

lemma threshold_last_chunk:
  assumes "0 < screen_width v" and "0 < bounce_buffer_lines v"
  shows "swap_threshold v \<le> k * chunk_px v \<longleftrightarrow> next_pos v (k * chunk_px v) = 0"
proof -
  let ?w = "screen_width v" and ?h = "screen_height v" and ?b = "bounce_buffer_lines v"
  have "swap_threshold v \<le> k * chunk_px v \<longleftrightarrow> (?h - ?b) * ?w \<le> (k * ?b) * ?w"
    by (simp add: swap_threshold_def chunk_px_def algebra_simps)
  also have "\<dots> \<longleftrightarrow> ?h - ?b \<le> k * ?b" using assms by simp
  also have "\<dots> \<longleftrightarrow> ?h \<le> k * ?b + ?b" by arith
  also have "\<dots> \<longleftrightarrow> ?h * ?w \<le> (k * ?b + ?b) * ?w" using assms by simp
  also have "\<dots> \<longleftrightarrow> next_pos v (k * chunk_px v) = 0"
    using assms by (simp add: next_pos_def frame_px_def chunk_px_def algebra_simps)
  finally show ?thesis .
qed
lemma physical_stream_append:
  "physical_stream v fb 0 a @ physical_stream v fb a b = physical_stream v fb 0 (a + b)"
  by (simp add: physical_stream_def upt_add_eq_append [of 0 a b])

lemma vga_wf_same:
  assumes "geometry w = geometry v" "frame_buffers w = frame_buffers v"
    "frame_buffer_index w = frame_buffer_index v"
  shows "vga_wf w = vga_wf v" and "front_buffer w = front_buffer v"
  using assms geometry_eqD [OF assms(1)] by (simp_all add: vga_wf_def front_buffer_def)

lemma bounce_event_total:
  assumes inv: "sys_inv s"
  shows "bounce_event (sdev s) (scan s) (chunk_px (sdev s)) (bbuf s)
       = Some (boundary_hook (sdev s) (scan s),
               physical_stream (sdev s) (front_buffer (sdev s)) (scan s) (chunk_px (sdev s)))"
proof -
  let ?v = "sdev s"
  let ?b = "bounce_buffer_lines ?v" and ?w = "screen_width ?v"
  from inv have "chunk_px ?v dvd scan s" by (simp add: sys_inv_def)
  then obtain k where p: "scan s = k * chunk_px ?v" by (metis dvd_def mult.commute)
  have ok: "scan_ok ?v" and wf: "vga_wf ?v" and lt: "scan s < frame_px ?v"
    and bb: "length (bbuf s) = chunk_px ?v"
    using inv by (simp_all add: sys_inv_def)
  have w: "0 < ?w" using ok by (auto simp: scan_ok_def geometry_ok_def)
  have kb: "k * ?b < screen_height ?v"
    using lt p w by (simp add: frame_px_def chunk_px_def algebra_simps)
  have fits: "k * ?b + ?b \<le> screen_height ?v"
    using ok kb by (intro chunk_fits) (auto simp: scan_ok_def)
  have req: "request_ok ?v (k * ?b) ?b"
    using ok fits by (auto simp: request_ok_def scan_ok_def)
  have g: "geometry_ok ?v" using ok by (simp add: scan_ok_def)
  have "bounce_fill ?v (k * ?b * ?w) (?b * ?w) (bbuf s)
      = Some (physical_stream ?v (front_buffer ?v) (k * ?b * ?w) (?b * ?w))"
    using bb by (intro bounce_fill_reference [OF wf g req]) (simp add: chunk_px_def)
  then show ?thesis using p by (simp add: bounce_event_def chunk_px_def algebra_simps)
qed

lemma isr_output:
  assumes inv: "sys_inv s"
    and ev: "bounce_event (sdev s) (scan s) (chunk_px (sdev s)) (bbuf s) = Some (v', out)"
  shows "v' = boundary_hook (sdev s) (scan s)"
    and "out = physical_stream (sdev s) (front_buffer (sdev s)) (scan s) (chunk_px (sdev s))"
  using bounce_event_total [OF inv] ev by simp_all

lemma sys_step_inv:
  assumes "sys_step s t" and "sys_inv s"
  shows "sys_inv t"
  using assms
proof (induction rule: sys_step.induct)
  case (fetch s)
  then show ?case by (simp add: sys_inv_def)
next
  case (draw s b i x)
  let ?v = "sdev s"
  from draw have b: "b = get_draw_buffer ?v" and idx: "frame_buffer_index ?v < 2"
    by (auto simp: sys_inv_def sync_inv_def)
  then have b2: "b < 2" and bne: "b \<noteq> frame_buffer_index ?v"
    by (auto simp: get_draw_buffer_def)
  have g: "geometry (draw_pixel ?v b i x) = geometry ?v" by simp
  show ?case
    using draw.prems b vga_wf_draw_pixel [of ?v b i x] b2 front_draw_pixel [OF bne, of i x]
      geometry_same [OF g]
    by (auto simp: sys_inv_def sync_inv_def draw_pixel_def get_draw_buffer_def split: option.splits producer.splits)
next
  case (producer s t)
  have si: "sync_inv t" using sync_step_inv [OF producer.hyps(1)] producer.prems by (simp add: sys_inv_def)
  note d = sync_step_dev [OF producer.hyps]
  show ?case
    using producer.prems si vga_wf_same [OF d] geometry_same [OF d(1)]
    by (simp add: sys_inv_def)
next
  case (vsync s)
  then show ?case by (simp add: vsync_event_def)
next
  case (isr s v' out)
  let ?v = "sdev s" and ?p = "scan s"
  have v': "v' = boundary_hook ?v ?p"
    and out: "out = physical_stream ?v (front_buffer ?v) ?p (chunk_px ?v)"
    using isr_output [OF isr.prems isr.hyps] by simp_all
  have inv: "sys_inv s" by (rule isr.prems)
  then have ok: "scan_ok ?v" and lt: "?p < frame_px ?v" and si: "sync_inv (hs s)"
    and wf: "vga_wf ?v" by (simp_all add: sys_inv_def)
  from inv have "chunk_px ?v dvd ?p" by (simp add: sys_inv_def)
  then obtain k where p: "?p = k * chunk_px ?v" by (metis dvd_def mult.commute)
  have pos: "0 < screen_width ?v" "0 < bounce_buffer_lines ?v"
    using ok by (auto simp: scan_ok_def geometry_ok_def)
  have thr: "swap_threshold ?v \<le> ?p \<longleftrightarrow> next_pos ?v ?p = 0"
    using threshold_last_chunk [OF pos, of k] p by simp
  have gv: "geometry v' = geometry ?v" using v' by simp
  have si': "sync_inv ((hs s)\<lparr>dev := v'\<rparr>)"
    using sync_step_inv [OF sync_step.chunk [of "hs s" ?p] si] v' by simp
  have wf': "vga_wf v'" using v' wf by (simp add: vga_wf_boundary_hook)
  have len: "length out = chunk_px ?v" using out by (simp add: physical_stream_def)
  have held_ok: "case held s of None \<Rightarrow> True
      | Some b \<Rightarrow> prod (hs s) = Drawing \<and> b = get_draw_buffer v'"
  proof (cases "held s")
    case (Some b)
    with inv have "prod (hs s) = Drawing" and "b = get_draw_buffer ?v" by (auto simp: sys_inv_def)
    moreover from this si have "\<not> sem_gui_ready ?v" by (simp add: sync_inv_def)
    ultimately show ?thesis using Some v' by (simp add: boundary_hook_idle)
  qed simp
  show ?case
  proof (cases "next_pos ?v ?p = 0")
    case True
    have "0 < frame_px ?v" using lt by simp
    then show ?thesis
      using True si' wf' geometry_same [OF gv] ok len held_ok
      by (simp add: sys_inv_def physical_stream_def split: option.splits)
  next
    case False
    then have "?p < swap_threshold ?v" using thr by simp
    then have same: "v' = ?v" using v' by (simp add: boundary_hook_before)
    have nxt: "next_pos ?v ?p = ?p + chunk_px ?v" and lt': "?p + chunk_px ?v < frame_px ?v"
      using False by (auto simp: next_pos_def split: if_splits)
    have "chunk_px ?v dvd ?p + chunk_px ?v" using p by simp
    moreover have "?p + chunk_px ?v \<noteq> 0" using False nxt by simp
    moreover have "shown s @ out = physical_stream ?v (front_buffer ?v) 0 (?p + chunk_px ?v)"
      using inv out by (simp add: sys_inv_def physical_stream_append)
    ultimately show ?thesis
      using inv same nxt lt' len held_ok
      by (auto simp: sys_inv_def split: option.splits)
  qed
qed

lemma sys_reach_inv: "sys_reach s \<Longrightarrow> sys_inv s"
proof (induction rule: sys_reach.induct)
  case (start v bb)
  then have "0 < frame_px v" by (auto simp: scan_ok_def frame_px_def geometry_ok_def)
  with start show ?case
    by (simp add: sys_inv_def sys_init_def sync_init_def sync_inv_def sync_start_def
                  physical_stream_def)
next
  case (step s t)
  then show ?case by (blast intro: sys_step_inv)
qed

lemma isr_step_total:
  assumes inv: "sys_inv s"
  shows "\<exists>t. sys_step s t \<and> sdev t = boundary_hook (sdev s) (scan s) \<and>
             scan t = next_pos (sdev s) (scan s) \<and> prod (hs t) = prod (hs s) \<and> sys_inv t"
proof -
  let ?out = "physical_stream (sdev s) (front_buffer (sdev s)) (scan s) (chunk_px (sdev s))"
  let ?t = "s\<lparr>hs := (hs s)\<lparr>dev := boundary_hook (sdev s) (scan s)\<rparr>, scan := next_pos (sdev s) (scan s),
              bbuf := ?out, shown := (if next_pos (sdev s) (scan s) = 0 then [] else shown s @ ?out)\<rparr>"
  have st: "sys_step s ?t" by (rule sys_step.isr [OF bounce_event_total [OF inv]])
  show ?thesis using st sys_step_inv [OF st inv] by (intro exI [of _ ?t]) simp
qed

lemma threshold_eq:
  assumes "bounce_buffer_lines v \<le> screen_height v"
  shows "swap_threshold v + chunk_px v = frame_px v"
proof -
  have "swap_threshold v + chunk_px v
      = screen_width v * (screen_height v - bounce_buffer_lines v) + screen_width v * bounce_buffer_lines v"
    by (simp add: swap_threshold_def chunk_px_def mult.commute)
  also have "\<dots> = screen_width v * screen_height v"
    using assms by (simp add: add_mult_distrib2 [symmetric])
  finally show ?thesis by (simp add: frame_px_def mult.commute)
qed

lemma scan_ok_bbl_le:
  assumes "scan_ok v" shows "bounce_buffer_lines v \<le> screen_height v"
proof -
  have "0 < screen_height v" using assms by (auto simp: scan_ok_def geometry_ok_def)
  moreover have "bounce_buffer_lines v dvd screen_height v" using assms unfolding scan_ok_def by blast
  ultimately show ?thesis by (simp add: dvd_imp_le)
qed

lemma chunks_until_release:
  assumes "sys_inv s" and "prod (hs s) = Waiting" and "sem_gui_ready (sdev s)"
    and "scan s + Suc m * chunk_px (sdev s) = frame_px (sdev s)"
  shows "\<exists>t. (sys_step ^^ Suc m) s t \<and> prod (hs t) = Waiting \<and> sem_vsync_end (sdev t) \<and> sys_inv t"
  using assms
proof (induction m arbitrary: s)
  case 0
  have le: "bounce_buffer_lines (sdev s) \<le> screen_height (sdev s)"
    using "0.prems"(1) by (intro scan_ok_bbl_le) (simp add: sys_inv_def)
  have thr: "swap_threshold (sdev s) \<le> scan s"
    using threshold_eq [OF le] "0.prems"(4) by simp
  obtain t where t: "sys_step s t" "sdev t = boundary_hook (sdev s) (scan s)"
    "prod (hs t) = prod (hs s)" "sys_inv t"
    using isr_step_total [OF "0.prems"(1)] by blast
  have "sem_vsync_end (sdev t)" using t(2) thr "0.prems"(3) by (simp add: boundary_hook_fire)
  then show ?case using t "0.prems"(2) by auto
next
  case (Suc m)
  have le: "bounce_buffer_lines (sdev s) \<le> screen_height (sdev s)"
    using Suc.prems(1) by (intro scan_ok_bbl_le) (simp add: sys_inv_def)
  have c: "0 < chunk_px (sdev s)"
    using Suc.prems(1) by (auto simp: sys_inv_def scan_ok_def geometry_ok_def chunk_px_def)
  have lt: "scan s + chunk_px (sdev s) < frame_px (sdev s)"
    using Suc.prems(4) c by simp
  have before: "scan s < swap_threshold (sdev s)"
    using threshold_eq [OF le] lt by simp
  obtain t where t: "sys_step s t" "sdev t = boundary_hook (sdev s) (scan s)"
    "scan t = next_pos (sdev s) (scan s)" "prod (hs t) = prod (hs s)" "sys_inv t"
    using isr_step_total [OF Suc.prems(1)] by blast
  have dv: "sdev t = sdev s" using t(2) before by (simp add: boundary_hook_before)
  have sc: "scan t = scan s + chunk_px (sdev s)" using t(3) lt by (simp add: next_pos_def)
  obtain u where u: "(sys_step ^^ Suc m) t u" "prod (hs u) = Waiting" "sem_vsync_end (sdev u)" "sys_inv u"
    using Suc.IH [OF t(5)] t(4) Suc.prems(2,3,4) dv sc by (auto simp: algebra_simps)
  have "(sys_step ^^ Suc (Suc m)) s u" using t(1) u(1) by (rule relpowp_Suc_I2)
  then show ?case using u by blast
qed

text \<open>While the drawing task is blocked and not yet released, no step of any component
  unblocks it, no step changes the geometry, and the interrupt either releases it (at the
  last chunk) or advances the scan position by exactly one chunk.\<close>

lemma waiting_step:
  assumes inv: "sys_inv s" and w: "prod (hs s) = Waiting" and nr: "\<not> sem_vsync_end (sdev s)"
    and st: "sys_step s t"
  shows "prod (hs t) = Waiting \<and> geometry (sdev t) = geometry (sdev s) \<and>
         (sem_vsync_end (sdev t) \<or> scan t = scan s \<or> scan t = scan s + chunk_px (sdev s))"
  using st
proof (cases rule: sys_step.cases)
  case fetch
  then show ?thesis using w by simp
next
  case (draw b i x)
  then show ?thesis using inv w by (simp add: sys_inv_def)
next
  case (producer t')
  then show ?thesis using w nr by (auto elim!: sync_step_cases simp: vsync_wait_take_Some)
next
  case vsync
  then show ?thesis using w by (simp add: vsync_event_def)
next
  case (isr v' out)
  have v': "v' = boundary_hook (sdev s) (scan s)" by (rule isr_output(1) [OF inv isr(2)])
  have gr: "sem_gui_ready (sdev s)" using inv w nr by (simp add: sys_inv_def sync_inv_def)
  have dt: "sdev t = v'" and pt: "prod (hs t) = Waiting" and sc: "scan t = next_pos (sdev s) (scan s)"
    using isr(1) w by simp_all
  have g: "geometry (sdev t) = geometry (sdev s)" unfolding dt v' by (rule geometry_boundary_hook)
  show ?thesis
  proof (cases "swap_threshold (sdev s) \<le> scan s")
    case True
    then have "sem_vsync_end (sdev t)" unfolding dt v' using gr by (simp add: boundary_hook_fire)
    then show ?thesis using pt g by blast
  next
    case False
    have le: "bounce_buffer_lines (sdev s) \<le> screen_height (sdev s)"
      using inv by (intro scan_ok_bbl_le) (simp add: sys_inv_def)
    have "scan s + chunk_px (sdev s) < frame_px (sdev s)"
      using threshold_eq [OF le] False by simp
    then have "scan t = scan s + chunk_px (sdev s)" unfolding sc by (simp add: next_pos_def)
    then show ?thesis using pt g by blast
  qed
qed

text \<open>C8. No tearing: whenever the interrupt serves a chunk in a reachable state of the
  system (the drawing task fetching \<open>getDrawBuffer\<close>, writing through it and calling
  \<open>vsyncWait\<close>, interleaved with interrupt chunks), the bytes of the current frame sent so
  far followed by the chunk are the reference conversion of the front buffer as it is at
  that moment, from the top of the frame through the chunk. At the last chunk of a frame,
  the one that may swap, this is the whole frame: every frame on the screen is the
  conversion of one buffer, unmodified while it was scanned out.\<close>

theorem no_tearing:
  assumes "sys_reach s"
    and "bounce_event (sdev s) (scan s) (chunk_px (sdev s)) (bbuf s) = Some (v', out)"
  shows "shown s @ out
       = physical_stream (sdev s) (front_buffer (sdev s)) 0 (scan s + chunk_px (sdev s))"
proof -
  have inv: "sys_inv s" using assms(1) by (rule sys_reach_inv)
  then have "shown s = physical_stream (sdev s) (front_buffer (sdev s)) 0 (scan s)"
    by (simp add: sys_inv_def)
  with isr_output(2) [OF inv assms(2)] show ?thesis by (simp add: physical_stream_append)
qed

text \<open>C9. With the chunk size \<open>init\<close> configures (\<open>height / 10\<close> lines) and a height that
  is a multiple of ten, of the ten chunks of a frame exactly the last one reaches the
  swap threshold: the boundary hook can swap once per frame, while the last chunk is
  being produced.\<close>

theorem swap_on_last_chunk:
  assumes "0 < screen_width v" and "0 < bounce_buffer_lines v"
    and "screen_height v = 10 * bounce_buffer_lines v" and "k < 10"
  shows "swap_threshold v \<le> k * chunk_px v \<longleftrightarrow> k = 9"
proof -
  let ?c = "bounce_buffer_lines v * screen_width v"
  have c: "0 < ?c" using assms(1,2) by simp
  have "swap_threshold v = 9 * ?c" using assms(3) by (simp add: swap_threshold_def algebra_simps)
  then have "swap_threshold v \<le> k * chunk_px v \<longleftrightarrow> 9 \<le> k"
    using c by (simp add: chunk_px_def)
  then show ?thesis using assms(4) by arith
qed

text \<open>C26. \<open>init\<close> composed with scanout: in 8-bit mode at every supported resolution
  and scale whose chunks are whole line pairs (all but 640x350 at scale 2), with valid
  pins and working allocation, \<open>init\<close> succeeds, configures the panel with bounce buffers
  of exactly the chunk size the engine then requests, and leaves a device from which the
  whole system (drawing task, handshake, interrupt) starts.\<close>

theorem init_starts_scanout:
  assumes mode: "(width, height) \<in> {(800, 600), (640, 480), (640, 400)} \<and> (scale = 1 \<or> scale = 2) \<or>
                 width = 640 \<and> height = 350 \<and> scale = 1"
    and pins: "data_gpio_config pins 8 \<noteq> None" and alloc: "\<And>i n. \<exists>g. alloc p i n = Some g"
    and bb: "length bb = (height div 10) * width"
  shows "\<exists>v' cfg. init alloc vga_new width height scale 8 pins p = Inr v' \<and>
           panel_handle v' = Some cfg \<and> bounce_buffer_size_px cfg = chunk_px v' \<and>
           sys_reach (sys_init v' bb)"
proof -
  let ?n = "(width div scale) * (height div scale)"
  obtain g0 g1 where g0: "alloc p 0 ?n = Some g0" and g1: "alloc p 1 ?n = Some g1"
    using alloc by blast
  obtain cfg where cfg: "panel_config width height (height div 10) 8 pins = Some cfg"
    using pins by (auto simp: panel_config_def)
  have b: "bounce_buffer_size_px cfg = (height div 10) * width"
    using cfg by (auto simp: panel_config_def)
  have s0: "0 < scale" using mode by auto
  let ?v = "vga_new\<lparr>frame_scale := scale, frame_width := width div scale,
            frame_height := height div scale, screen_width := width,
            screen_height := height, color_bits := 8,
            bounce_buffer_lines := height div 10,
            sem_vsync_end := False, sem_gui_ready := False,
            frame_buffers := [replicate ?n 255, map g1 [0..<?n]],
            panel_handle := Some cfg\<rparr>"
  have i: "init alloc vga_new width height scale 8 pins p = Inr ?v"
    by (rule init_Inr [where alloc = alloc and p = p and v = vga_new and width = width
        and height = height and scale = scale, OF s0 _ cfg g0 g1]) simp
  have st: "sync_start ?v" by (simp add: sync_start_def vga_new_def)
  have wf: "vga_wf ?v" by (simp add: vga_wf_def fb_size_def vga_new_def)
  have ok: "scan_ok ?v"
    using mode by (auto simp: scan_ok_def geometry_ok_def)
  have len: "length bb = chunk_px ?v" using bb by (simp add: chunk_px_def)
  have "sys_reach (sys_init ?v bb)" by (rule sys_reach.start [OF st wf ok len])
  then show ?thesis using i b by (auto simp: chunk_px_def)
qed

text \<open>C27. Liveness of \<open>vsyncWait\<close> in the whole system: from every reachable state in
  which the drawing task is blocked, the interrupt's chunks alone (at most one frame of
  them) followed by the task's own return from the take bring it back to drawing.\<close>

theorem producer_released_within_frame:
  assumes "sys_reach s" and "prod (hs s) = Waiting"
  shows "\<exists>n t. n \<le> frame_px (sdev s) div chunk_px (sdev s) + 1 \<and> (sys_step ^^ n) s t \<and>
               prod (hs t) = Drawing"
proof -
  have inv: "sys_inv s" by (rule sys_reach_inv [OF assms(1)])
  have resume: "\<exists>t. (sys_step ^^ 1) u t \<and> prod (hs t) = Drawing"
    if "prod (hs u) = Waiting" "sem_vsync_end (sdev u)" for u
  proof -
    have "vsync_wait_take (sdev u) = Some ((sdev u)\<lparr>sem_vsync_end := False\<rparr>)"
      using that(2) by (simp add: vsync_wait_take_Some)
    then have "sync_step (hs u) ((hs u)\<lparr>dev := (sdev u)\<lparr>sem_vsync_end := False\<rparr>, prod := Drawing\<rparr>)"
      using that(1) by (rule sync_step.resume [rotated])
    then have "sys_step u (u\<lparr>hs := (hs u)\<lparr>dev := (sdev u)\<lparr>sem_vsync_end := False\<rparr>, prod := Drawing\<rparr>,
        held := None\<rparr>)"
      using that(1) by (intro sys_step.producer) simp_all
    then show ?thesis by fastforce
  qed
  show ?thesis
  proof (cases "sem_vsync_end (sdev s)")
    case True
    then show ?thesis using resume [OF assms(2) True] by fastforce
  next
    case False
    then have gr: "sem_gui_ready (sdev s)" using inv assms(2) by (simp add: sys_inv_def sync_inv_def)
    have ok: "scan_ok (sdev s)" and lt: "scan s < frame_px (sdev s)" and dv: "chunk_px (sdev s) dvd scan s"
      using inv by (simp_all add: sys_inv_def)
    have c: "0 < chunk_px (sdev s)"
      using ok by (auto simp: scan_ok_def geometry_ok_def chunk_px_def)
    have fdv: "chunk_px (sdev s) dvd frame_px (sdev s)"
      using ok by (auto simp: scan_ok_def frame_px_def chunk_px_def intro: mult_dvd_mono)
    obtain k where k: "scan s = k * chunk_px (sdev s)" using dv by (metis dvd_def mult.commute)
    obtain N where N: "frame_px (sdev s) = N * chunk_px (sdev s)" using fdv by (metis dvd_def mult.commute)
    have kN: "k < N" using lt k N c by simp
    define m where "m = N - Suc k"
    have e: "N = k + Suc m" using kN by (simp add: m_def)
    have sm: "scan s + Suc m * chunk_px (sdev s) = frame_px (sdev s)"
      using k N unfolding e by (simp add: algebra_simps)
    obtain t where t: "(sys_step ^^ Suc m) s t" "prod (hs t) = Waiting" "sem_vsync_end (sdev t)"
      using chunks_until_release [OF inv assms(2) gr sm] by blast
    obtain u where u: "(sys_step ^^ 1) t u" "prod (hs u) = Drawing" using resume [OF t(2,3)] by blast
    have "(sys_step ^^ (Suc m + 1)) s u" using t(1) u(1) by (metis relpowp_add relcomppI)
    moreover have "Suc m + 1 \<le> frame_px (sdev s) div chunk_px (sdev s) + 1"
      using N c kN by (simp add: m_def)
    ultimately show ?thesis using u(2) by blast
  qed
qed

text \<open>C28. In every reachable state of the system the interrupt can serve the engine's next
  chunk: \<open>bounceEvent\<close> has no undefined behaviour there and always produces a bounce
  buffer, so the scanout never gets stuck.\<close>

theorem isr_always_defined:
  assumes "sys_reach s"
  shows "\<exists>v' out. bounce_event (sdev s) (scan s) (chunk_px (sdev s)) (bbuf s) = Some (v', out)"
  using bounce_event_total [OF sys_reach_inv [OF assms]] by blast

text \<open>C30. Liveness of \<open>vsyncWait\<close> under every interleaving (a "must" property, where C27
  shows one schedule that works): from a reachable state in which the drawing task
  waits and has not been released, every step of any component -- interrupt, \<open>vsyncEvent\<close>,
  the task itself -- keeps it waiting, keeps the frame size, and either releases it or
  leaves the scan position alone or advances it by exactly one chunk. So the variant
  \<open>frame_px - scan\<close> decreases with each interrupt until the release.\<close>

theorem release_variant:
  assumes "sys_reach s" and "prod (hs s) = Waiting" and "\<not> sem_vsync_end (sdev s)"
    and "sys_step s t"
  shows "prod (hs t) = Waiting \<and> frame_px (sdev t) = frame_px (sdev s) \<and>
         (sem_vsync_end (sdev t) \<or> scan t = scan s \<or> scan t = scan s + chunk_px (sdev s))"
proof -
  have w: "prod (hs t) = Waiting \<and> geometry (sdev t) = geometry (sdev s) \<and>
         (sem_vsync_end (sdev t) \<or> scan t = scan s \<or> scan t = scan s + chunk_px (sdev s))"
    by (rule waiting_step [OF sys_reach_inv [OF assms(1)] assms(2-4)])
  then have "frame_px (sdev t) = frame_px (sdev s)" using geometry_same(4) by blast
  then show ?thesis using w by blast
qed

text \<open>C31. Along any run in which the drawing task has not been released, the task stays
  blocked and the scan position only moves forward from where it was, by whole chunks, and
  never wraps to the next frame. Since each interrupt before the release advances the
  position by one chunk (C30), at most \<open>frame_px / chunk_px\<close> interrupts can pass before the
  release token arrives, however \<open>vsyncEvent\<close> and the interrupts interleave.\<close>

theorem release_before_wrap:
  assumes "sys_reach s" and "prod (hs s) = Waiting" and "\<not> sem_vsync_end (sdev s)"
    and "((\<lambda>a b. sys_step a b \<and> \<not> sem_vsync_end (sdev b)) ^^ n) s t"
  shows "prod (hs t) = Waiting \<and> (\<exists>k. scan t = scan s + k * chunk_px (sdev s)) \<and>
         scan t < frame_px (sdev s)"
proof -
  have inv: "sys_inv s" by (rule sys_reach_inv [OF assms(1)])
  have "prod (hs t) = Waiting \<and> sys_inv t \<and> \<not> sem_vsync_end (sdev t) \<and>
        geometry (sdev t) = geometry (sdev s) \<and> (\<exists>k. scan t = scan s + k * chunk_px (sdev s))"
    using assms(4)
  proof (induction n arbitrary: t)
    case 0
    then have "t = s" by simp
    moreover have "scan s = scan s + 0 * chunk_px (sdev s)" by simp
    ultimately show ?case using inv assms(2,3) by blast
  next
    case (Suc n)
    then obtain u where u: "((\<lambda>a b. sys_step a b \<and> \<not> sem_vsync_end (sdev b)) ^^ n) s u"
      and st: "sys_step u t" and nr: "\<not> sem_vsync_end (sdev t)" by auto
    have ih: "prod (hs u) = Waiting" "sys_inv u" "\<not> sem_vsync_end (sdev u)"
      "geometry (sdev u) = geometry (sdev s)" and k: "\<exists>k. scan u = scan s + k * chunk_px (sdev s)"
      using Suc.IH [OF u] by blast+
    have ws: "prod (hs t) = Waiting" "geometry (sdev t) = geometry (sdev u)"
      "scan t = scan u \<or> scan t = scan u + chunk_px (sdev u)"
      using waiting_step [OF ih(2,1,3) st] nr by blast+
    have cu: "chunk_px (sdev u) = chunk_px (sdev s)" by (rule geometry_same(3) [OF ih(4)])
    obtain k where k: "scan u = scan s + k * chunk_px (sdev s)" using k by blast
    have "scan t = scan s + k * chunk_px (sdev s) \<or> scan t = scan s + Suc k * chunk_px (sdev s)"
      using ws(3) unfolding cu k by (simp add: algebra_simps)
    then have "\<exists>k. scan t = scan s + k * chunk_px (sdev s)" by blast
    moreover have "sys_inv t" by (rule sys_step_inv [OF st ih(2)])
    ultimately show ?case using ws(1,2) ih(4) nr by simp
  qed
  moreover have "scan t < frame_px (sdev t)" if "sys_inv t" using that by (simp add: sys_inv_def)
  ultimately show ?thesis using geometry_same(4) by metis
qed

end
