(* ===== verification/Sync_Refinement.thy ===== *)
theory Sync_Refinement
  imports Sync
begin

text \<open>
  The spec's abstract handshake (sections 3 and 4.3): a \<open>SyncState\<close> of a ready flag and
  a front index, and the producer's position, \<open>Drawing\<close> or \<open>ReadyWaiting\<close>. Its
  operations are \<open>signalReadyAndWait\<close> (set the flag and block) and \<open>onBoundary\<close>
  (test and clear the flag; if it was set, flip the front index and release the
  producer, which is drawing again). The concrete handshake of \<^theory_text>\<open>Sync\<close> refines it
  under the abstraction \<open>sync_abs\<close>: every concrete step is an abstract step or leaves
  the abstract state unchanged (the producer's return from its blocked take, which the
  spec folds into the swap).
\<close>

subsection \<open>The abstract specification\<close>

datatype producer_state = ADrawing | AReadyWaiting

record sync_spec =
  ready_pending :: bool
  front_index :: nat
  producer_state :: producer_state

definition spec_start :: "sync_spec \<Rightarrow> bool" where
  "spec_start a \<longleftrightarrow> \<not> ready_pending a \<and> front_index a < 2 \<and> producer_state a = ADrawing"

inductive spec_step :: "sync_spec \<Rightarrow> sync_spec \<Rightarrow> bool" where
  spec_signal: "producer_state a = ADrawing \<Longrightarrow>
     spec_step a (a\<lparr>ready_pending := True, producer_state := AReadyWaiting\<rparr>)"
| spec_swap: "ready_pending a \<Longrightarrow>
     spec_step a (a\<lparr>ready_pending := False, front_index := 1 - front_index a,
                    producer_state := ADrawing\<rparr>)"
| spec_idle: "\<not> ready_pending a \<Longrightarrow> spec_step a a"

inductive spec_reach :: "sync_spec \<Rightarrow> bool" where
  start: "spec_start a \<Longrightarrow> spec_reach a"
| step: "spec_reach a \<Longrightarrow> spec_step a b \<Longrightarrow> spec_reach b"

text \<open>The spec's invariants: exactly one front index of two (so the back buffer is the
  other one), and a pending flag only while the producer waits.\<close>

definition spec_inv :: "sync_spec \<Rightarrow> bool" where
  "spec_inv a \<longleftrightarrow> front_index a < 2 \<and> (ready_pending a \<longrightarrow> producer_state a = AReadyWaiting)"

subsection \<open>The abstraction\<close>

definition sync_abs :: "sync_state \<Rightarrow> sync_spec" where
  "sync_abs s =
     \<lparr>ready_pending = sem_gui_ready (dev s), front_index = frame_buffer_index (dev s),
      producer_state = (if prod s = Waiting \<and> \<not> sem_vsync_end (dev s) then AReadyWaiting else ADrawing)\<rparr>"

subsection \<open>Simulation\<close>

lemma spec_step_inv: "spec_step a b \<Longrightarrow> spec_inv a \<Longrightarrow> spec_inv b"
  by (induction rule: spec_step.induct) (auto simp: spec_inv_def)

lemma spec_reach_inv: "spec_reach a \<Longrightarrow> spec_inv a"
proof (induction rule: spec_reach.induct)
  case (start a)
  then show ?case by (simp add: spec_inv_def spec_start_def)
next
  case (step a b)
  then show ?case by (blast intro: spec_step_inv)
qed

lemma sync_abs_start: "sync_start v \<Longrightarrow> spec_start (sync_abs (sync_init v))"
  by (simp add: spec_start_def sync_abs_def sync_init_def sync_start_def)

lemma sync_step_simulation:
  assumes inv: "sync_inv s" and st: "sync_step s t"
  shows "spec_step (sync_abs s) (sync_abs t) \<or> sync_abs t = sync_abs s"
  using st
proof (cases rule: sync_step.cases)
  case signal
  then have "sync_abs t = (sync_abs s)\<lparr>ready_pending := True, producer_state := AReadyWaiting\<rparr>"
    using inv by (simp add: sync_abs_def sync_inv_def vsync_wait_give_def sem_give_def)
  moreover have "producer_state (sync_abs s) = ADrawing" using signal by (simp add: sync_abs_def)
  ultimately show ?thesis by (simp add: spec_step.spec_signal)
next
  case (resume v')
  then show ?thesis using inv by (auto simp: sync_abs_def sync_inv_def vsync_wait_take_Some)
next
  case (chunk pos)
  show ?thesis
  proof (cases "swap_threshold (dev s) \<le> pos \<and> sem_gui_ready (dev s)")
    case True
    then have "prod s = Waiting" and "frame_buffer_index (dev s) < 2"
      using inv by (auto simp: sync_inv_def split: producer.splits)
    then have eq: "sync_abs t = (sync_abs s)\<lparr>ready_pending := False,
        front_index := 1 - front_index (sync_abs s), producer_state := ADrawing\<rparr>"
      using chunk True by (auto simp: sync_abs_def boundary_hook_fire)
    have "ready_pending (sync_abs s)" using True by (simp add: sync_abs_def)
    then have "spec_step (sync_abs s) (sync_abs t)" unfolding eq by (rule spec_step.spec_swap)
    then show ?thesis ..
  next
    case False
    then have "boundary_hook (dev s) pos = dev s"
      by (auto simp: boundary_hook_idle boundary_hook_before)
    then show ?thesis using chunk by simp
  qed
qed

lemma sync_reach_abs: "sync_reach s \<Longrightarrow> spec_reach (sync_abs s)"
proof (induction rule: sync_reach.induct)
  case (start v)
  then show ?case by (intro spec_reach.start sync_abs_start)
next
  case (step s t)
  then show ?case
    using sync_step_simulation [OF sync_reach_invariant [OF step.hyps(1)] step.hyps(2)]
    by (auto intro: spec_reach.step)
qed

text \<open>C19. Refinement of the spec's handshake: from every reachable state, each concrete
  step (the producer's signal, its return from the blocked take, an interrupt chunk)
  is a step of the spec's \<open>SyncState\<close> machine under \<open>sync_abs\<close>, or leaves the abstract
  state unchanged.\<close>

theorem sync_refines_spec:
  assumes "sync_reach s" and "sync_step s t"
  shows "spec_step (sync_abs s) (sync_abs t) \<or> sync_abs t = sync_abs s"
  using sync_step_simulation [OF sync_reach_invariant [OF assms(1)] assms(2)] .

text \<open>C20. Every reachable concrete state is the image of a reachable state of the
  spec's machine, so the spec's invariants hold of the code: the front index is one of
  two buffers, and the ready flag is pending only while the producer waits for a swap.\<close>

theorem sync_reach_spec:
  assumes "sync_reach s"
  shows "spec_reach (sync_abs s) \<and> frame_buffer_index (dev s) < 2 \<and>
         (sem_gui_ready (dev s) \<longrightarrow> prod s = Waiting \<and> \<not> sem_vsync_end (dev s))"
proof -
  have r: "spec_reach (sync_abs s)" by (rule sync_reach_abs [OF assms])
  have "spec_inv (sync_abs s)" by (rule spec_reach_inv [OF r])
  then show ?thesis using r
    by (auto simp: spec_inv_def sync_abs_def split: if_splits)
qed

end
