(* ===== verification/Spec2Isabelle.thy ===== *)
theory Spec2Isabelle
  imports Scanout Sync_Refinement
begin

text \<open>
  \<^bold>\<open>A verification of the ESP32-S3 VGA driver (\<^verbatim>\<open>src/src/VGA.h\<close>, \<^verbatim>\<open>src/src/VGA.cpp\<close>).\<close>

  \<^bold>\<open>The program.\<close> Class \<open>VGA\<close> drives an RGB LCD peripheral from a logical frame that is
  \<open>scale\<close> times smaller than the screen, in 8-bit colour or with two 3-bit pixels per
  byte. \<open>VGA::init\<close> allocates two frame buffers and configures the panel with bounce
  buffers of \<open>height / 10\<close> lines. The drawing task writes into the buffer that
  \<open>getDrawBuffer\<close> returns and calls \<open>vsyncWait\<close>. For every chunk of the physical
  pixel stream the panel driver calls \<open>VGA::bounceEvent\<close> in interrupt context, which
  (a) converts the chunk from the front buffer into the bounce buffer and (b) near
  the end of the frame takes the ready semaphore and, if it was given, swaps the front
  index and releases the drawing task.

  \<^bold>\<open>Theories.\<close>
  \<^item> \<^theory_text>\<open>Prelude\<close>: bytes are \<open>8 word\<close>, memory is \<open>byte list\<close>, and \<open>read_bytes\<close>,
    \<open>write_bytes\<close>, \<open>copy_within\<close> (\<open>memcpy\<close>) return \<open>None\<close> on the accesses that are
    undefined behaviour in C. The \<open>for\<close> loop with a constant stride is
    \<open>partial_function (option) for_loop\<close>; \<open>for_loop_repeat\<close> shows that with a positive
    stride it runs a computable number of rounds, and \<open>for_loop_zero_stride\<close> that
    with stride 0 it is \<open>None\<close> (no fuel is involved).
  \<^item> \<^theory_text>\<open>Panel\<close>: the \<open>esp_lcd_rgb_panel_config_t\<close> that \<open>init\<close> builds
    (\<open>panel_config\<close>). It covers the default pin macros, the data-pin loop over the
    caller's \<open>pins\<close> array (\<open>data_gpio_config\<close>; reading past the array is \<open>None\<close>), and
    the pixel clock and porch tables (\<open>pixel_clock_hz\<close>, \<open>panel_timings\<close>).
  \<^item> \<^theory_text>\<open>FrameStore\<close>: every field of \<open>VGA\<close> as \<open>record vga\<close>. \<open>_panel_handle\<close> is
    the configuration the panel was created from. Also the constructor
    (\<open>vga_new\<close>), the getters, \<open>getDrawBuffer\<close> (\<open>get_draw_buffer\<close>) and the
    well-formedness \<open>vga_wf\<close>. \<open>init\<close> is modelled with its error paths: division by
    zero, pins out of bounds, allocation failure, \<open>memset\<close> overflow. The allocator is a
    parameter that may fail. The semaphore creation and the \<open>ESP_ERROR_CHECK\<close>ed
    peripheral calls are assumed to succeed.
  \<^item> \<^theory_text>\<open>Converter\<close>: the conversion half of \<open>bounceEvent\<close> (\<open>bounce_fill\<close>) with its
    four branches, the unrolled loop bodies (\<open>block_1x3\<close>, \<open>block_2x8\<close>,
    \<open>block_2x3\<close>), the per-line loops (\<open>row_*\<close>) and the line copy
    (\<open>replicate_line\<close>). The spec's contract is the reference stream
    \<open>physical_stream\<close>; \<open>geometry_ok\<close> and \<open>request_ok\<close> are the supported modes and
    the line-aligned requests.
  \<^item> \<^theory_text>\<open>Sync\<close>: \<open>vsyncWait\<close> and the swap at the end of \<open>bounceEvent\<close>
    (\<open>boundary_hook\<close>), with the binary semaphores as booleans (\<open>sem_give\<close>,
    \<open>sem_take\<close>). The handshake is \<open>inductive sync_step\<close> over the device and the
    producer's position, and its reachable states are \<open>sync_reach\<close>.
  \<^item> \<^theory_text>\<open>Sync_Refinement\<close>: the spec's abstract handshake (\<open>SyncState\<close>:
    ready flag, front index, producer \<open>Drawing\<close> or \<open>ReadyWaiting\<close>) as
    \<open>inductive spec_step\<close>. The abstraction \<open>sync_abs\<close> maps the concrete state
    onto it: the ready flag is the ready token, and the producer counts as released as
    soon as the release token is given.
  \<^item> \<^theory_text>\<open>Scanout\<close>: the whole system. \<open>bounce_event\<close> is \<open>bounceEvent\<close> (conversion,
    then swap). The scanout engine is modelled from the spec because the driver is
    not in the repository: \<open>next_pos\<close> walks the frame in chunks of \<open>chunk_px\<close> pixels,
    the size \<open>init\<close> configures. \<open>draw_pixel\<close> is a write of the drawing task, and
    \<open>vsync_event\<close> is \<open>vsyncEvent\<close>.
    \<open>inductive sys_step\<close> interleaves these with the handshake, and ghost fields record
    the scan position and the bytes of the current frame already sent to the screen.

  \<^bold>\<open>What is shown.\<close>
  \<^item> The conversion is correct on the requests it supports (C1): a scale of 1 or 2, 8 or
    3 colour bits, and a frame width that is a multiple of the unrolled block. The
    request must be whole physical lines, with start and count multiples of the scale.
    Consequences: vertical replication at scale 2 (C11), and independence from the
    bounce buffer's previous content with the exact output length (C15). Requests
    outside these conditions are the findings below.
  \<^item> The spec's \<open>Packed3x2\<close> encoding round-trips through the code's decoder
    \<open>unpack_pair\<close> (C21).
    Unpacking and repacking a byte drops exactly bits 3 and 7 (C22). Every byte of
    3-bit output is a 3-bit colour (C23).
  \<^item> The handshake:
    \<^item> the swap flips the front buffer only when signalled and past the threshold (C3);
    \<^item> an invariant of all interleavings (C4);
    \<^item> the front buffer is stable while the producer draws (C5);
    \<^item> \<open>vsyncWait\<close> returns after exactly one swap (C6) and is released by the next
      threshold chunk (C7);
    \<^item> the swap falls on the last of the ten chunks (C9);
    \<^item> \<open>getDrawBuffer\<close> returns the back buffer (C14);
    \<^item> the handshake refines the spec's abstract machine step by step (C19), so the
      spec's invariants hold of every reachable concrete state (C20).
  \<^item> The system never tears: every frame sent to the screen is the reference
    conversion of one front buffer that was not modified while it was scanned out,
    including the last chunk, during which the swap happens (C8).
  \<^item> In every reachable system state the interrupt can serve the next chunk without
    undefined behaviour (C28). A blocked drawing task is released by at most one frame
    of chunks and then resumes (C27). The proof is an induction on the chunks left
    in the frame. This holds under every interleaving, not only along one schedule.
    Until its release, every step keeps the task waiting, and each interrupt
    advances the scan position by exactly one chunk (C30). Along any run before the
    release, the position moves forward by whole chunks and never wraps to the next
    frame (C31). So the variant \<open>frame_px - scan\<close> bounds the interrupts before the
    release, whatever \<open>vsyncEvent\<close> and the task do.
  \<^item> \<open>init\<close>:
    \<^item> it succeeds in the 8-bit modes (C12);
    \<^item> it fails with an allocation error when a buffer cannot be obtained (C18);
    \<^item> it reads the caller's pins out of bounds exactly when there are fewer than
      \<open>min bits 8\<close> of them (C24);
    \<^item> at the supported resolutions it starts the whole system with the chunk size
      the engine uses (C26).
  \<^item> Findings:
    \<^item> \<open>init\<close> in 3-bit mode \<open>memset\<close>s twice the allocated size (C2);
    \<^item> at scale 2 a one-line request converts nothing, contrary to the spec's
      end-to-end scenario (C10);
    \<^item> unsupported modes are not rejected and leave the bounce buffer stale (C13);
    \<^item> the 35-line chunks of the 640x350 mode are converted wrongly at scale 2: the
      chunks that start at odd lines start half a row off, and every chunk leaves its
      last line stale (C16);
    \<^item> the unrolled loops need widths that are multiples of their block: otherwise a
      whole-frame request reads past the frame buffer, at scale 1 (C17) and at
      scale 2 (C29);
    \<^item> an unsupported resolution is accepted with a zero pixel clock (C25).

  \<^bold>\<open>Not modelled.\<close>
  \<^item> The ESP-IDF driver: panel creation, reset, timing generation and DMA. It is not
    in the repository; only the configuration it receives and the order of its chunk
    requests are modelled.
  \<^item> \<open>ESP_LOGI\<close> logging, which has no effect on the state.
  \<^item> The members that \<^verbatim>\<open>VGA.h\<close> declares but \<^verbatim>\<open>VGA.cpp\<close> never defines
    (\<open>initWithSize\<close>, \<open>deinit\<close>, \<open>validConfig\<close>, \<open>swapBuffers\<close>).
  \<^item> Timing: the model lets the interrupt run at any point between producer steps,
    which over-approximates the real schedule.

  Every function body of \<^verbatim>\<open>VGA.cpp\<close> is modelled. The lines left out are the
  \<open>#include\<close>s, \<open>ESP_LOGI\<close> calls and the calls into ESP-IDF whose effect lies in the
  driver (\<open>esp_lcd_panel_reset\<close>, \<open>esp_lcd_panel_init\<close>, the callback registration).
  Of \<^verbatim>\<open>VGA.h\<close> the model covers the pin macros and the fields. Its remaining lines
  are declarations without a body, and they have no behaviour to model. The scanout
  engine is the one component modelled from the spec rather than the code
  (\<open>frame_px\<close>, \<open>next_pos\<close>, \<open>sys_step\<close>). Nothing more can be modelled faithfully
  without the ESP-IDF sources.
\<close>

subsection \<open>Concrete configurations used by the witnesses\<close>

text \<open>A 20x2 screen at scale 2 in 3-bit mode: a 10x1 logical frame packed in 5 bytes.\<close>

definition demo_packed :: vga where
  "demo_packed =
     \<lparr>sem_vsync_end = False, sem_gui_ready = False,
      frame_buffers = [[0x21, 0x43, 0x65, 0x07, 0xF2], [0, 0, 0, 0, 0]],
      frame_buffer_index = 0, frame_width = 10, frame_height = 1, screen_width = 20,
      screen_height = 2, frame_scale = 2, color_bits = 3, bounce_buffer_lines = 0,
      panel_handle = None, h_border = 0, v_border = 0, last_bounce_buffer_pos = 0,
      frame_buffers_in_psram = False\<rparr>"

text \<open>A run of the handshake on that device: the producer signals, the chunk at the swap
  threshold (line 2 of 2, offset 40) swaps, the producer resumes.\<close>

definition demo_waiting :: sync_state where
  "demo_waiting = \<lparr>dev = demo_packed\<lparr>sem_gui_ready := True\<rparr>, prod = Waiting, signalled_front = 0\<rparr>"

definition demo_swapped :: sync_state where
  "demo_swapped =
     \<lparr>dev = demo_packed\<lparr>frame_buffer_index := 1, sem_vsync_end := True\<rparr>,
      prod = Waiting, signalled_front = 0\<rparr>"

definition demo_resumed :: sync_state where
  "demo_resumed = \<lparr>dev = demo_packed\<lparr>frame_buffer_index := 1\<rparr>, prod = Drawing, signalled_front = 0\<rparr>"

text \<open>A 20x4 screen at scale 2 in 3-bit mode with chunks of two lines: a 10x2 logical
  frame in 10 bytes, and what the first chunk shows.\<close>

definition demo_scan :: vga where
  "demo_scan =
     \<lparr>sem_vsync_end = False, sem_gui_ready = False,
      frame_buffers = [[0x21, 0x43, 0x65, 0x07, 0xF2, 0x10, 0x32, 0x54, 0x76, 0x01],
                       replicate 10 0],
      frame_buffer_index = 0, frame_width = 10, frame_height = 2, screen_width = 20,
      screen_height = 4, frame_scale = 2, color_bits = 3, bounce_buffer_lines = 2,
      panel_handle = None, h_border = 0, v_border = 0, last_bounce_buffer_pos = 0,
      frame_buffers_in_psram = False\<rparr>"

definition demo_out :: buffer where
  "demo_out = [1,1,2,2,3,3,4,4,5,5,6,6,7,7,0,0,2,2,7,7,
               1,1,2,2,3,3,4,4,5,5,6,6,7,7,0,0,2,2,7,7]"

text \<open>The system after the interrupt has served the first chunk.\<close>

definition demo_sys1 :: sys where
  "demo_sys1 = \<lparr>hs = sync_init demo_scan, scan = 40, bbuf = demo_out, shown = demo_out, held = None\<rparr>"

text \<open>The producer then signals; the last chunk of the frame swaps the buffers and shows
  the rest of the old front buffer.\<close>

definition demo_sys2 :: sys where
  "demo_sys2 =
     \<lparr>hs = \<lparr>dev = demo_scan\<lparr>sem_gui_ready := True\<rparr>, prod = Waiting, signalled_front = 0\<rparr>,
      scan = 40, bbuf = demo_out, shown = demo_out, held = None\<rparr>"

definition demo_out2 :: buffer where
  "demo_out2 = [0,0,1,1,2,2,3,3,4,4,5,5,6,6,7,7,1,1,0,0,
                0,0,1,1,2,2,3,3,4,4,5,5,6,6,7,7,1,1,0,0]"

text \<open>The same system just after the producer signalled (before the first chunk), and after
  the last chunk of the frame has released it.\<close>

definition demo_sys0 :: sys where
  "demo_sys0 = demo_sys2\<lparr>scan := 0, bbuf := replicate 40 0, shown := []\<rparr>"

definition demo_sys3 :: sys where
  "demo_sys3 =
     \<lparr>hs = \<lparr>dev = demo_scan\<lparr>frame_buffer_index := 1, sem_vsync_end := True\<rparr>, prod = Waiting,
            signalled_front = 0\<rparr>,
      scan = 0, bbuf = demo_out2, shown = [], held = None\<rparr>"

text \<open>The spec's end-to-end geometry: 640x480 at scale 2 in 8-bit mode, the front frame
  filled with 9, chunks of 48 lines as \<open>init\<close> configures them.\<close>

definition v640 :: vga where
  "v640 =
     \<lparr>sem_vsync_end = False, sem_gui_ready = False,
      frame_buffers = [replicate 76800 9, replicate 76800 0],
      frame_buffer_index = 0, frame_width = 320, frame_height = 240, screen_width = 640,
      screen_height = 480, frame_scale = 2, color_bits = 8, bounce_buffer_lines = 48,
      panel_handle = None, h_border = 0, v_border = 0, last_bounce_buffer_pos = 0,
      frame_buffers_in_psram = False\<rparr>"

text \<open>The 640x350 mode at scale 2 in 8-bit colour as \<open>init\<close> configures it (35-line chunks),
  with the front frame filled with 9.\<close>

definition v350 :: vga where
  "v350 =
     \<lparr>sem_vsync_end = False, sem_gui_ready = False,
      frame_buffers = [replicate 56000 9, replicate 56000 0],
      frame_buffer_index = 0, frame_width = 320, frame_height = 175, screen_width = 640,
      screen_height = 350, frame_scale = 2, color_bits = 8, bounce_buffer_lines = 35,
      panel_handle = None, h_border = 0, v_border = 0, last_bounce_buffer_pos = 0,
      frame_buffers_in_psram = False\<rparr>"

text \<open>A 4x1 frame at scale 1 in 3-bit mode, packed in 2 bytes.\<close>

definition demo_narrow :: vga where
  "demo_narrow =
     \<lparr>sem_vsync_end = False, sem_gui_ready = False, frame_buffers = [[0x21, 0x43], [0, 0]],
      frame_buffer_index = 0, frame_width = 4, frame_height = 1, screen_width = 4,
      screen_height = 1, frame_scale = 1, color_bits = 3, bounce_buffer_lines = 0,
      panel_handle = None, h_border = 0, v_border = 0, last_bounce_buffer_pos = 0,
      frame_buffers_in_psram = False\<rparr>"

text \<open>An 8x2 screen at scale 2 in 8-bit mode: a 4x1 logical frame, narrower than one
  unrolled block.\<close>

definition demo_narrow2 :: vga where
  "demo_narrow2 =
     \<lparr>sem_vsync_end = False, sem_gui_ready = False, frame_buffers = [[1, 2, 3, 4], [0, 0, 0, 0]],
      frame_buffer_index = 0, frame_width = 4, frame_height = 1, screen_width = 8,
      screen_height = 2, frame_scale = 2, color_bits = 8, bounce_buffer_lines = 0,
      panel_handle = None, h_border = 0, v_border = 0, last_bounce_buffer_pos = 0,
      frame_buffers_in_psram = False\<rparr>"

theorem bounce_fill_correct_witness:
  "vga_wf demo_packed \<and> geometry_ok demo_packed \<and> request_ok demo_packed 0 2 \<and>
   length (replicate 40 (0::byte)) = 2 * screen_width demo_packed \<and>
   bounce_fill demo_packed (0 * screen_width demo_packed) (2 * screen_width demo_packed)
     (replicate 40 0)
   = Some (physical_stream demo_packed (front_buffer demo_packed) (0 * screen_width demo_packed)
             (2 * screen_width demo_packed))"
proof -
  have h: "vga_wf demo_packed" "geometry_ok demo_packed" "request_ok demo_packed 0 2"
    "length (replicate 40 (0::byte)) = 2 * screen_width demo_packed"
    by (simp_all add: demo_packed_def vga_wf_def fb_size_def geometry_ok_def request_ok_def)
  show ?thesis using h bounce_fill_correct [OF h] by blast
qed


subsection \<open>Witnesses\<close>

lemma demo_start: "sync_reach (sync_init demo_packed)"
  by (rule sync_reach.start) (simp add: sync_start_def demo_packed_def)

lemma demo_step_signal: "sync_step (sync_init demo_packed) demo_waiting"
proof -
  have "sync_step (sync_init demo_packed)
     ((sync_init demo_packed)\<lparr>dev := vsync_wait_give (dev (sync_init demo_packed)), prod := Waiting,
        signalled_front := frame_buffer_index (dev (sync_init demo_packed))\<rparr>)"
    by (rule sync_step.signal) (simp add: sync_init_def)
  then show ?thesis
    by (simp add: demo_waiting_def sync_init_def vsync_wait_give_def sem_give_def demo_packed_def)
qed

lemma demo_step_swap: "sync_step demo_waiting demo_swapped"
proof -
  have "sync_step demo_waiting (demo_waiting\<lparr>dev := boundary_hook (dev demo_waiting) 40\<rparr>)"
    by (rule sync_step.chunk)
  moreover have "boundary_hook (dev demo_waiting) 40 = dev demo_swapped"
    by (simp add: boundary_hook_def swap_threshold_def sem_take_def sem_give_def demo_waiting_def
                  demo_swapped_def demo_packed_def)
  ultimately show ?thesis by (simp add: demo_waiting_def demo_swapped_def)
qed

lemma demo_step_resume: "sync_step demo_swapped demo_resumed"
proof -
  have "sync_step demo_swapped (demo_swapped\<lparr>dev := (dev demo_swapped)\<lparr>sem_vsync_end := False\<rparr>, prod := Drawing\<rparr>)"
    by (rule sync_step.resume) (simp_all add: demo_swapped_def vsync_wait_take_def sem_take_def)
  then show ?thesis by (simp add: demo_swapped_def demo_resumed_def demo_packed_def)
qed

lemma demo_reach_swapped: "sync_reach demo_swapped"
  using demo_start demo_step_signal demo_step_swap by (blast intro: sync_reach.step)

theorem boundary_swap_witness:
  "frame_buffer_index (dev demo_waiting) < 2 \<and>
   frame_buffer_index (boundary_hook (dev demo_waiting) 40) = 1 - frame_buffer_index (dev demo_waiting) \<and>
   \<not> sem_gui_ready (boundary_hook (dev demo_waiting) 40) \<and> sem_vsync_end (boundary_hook (dev demo_waiting) 40) \<and>
   boundary_hook (dev demo_waiting) 20 = dev demo_waiting"
proof -
  have h: "frame_buffer_index (dev demo_waiting) < 2" by (simp add: demo_waiting_def demo_packed_def)
  have g: "swap_threshold (dev demo_waiting) \<le> 40 \<and> sem_gui_ready (dev demo_waiting)"
    and n: "\<not> (swap_threshold (dev demo_waiting) \<le> 20 \<and> sem_gui_ready (dev demo_waiting))"
    by (simp_all add: swap_threshold_def demo_waiting_def demo_packed_def)
  show ?thesis using h g n boundary_swap [OF h, of 40] boundary_swap [OF h, of 20] by blast
qed

theorem sync_reach_inv_witness: "sync_reach demo_swapped \<and> sync_inv demo_swapped"
  using demo_reach_swapped sync_reach_inv [OF demo_reach_swapped] by blast

theorem front_stable_while_drawing_witness:
  "sync_reach (sync_init demo_packed) \<and> prod (sync_init demo_packed) = Drawing \<and>
   sync_step (sync_init demo_packed) demo_waiting \<and>
   frame_buffer_index (dev demo_waiting) = frame_buffer_index (dev (sync_init demo_packed))"
proof -
  have d: "prod (sync_init demo_packed) = Drawing" by (simp add: sync_init_def)
  show ?thesis
    using demo_start d demo_step_signal front_stable_while_drawing [OF demo_start d demo_step_signal] by blast
qed

theorem wait_returns_after_one_swap_witness:
  "sync_reach demo_swapped \<and> prod demo_swapped = Waiting \<and> sync_step demo_swapped demo_resumed \<and>
   prod demo_resumed = Drawing \<and> frame_buffer_index (dev demo_resumed) = 1 - signalled_front demo_swapped"
proof -
  have w: "prod demo_swapped = Waiting" and d: "prod demo_resumed = Drawing"
    by (simp_all add: demo_swapped_def demo_resumed_def)
  show ?thesis
    using demo_reach_swapped w demo_step_resume d
      wait_returns_after_one_swap [OF demo_reach_swapped w demo_step_resume d] by blast
qed

theorem producer_released_witness:
  "sync_reach demo_swapped \<and> prod demo_swapped = Waiting \<and> swap_threshold (dev demo_swapped) \<le> 40 \<and>
   (\<exists>t. sync_step (demo_swapped\<lparr>dev := boundary_hook (dev demo_swapped) 40\<rparr>) t \<and> prod t = Drawing)"
proof -
  have w: "prod demo_swapped = Waiting" by (simp add: demo_swapped_def)
  have th: "swap_threshold (dev demo_swapped) \<le> 40"
    by (simp add: swap_threshold_def demo_swapped_def demo_packed_def)
  show ?thesis using demo_reach_swapped w th producer_released [OF demo_reach_swapped w th] by blast
qed

lemma demo_rounds: "rounds 10 10 0 = 1" by (simp add: rounds_def)

lemma demo_block: "block_2x3 [0x21, 0x43, 0x65, 0x07, 0xF2, 0x10, 0x32, 0x54, 0x76, 0x01]
   \<lparr>pptr = 0, bbptr = 0, bounce = replicate 40 0\<rparr> =
   Some \<lparr>pptr = 5, bbptr = 20, bounce = take 20 demo_out @ replicate 20 0\<rparr>"
  by (simp add: block_2x3_def expand_block_def read_bytes_def write_bytes_def
     splice_at_def unpack_pair_dup_def demo_out_def)

lemma demo_scan_fill: "bounce_fill demo_scan 0 40 (replicate 40 0) = Some demo_out"
proof -
  have "row_2x3 10 20 [0x21, 0x43, 0x65, 0x07, 0xF2, 0x10, 0x32, 0x54, 0x76, 0x01]
   \<lparr>pptr = 0, bbptr = 0, bounce = replicate 40 0\<rparr> = Some \<lparr>pptr = 5, bbptr = 40, bounce = demo_out\<rparr>"
    by (simp add: row_2x3_def for_loop_repeat demo_rounds demo_block replicate_line_def copy_within_def
        read_bytes_def write_bytes_def splice_at_def demo_out_def)
  then show ?thesis
    by (simp add: bounce_fill_def demo_scan_def for_loop_repeat rounds_def)
qed

lemma demo_sys_start: "sys_reach (sys_init demo_scan (replicate 40 0))"
  by (rule sys_reach.start)
     (simp_all add: sync_start_def vga_wf_def scan_ok_def geometry_ok_def fb_size_def
        chunk_px_def demo_scan_def)

lemma demo_sys_isr: "sys_step (sys_init demo_scan (replicate 40 0)) demo_sys1"
proof -
  have e: "bounce_event (sdev (sys_init demo_scan (replicate 40 0))) (scan (sys_init demo_scan (replicate 40 0)))
      (chunk_px (sdev (sys_init demo_scan (replicate 40 0)))) (bbuf (sys_init demo_scan (replicate 40 0)))
    = Some (demo_scan, demo_out)"
  proof -
    have "boundary_hook demo_scan 0 = demo_scan" by (simp add: boundary_hook_idle demo_scan_def)
    moreover have "chunk_px demo_scan = 40" by (simp add: chunk_px_def demo_scan_def)
    ultimately show ?thesis using demo_scan_fill
      by (simp add: bounce_event_def sys_init_def sync_init_def)
  qed
  have "next_pos demo_scan 0 = 40"
    by (simp add: next_pos_def frame_px_def chunk_px_def demo_scan_def)
  then show ?thesis
    using sys_step.isr [OF e] by (simp add: sys_init_def sync_init_def demo_sys1_def)
qed

lemma demo_sys_signal: "sys_step demo_sys1 demo_sys2"
proof -
  have "sync_step (hs demo_sys1)
     ((hs demo_sys1)\<lparr>dev := vsync_wait_give (dev (hs demo_sys1)), prod := Waiting,
        signalled_front := frame_buffer_index (dev (hs demo_sys1))\<rparr>)"
    by (rule sync_step.signal) (simp add: demo_sys1_def sync_init_def)
  then have "sys_step demo_sys1 (demo_sys1\<lparr>hs := (hs demo_sys1)\<lparr>dev := vsync_wait_give (dev (hs demo_sys1)),
      prod := Waiting, signalled_front := frame_buffer_index (dev (hs demo_sys1))\<rparr>, held := None\<rparr>)"
    by (rule sys_step.producer) (simp add: demo_sys1_def sync_init_def)
  then show ?thesis
    by (simp add: demo_sys1_def demo_sys2_def sync_init_def vsync_wait_give_def sem_give_def demo_scan_def)
qed

lemma demo_block2: "block_2x3 [0x21, 0x43, 0x65, 0x07, 0xF2, 0x10, 0x32, 0x54, 0x76, 0x01]
   \<lparr>pptr = 5, bbptr = 0, bounce = demo_out\<rparr> =
   Some \<lparr>pptr = 10, bbptr = 20, bounce = take 20 demo_out2 @ drop 20 demo_out\<rparr>"
  by (simp add: block_2x3_def expand_block_def read_bytes_def write_bytes_def
     splice_at_def unpack_pair_dup_def demo_out_def demo_out2_def)

lemma demo_last_fill: "bounce_fill (demo_scan\<lparr>sem_gui_ready := True\<rparr>) 40 40 demo_out = Some demo_out2"
proof -
  have "row_2x3 10 20 [0x21, 0x43, 0x65, 0x07, 0xF2, 0x10, 0x32, 0x54, 0x76, 0x01]
   \<lparr>pptr = 5, bbptr = 0, bounce = demo_out\<rparr> = Some \<lparr>pptr = 10, bbptr = 40, bounce = demo_out2\<rparr>"
    by (simp add: row_2x3_def for_loop_repeat demo_rounds demo_block2)
       (simp add: replicate_line_def copy_within_def read_bytes_def write_bytes_def splice_at_def
          demo_out_def demo_out2_def)
  then show ?thesis
    by (simp add: bounce_fill_def demo_scan_def for_loop_repeat rounds_def)
qed

lemma demo_last_event:
  "bounce_event (sdev demo_sys2) (scan demo_sys2) (chunk_px (sdev demo_sys2)) (bbuf demo_sys2)
     = Some (demo_scan\<lparr>frame_buffer_index := 1, sem_vsync_end := True\<rparr>, demo_out2)"
proof -
  have "boundary_hook (demo_scan\<lparr>sem_gui_ready := True\<rparr>) 40
      = demo_scan\<lparr>frame_buffer_index := 1, sem_vsync_end := True\<rparr>"
    by (simp add: boundary_hook_def swap_threshold_def sem_take_def sem_give_def demo_scan_def)
  moreover have "chunk_px (demo_scan\<lparr>sem_gui_ready := True\<rparr>) = 40"
    by (simp add: chunk_px_def demo_scan_def)
  ultimately show ?thesis using demo_last_fill by (simp add: bounce_event_def demo_sys2_def)
qed

lemma demo_reach_sys2: "sys_reach demo_sys2"
  using demo_sys_start demo_sys_isr demo_sys_signal by (blast intro: sys_reach.step)

lemma demo_sys_signal0: "sys_step (sys_init demo_scan (replicate 40 0)) demo_sys0"
proof -
  let ?s = "sys_init demo_scan (replicate 40 0)"
  have "sync_step (hs ?s) ((hs ?s)\<lparr>dev := vsync_wait_give (dev (hs ?s)), prod := Waiting,
        signalled_front := frame_buffer_index (dev (hs ?s))\<rparr>)"
    by (rule sync_step.signal) (simp add: sys_init_def sync_init_def)
  then have "sys_step ?s (?s\<lparr>hs := (hs ?s)\<lparr>dev := vsync_wait_give (dev (hs ?s)), prod := Waiting,
        signalled_front := frame_buffer_index (dev (hs ?s))\<rparr>, held := None\<rparr>)"
    by (rule sys_step.producer) (simp add: sys_init_def sync_init_def)
  then show ?thesis
    by (simp add: sys_init_def sync_init_def demo_sys0_def demo_sys2_def vsync_wait_give_def
        sem_give_def demo_scan_def)
qed

lemma demo_sys_chunk0: "sys_step demo_sys0 demo_sys2"
proof -
  have f: "bounce_fill (demo_scan\<lparr>sem_gui_ready := True\<rparr>) 0 40 (replicate 40 0) = Some demo_out"
    using demo_scan_fill by (simp add: bounce_fill_def demo_scan_def)
  have e: "bounce_event (sdev demo_sys0) (scan demo_sys0) (chunk_px (sdev demo_sys0)) (bbuf demo_sys0)
      = Some (demo_scan\<lparr>sem_gui_ready := True\<rparr>, demo_out)"
  proof -
    have "boundary_hook (demo_scan\<lparr>sem_gui_ready := True\<rparr>) 0 = demo_scan\<lparr>sem_gui_ready := True\<rparr>"
      by (simp add: boundary_hook_before swap_threshold_def demo_scan_def)
    moreover have "chunk_px (demo_scan\<lparr>sem_gui_ready := True\<rparr>) = 40"
      by (simp add: chunk_px_def demo_scan_def)
    ultimately show ?thesis using f by (simp add: bounce_event_def demo_sys0_def demo_sys2_def)
  qed
  have "next_pos (demo_scan\<lparr>sem_gui_ready := True\<rparr>) 0 = 40"
    by (simp add: next_pos_def frame_px_def chunk_px_def demo_scan_def)
  then show ?thesis
    using sys_step.isr [OF e] by (simp add: demo_sys0_def demo_sys2_def)
qed

lemma demo_sys_last: "sys_step demo_sys2 demo_sys3"
proof -
  have "next_pos (sdev demo_sys2) (scan demo_sys2) = 0"
    by (simp add: next_pos_def frame_px_def chunk_px_def demo_scan_def demo_sys2_def)
  then show ?thesis
    using sys_step.isr [OF demo_last_event] by (simp add: demo_sys2_def demo_sys3_def)
qed

lemma demo_reach_sys0: "sys_reach demo_sys0"
  using demo_sys_start demo_sys_signal0 by (blast intro: sys_reach.step)

theorem no_tearing_witness:
  "sys_reach demo_sys2 \<and>
   bounce_event (sdev demo_sys2) (scan demo_sys2) (chunk_px (sdev demo_sys2)) (bbuf demo_sys2)
     = Some (demo_scan\<lparr>frame_buffer_index := 1, sem_vsync_end := True\<rparr>, demo_out2) \<and>
   shown demo_sys2 @ demo_out2
     = physical_stream (sdev demo_sys2) (front_buffer (sdev demo_sys2)) 0
         (scan demo_sys2 + chunk_px (sdev demo_sys2))"
proof -
  show ?thesis
    using demo_reach_sys2 demo_last_event no_tearing [OF demo_reach_sys2 demo_last_event] by blast
qed

theorem scale2_single_line_noop_witness:
  "frame_scale v640 = 2 \<and> 0 < frame_width v640 \<and> screen_width v640 = 2 * frame_width v640 \<and>
   frame_buffer_index v640 < length (frame_buffers v640) \<and>
   bounce_fill v640 0 (screen_width v640) (replicate 640 0) = Some (replicate 640 0)"
proof -
  have h: "frame_scale v640 = 2" "0 < frame_width v640" "screen_width v640 = 2 * frame_width v640"
    "frame_buffer_index v640 < length (frame_buffers v640)" by (simp_all add: v640_def)
  show ?thesis using h scale2_single_line_noop [OF h, of 0 "replicate 640 0"] by blast
qed

theorem swap_on_last_chunk_witness:
  "0 < screen_width v640 \<and> 0 < bounce_buffer_lines v640 \<and>
   screen_height v640 = 10 * bounce_buffer_lines v640 \<and>
   swap_threshold v640 \<le> 9 * chunk_px v640 \<and> \<not> swap_threshold v640 \<le> 8 * chunk_px v640"
proof -
  have h: "0 < screen_width v640" "0 < bounce_buffer_lines v640"
    "screen_height v640 = 10 * bounce_buffer_lines v640" by (simp_all add: v640_def)
  show ?thesis
    using h swap_on_last_chunk [OF h, of 9] swap_on_last_chunk [OF h, of 8] by simp
qed

theorem scale2_vertical_replication_witness:
  "vga_wf demo_scan \<and> geometry_ok demo_scan \<and> request_ok demo_scan 0 2 \<and>
   length (replicate 40 (0::byte)) = 2 * screen_width demo_scan \<and> frame_scale demo_scan = 2 \<and>
   bounce_fill demo_scan (0 * screen_width demo_scan) (2 * screen_width demo_scan) (replicate 40 0)
     = Some demo_out \<and> Suc (2 * 0) < (2::nat) \<and>
   take (screen_width demo_scan) (drop (Suc (2 * 0) * screen_width demo_scan) demo_out)
     = take (screen_width demo_scan) (drop (2 * 0 * screen_width demo_scan) demo_out)"
proof -
  have h: "vga_wf demo_scan" "geometry_ok demo_scan" "request_ok demo_scan 0 2"
    "length (replicate 40 (0::byte)) = 2 * screen_width demo_scan" "frame_scale demo_scan = 2"
    by (simp_all add: demo_scan_def vga_wf_def fb_size_def geometry_ok_def request_ok_def)
  have "0 * screen_width demo_scan = 0" "2 * screen_width demo_scan = 40"
    by (simp_all add: demo_scan_def)
  then have f: "bounce_fill demo_scan (0 * screen_width demo_scan) (2 * screen_width demo_scan)
      (replicate 40 0) = Some demo_out" using demo_scan_fill by simp
  have i: "Suc (2 * 0) < (2::nat)" by simp
  show ?thesis using h f i scale2_vertical_replication [OF h f i] by blast
qed

theorem init_direct8_ok_witness:
  "0 < (2::nat) \<and> (8::nat) \<noteq> 3 \<and> data_gpio_config None 8 \<noteq> None \<and>
   (\<forall>i n. \<exists>g. (\<lambda>(_::bool) (_::nat) (_::nat). Some (\<lambda>_::nat. 0::byte)) False i n = Some g) \<and>
   (\<exists>v' cfg. init (\<lambda>_ _ _. Some (\<lambda>_. 0)) vga_new 640 480 2 8 None False = Inr v' \<and> vga_wf v' \<and>
      \<not> sem_gui_ready v' \<and> \<not> sem_vsync_end v' \<and>
      front_buffer v' = replicate ((640 div 2) * (480 div 2)) 255 \<and>
      panel_handle v' = Some cfg \<and> bounce_buffer_size_px cfg = (480 div 10) * 640)"
proof -
  have h: "0 < (2::nat)" "(8::nat) \<noteq> 3" "data_gpio_config None 8 \<noteq> None"
    "\<And>i n. \<exists>g. (\<lambda>(_::bool) (_::nat) (_::nat). Some (\<lambda>_::nat. 0::byte)) False i n = Some g"
    by (simp_all add: data_gpio_config_def)
  show ?thesis
    using h init_direct8_ok [where width = 640 and height = 480, OF h] by blast
qed

theorem unsupported_mode_passthrough_witness:
  "\<not> ((frame_scale (v640\<lparr>color_bits := 5\<rparr>) = 1 \<or> frame_scale (v640\<lparr>color_bits := 5\<rparr>) = 2) \<and>
      (color_bits (v640\<lparr>color_bits := 5\<rparr>) = 3 \<or> color_bits (v640\<lparr>color_bits := 5\<rparr>) = 8)) \<and>
   0 < frame_scale (v640\<lparr>color_bits := 5\<rparr>) \<and> 0 < frame_width (v640\<lparr>color_bits := 5\<rparr>) \<and>
   frame_buffer_index (v640\<lparr>color_bits := 5\<rparr>) < length (frame_buffers (v640\<lparr>color_bits := 5\<rparr>)) \<and>
   bounce_fill (v640\<lparr>color_bits := 5\<rparr>) 0 1280 (replicate 1280 0) = Some (replicate 1280 0)"
proof -
  have h: "\<not> ((frame_scale (v640\<lparr>color_bits := 5\<rparr>) = 1 \<or> frame_scale (v640\<lparr>color_bits := 5\<rparr>) = 2) \<and>
      (color_bits (v640\<lparr>color_bits := 5\<rparr>) = 3 \<or> color_bits (v640\<lparr>color_bits := 5\<rparr>) = 8))"
    "0 < frame_scale (v640\<lparr>color_bits := 5\<rparr>)" "0 < frame_width (v640\<lparr>color_bits := 5\<rparr>)"
    "frame_buffer_index (v640\<lparr>color_bits := 5\<rparr>) < length (frame_buffers (v640\<lparr>color_bits := 5\<rparr>))"
    by (simp_all add: v640_def)
  show ?thesis using h unsupported_mode_passthrough [OF h, of 0 1280 "replicate 1280 0"] by blast
qed

theorem get_draw_buffer_back_witness:
  "frame_buffer_index demo_packed < 2 \<and>
   get_draw_buffer demo_packed < 2 \<and> get_draw_buffer demo_packed \<noteq> frame_buffer_index demo_packed"
proof -
  have h: "frame_buffer_index demo_packed < 2" by (simp add: demo_packed_def)
  show ?thesis using h get_draw_buffer_back [OF h] by blast
qed

theorem bounce_fill_fresh_witness:
  "vga_wf demo_scan \<and> geometry_ok demo_scan \<and> request_ok demo_scan 0 2 \<and>
   length (replicate 40 (0::byte)) = 2 * screen_width demo_scan \<and>
   length (replicate 40 (7::byte)) = length (replicate 40 (0::byte)) \<and>
   (\<exists>out. bounce_fill demo_scan (0 * screen_width demo_scan) (2 * screen_width demo_scan) (replicate 40 0) = Some out \<and>
      bounce_fill demo_scan (0 * screen_width demo_scan) (2 * screen_width demo_scan) (replicate 40 7) = Some out \<and>
      length out = 2 * screen_width demo_scan)"
proof -
  have h: "vga_wf demo_scan" "geometry_ok demo_scan" "request_ok demo_scan 0 2"
    "length (replicate 40 (0::byte)) = 2 * screen_width demo_scan"
    "length (replicate 40 (7::byte)) = length (replicate 40 (0::byte))"
    by (simp_all add: demo_scan_def vga_wf_def fb_size_def geometry_ok_def request_ok_def)
  show ?thesis using h bounce_fill_fresh [OF h] by blast
qed

theorem odd_line_chunk_2x8_witness:
  "vga_wf v350 \<and> frame_scale v350 = 2 \<and> color_bits v350 = 8 \<and> geometry_ok v350 \<and>
   odd (35::nat) \<and> 1 < (35::nat) \<and> 35 + 35 \<le> 2 * frame_height v350 \<and>
   length (replicate 22400 (0::byte)) = 35 * screen_width v350 \<and>
   (\<exists>out. bounce_fill v350 (35 * screen_width v350) (35 * screen_width v350) (replicate 22400 0) = Some out \<and>
      take (screen_width v350) out
        = concat (map dup_pixel (take (frame_width v350)
            (drop ((35 div 2) * frame_width v350 + frame_width v350 div 2) (front_buffer v350)))) \<and>
      drop ((35 - 1) * screen_width v350) out = drop ((35 - 1) * screen_width v350) (replicate 22400 0)) \<and>
   bounce_fill v350 22400 22400 (replicate 22400 0)
     \<noteq> Some (physical_stream v350 (front_buffer v350) 22400 22400)"
proof -
  have h: "vga_wf v350" "frame_scale v350 = 2" "color_bits v350 = 8" "geometry_ok v350"
    "odd (35::nat)" "1 < (35::nat)" "35 + 35 \<le> 2 * frame_height v350"
    "length (replicate 22400 (0::byte)) = 35 * screen_width v350"
    by (simp_all add: v350_def vga_wf_def fb_size_def geometry_ok_def)
  note th = odd_line_chunk_2x8 [OF h(1-5) h(5) h(6-8)]
  have sw: "35 * screen_width v350 = 22400" "(35 - 1) * screen_width v350 = 21760"
    by (simp_all add: v350_def)
  have ref: "physical_stream v350 (front_buffer v350) 22400 22400 = replicate 22400 9"
  proof -
    have "front_buffer v350 = replicate (frame_width v350 * frame_height v350) 9"
      by (simp add: front_buffer_def v350_def)
    moreover have "physical_stream v350 (replicate (frame_width v350 * frame_height v350) 9) 22400 22400
        = replicate 22400 9"
      using h(4) by (rule physical_stream_uniform) (simp_all add: v350_def)
    ultimately show ?thesis by simp
  qed
  have ne: "bounce_fill v350 22400 22400 (replicate 22400 0)
     \<noteq> Some (physical_stream v350 (front_buffer v350) 22400 22400)"
  proof
    assume eq: "bounce_fill v350 22400 22400 (replicate 22400 0)
        = Some (physical_stream v350 (front_buffer v350) 22400 22400)"
    from th obtain out where o: "bounce_fill v350 22400 22400 (replicate 22400 0) = Some out"
      and d: "drop 21760 out = drop 21760 (replicate 22400 (0::byte))"
      unfolding sw by blast
    have "out = replicate 22400 9" using o eq ref by simp
    with d show False by simp
  qed
  show ?thesis using h th ne by blast
qed

theorem unroll_overrun_1x3_witness:
  "vga_wf demo_narrow \<and> frame_scale demo_narrow = 1 \<and> color_bits demo_narrow = 3 \<and>
   0 < frame_width demo_narrow \<and> \<not> 10 dvd frame_width demo_narrow \<and> 0 < frame_height demo_narrow \<and>
   bounce_fill demo_narrow 0 (frame_height demo_narrow * frame_width demo_narrow) (replicate 4 0) = None"
proof -
  have h: "vga_wf demo_narrow" "frame_scale demo_narrow = 1" "color_bits demo_narrow = 3"
    "0 < frame_width demo_narrow" "\<not> 10 dvd frame_width demo_narrow" "0 < frame_height demo_narrow"
    by (simp_all add: demo_narrow_def vga_wf_def fb_size_def)
  show ?thesis using h unroll_overrun_1x3 [OF h, of "replicate 4 0"] by blast
qed

theorem init_alloc_failure_witness:
  "0 < (2::nat) \<and> data_gpio_config None 8 \<noteq> None \<and>
   ((\<lambda>(_::bool) (i::nat) (_::nat). if i = 0 then Some (\<lambda>_::nat. 0::byte) else None) False 0
       (fb_size (640 div 2) (480 div 2) 8) = None \<or>
    (\<lambda>(_::bool) (i::nat) (_::nat). if i = 0 then Some (\<lambda>_::nat. 0::byte) else None) False 1
       (fb_size (640 div 2) (480 div 2) 8) = None) \<and>
   init (\<lambda>_ i _. if i = 0 then Some (\<lambda>_. 0) else None) vga_new 640 480 2 8 None False = Inl AllocFailed"
proof -
  have h: "0 < (2::nat)" "data_gpio_config None 8 \<noteq> None"
    "(\<lambda>(_::bool) (i::nat) (_::nat). if i = 0 then Some (\<lambda>_::nat. 0::byte) else None) False 0
       (fb_size (640 div 2) (480 div 2) 8) = None \<or>
     (\<lambda>(_::bool) (i::nat) (_::nat). if i = 0 then Some (\<lambda>_::nat. 0::byte) else None) False 1
       (fb_size (640 div 2) (480 div 2) 8) = None" by (simp_all add: data_gpio_config_def)
  show ?thesis using h init_alloc_failure [OF h, of vga_new] by blast
qed

lemma demo_reach_waiting: "sync_reach demo_waiting"
  using demo_start demo_step_signal by (rule sync_reach.step)

theorem sync_refines_spec_witness:
  "sync_reach demo_waiting \<and> sync_step demo_waiting demo_swapped \<and>
   (spec_step (sync_abs demo_waiting) (sync_abs demo_swapped) \<or>
    sync_abs demo_swapped = sync_abs demo_waiting)"
  using demo_reach_waiting demo_step_swap sync_refines_spec [OF demo_reach_waiting demo_step_swap]
  by blast

theorem sync_reach_spec_witness:
  "sync_reach demo_waiting \<and> spec_reach (sync_abs demo_waiting) \<and>
   frame_buffer_index (dev demo_waiting) < 2 \<and> sem_gui_ready (dev demo_waiting) \<and>
   prod demo_waiting = Waiting \<and> \<not> sem_vsync_end (dev demo_waiting)"
proof -
  have g: "sem_gui_ready (dev demo_waiting)" by (simp add: demo_waiting_def)
  show ?thesis using demo_reach_waiting g sync_reach_spec [OF demo_reach_waiting] by blast
qed

theorem packed_frame_roundtrip_witness:
  "even (length [1, 2, 3, 4 :: byte]) \<and> list_all (\<lambda>x. x < 8) [1, 2, 3, 4 :: byte] \<and>
   concat (map unpack_pair (pack_frame [1, 2, 3, 4])) = [1, 2, 3, 4]"
proof -
  have h: "even (length [1, 2, 3, 4 :: byte])" "list_all (\<lambda>x. x < 8) [1, 2, 3, 4 :: byte]"
    by simp_all
  show ?thesis using h packed_frame_roundtrip [OF h] by simp
qed

theorem packed_output_range_witness:
  "vga_wf demo_scan \<and> geometry_ok demo_scan \<and> request_ok demo_scan 0 2 \<and>
   length (replicate 40 (0::byte)) = 2 * screen_width demo_scan \<and> color_bits demo_scan = 3 \<and>
   bounce_fill demo_scan (0 * screen_width demo_scan) (2 * screen_width demo_scan) (replicate 40 0)
     = Some demo_out \<and> list_all (\<lambda>x. x < 8) demo_out"
proof -
  have h: "vga_wf demo_scan" "geometry_ok demo_scan" "request_ok demo_scan 0 2"
    "length (replicate 40 (0::byte)) = 2 * screen_width demo_scan" "color_bits demo_scan = 3"
    by (simp_all add: demo_scan_def vga_wf_def fb_size_def geometry_ok_def request_ok_def)
  have "0 * screen_width demo_scan = 0" "2 * screen_width demo_scan = 40"
    by (simp_all add: demo_scan_def)
  then have f: "bounce_fill demo_scan (0 * screen_width demo_scan) (2 * screen_width demo_scan)
      (replicate 40 0) = Some demo_out" using demo_scan_fill by simp
  show ?thesis using h f packed_output_range [OF h f] by blast
qed

theorem init_pins_out_of_bounds_witness:
  "0 < (2::nat) \<and>
   length [1, 2, 3 :: int] < min 8 8 \<and>
   init (\<lambda>_ _ _. Some (\<lambda>_. 0)) vga_new 640 480 2 8 (Some [1, 2, 3]) False = Inl PinsOutOfBounds"
proof -
  have h: "0 < (2::nat)" by simp
  show ?thesis
    using h init_pins_out_of_bounds [where alloc = "\<lambda>_ _ _. Some (\<lambda>_. 0)" and v = vga_new
        and width = 640 and height = 480 and bits = 8 and ps = "[1, 2, 3]" and p = False, OF h]
    by simp
qed

theorem init_unsupported_resolution_witness:
  "0 < (1::nat) \<and> (8::nat) \<noteq> 3 \<and> data_gpio_config None 8 \<noteq> None \<and>
   (\<forall>i n. \<exists>g. (\<lambda>(_::bool) (_::nat) (_::nat). Some (\<lambda>_::nat. 0::byte)) False i n = Some g) \<and>
   (1024::nat, 768::nat) \<notin> {(800, 600), (640, 480), (640, 400), (640, 350)} \<and>
   (\<exists>v' cfg. init (\<lambda>_ _ _. Some (\<lambda>_. 0)) vga_new 1024 768 1 8 None False = Inr v' \<and>
      panel_handle v' = Some cfg \<and> pclk_hz (timings cfg) = 0 \<and>
      hsync_pulse_width (timings cfg) = 0 \<and> vsync_pulse_width (timings cfg) = 0)"
proof -
  have h: "0 < (1::nat)" "(8::nat) \<noteq> 3" "data_gpio_config None 8 \<noteq> None"
    "\<And>i n. \<exists>g. (\<lambda>(_::bool) (_::nat) (_::nat). Some (\<lambda>_::nat. 0::byte)) False i n = Some g"
    "(1024::nat, 768::nat) \<notin> {(800, 600), (640, 480), (640, 400), (640, 350)}"
    by (simp_all add: data_gpio_config_def)
  show ?thesis using h init_unsupported_resolution [where v = vga_new, OF h] by blast
qed

theorem init_starts_scanout_witness:
  "((640::nat, 480::nat) \<in> {(800, 600), (640, 480), (640, 400)} \<and> ((2::nat) = 1 \<or> (2::nat) = 2) \<or>
    (640::nat) = 640 \<and> (480::nat) = 350 \<and> (2::nat) = 1) \<and>
   data_gpio_config None 8 \<noteq> None \<and>
   (\<forall>i n. \<exists>g. (\<lambda>(_::bool) (_::nat) (_::nat). Some (\<lambda>_::nat. 0::byte)) False i n = Some g) \<and>
   length (replicate 30720 (0::byte)) = (480 div 10) * 640 \<and>
   (\<exists>v' cfg. init (\<lambda>_ _ _. Some (\<lambda>_. 0)) vga_new 640 480 2 8 None False = Inr v' \<and>
      panel_handle v' = Some cfg \<and> bounce_buffer_size_px cfg = chunk_px v' \<and>
      sys_reach (sys_init v' (replicate 30720 0)))"
proof -
  have h: "(640::nat, 480::nat) \<in> {(800, 600), (640, 480), (640, 400)} \<and> ((2::nat) = 1 \<or> (2::nat) = 2) \<or>
    (640::nat) = 640 \<and> (480::nat) = 350 \<and> (2::nat) = 1"
    "data_gpio_config None 8 \<noteq> None"
    "\<And>i n. \<exists>g. (\<lambda>(_::bool) (_::nat) (_::nat). Some (\<lambda>_::nat. 0::byte)) False i n = Some g"
    "length (replicate 30720 (0::byte)) = (480 div 10) * 640"
    by (simp_all add: data_gpio_config_def)
  show ?thesis using h init_starts_scanout [OF h] by blast
qed

theorem producer_released_within_frame_witness:
  "sys_reach demo_sys2 \<and> prod (hs demo_sys2) = Waiting \<and>
   (\<exists>n t. n \<le> frame_px (sdev demo_sys2) div chunk_px (sdev demo_sys2) + 1 \<and>
      (sys_step ^^ n) demo_sys2 t \<and> prod (hs t) = Drawing)"
proof -
  have w: "prod (hs demo_sys2) = Waiting" by (simp add: demo_sys2_def)
  show ?thesis using demo_reach_sys2 w producer_released_within_frame [OF demo_reach_sys2 w] by blast
qed

theorem isr_always_defined_witness:
  "sys_reach demo_sys2 \<and>
   (\<exists>v' out. bounce_event (sdev demo_sys2) (scan demo_sys2) (chunk_px (sdev demo_sys2)) (bbuf demo_sys2)
      = Some (v', out))"
  using demo_reach_sys2 isr_always_defined [OF demo_reach_sys2] by blast

theorem unroll_overrun_scale2_witness:
  "vga_wf demo_narrow2 \<and> frame_scale demo_narrow2 = 2 \<and>
   color_bits demo_narrow2 = 8 \<and> \<not> 40 dvd frame_width demo_narrow2 \<and>
   0 < frame_width demo_narrow2 \<and> 0 < frame_height demo_narrow2 \<and>
   bounce_fill demo_narrow2 0 (4 * frame_height demo_narrow2 * frame_width demo_narrow2)
     (replicate 16 0) = None"
proof -
  have h: "vga_wf demo_narrow2" "frame_scale demo_narrow2 = 2"
    "color_bits demo_narrow2 = 8 \<and> \<not> 40 dvd frame_width demo_narrow2 \<or>
     color_bits demo_narrow2 = 3 \<and> \<not> 10 dvd frame_width demo_narrow2"
    "0 < frame_width demo_narrow2" "0 < frame_height demo_narrow2"
    by (simp_all add: demo_narrow2_def vga_wf_def fb_size_def)
  have b: "color_bits demo_narrow2 = 8 \<and> \<not> 40 dvd frame_width demo_narrow2"
    by (simp add: demo_narrow2_def)
  show ?thesis using h b unroll_overrun_scale2 [OF h, of "replicate 16 0"] by blast
qed

theorem release_variant_witness:
  "sys_reach demo_sys2 \<and> prod (hs demo_sys2) = Waiting \<and> \<not> sem_vsync_end (sdev demo_sys2) \<and>
   sys_step demo_sys2 demo_sys3 \<and> prod (hs demo_sys3) = Waiting \<and>
   frame_px (sdev demo_sys3) = frame_px (sdev demo_sys2) \<and>
   (sem_vsync_end (sdev demo_sys3) \<or> scan demo_sys3 = scan demo_sys2 \<or>
    scan demo_sys3 = scan demo_sys2 + chunk_px (sdev demo_sys2))"
proof -
  have h: "prod (hs demo_sys2) = Waiting" "\<not> sem_vsync_end (sdev demo_sys2)"
    by (simp_all add: demo_sys2_def demo_scan_def)
  show ?thesis
    using demo_reach_sys2 h demo_sys_last release_variant [OF demo_reach_sys2 h demo_sys_last] by blast
qed

theorem release_before_wrap_witness:
  "sys_reach demo_sys0 \<and> prod (hs demo_sys0) = Waiting \<and> \<not> sem_vsync_end (sdev demo_sys0) \<and>
   ((\<lambda>a b. sys_step a b \<and> \<not> sem_vsync_end (sdev b)) ^^ 1) demo_sys0 demo_sys2 \<and>
   prod (hs demo_sys2) = Waiting \<and> (\<exists>k. scan demo_sys2 = scan demo_sys0 + k * chunk_px (sdev demo_sys0)) \<and>
   scan demo_sys2 < frame_px (sdev demo_sys0)"
proof -
  have h: "prod (hs demo_sys0) = Waiting" "\<not> sem_vsync_end (sdev demo_sys0)"
    by (simp_all add: demo_sys0_def demo_sys2_def demo_scan_def)
  have r: "((\<lambda>a b. sys_step a b \<and> \<not> sem_vsync_end (sdev b)) ^^ 1) demo_sys0 demo_sys2"
    unfolding relpowp_1 using demo_sys_chunk0 by (simp add: demo_sys2_def demo_scan_def)
  show ?thesis using demo_reach_sys0 h r release_before_wrap [OF demo_reach_sys0 h r] by blast
qed

end
